theory Spec2Isabelle
  imports Main "HOL-Library.Sublist"
begin

section \<open>Reference properties of the document object graph (App/PropertyLinks.cpp)\<close>

text \<open>
  Document objects, documents and properties are identified by their addresses; a null
  pointer is \<open>None\<close>.  Functions of other translation units that the code calls
  (\<open>DocumentObject::getSubObject\<close>, \<open>isAttachedToDocument\<close>, \<open>GeoFeature::resolveElement\<close>,
  ...) are parameters of the definitions that call them.
\<close>

type_synonym obj = nat
type_synonym doc = nat
type_synonym pid = nat

datatype LinkScope = Local | Child | Global | Hidden

record ShadowSub =
  newName :: string
  oldName :: string

subsection \<open>PropertyLinkBase::isSame\<close>

text \<open>
  The class of a property with the value it holds: a \<open>PropertyLink\<close>, a
  \<open>PropertyLinkList\<close>, or (\<open>NotALink\<close>) any class that is not derived from
  \<open>PropertyLinkBase\<close>.  \<open>scope_of\<close> is \<open>getScope()\<close>.
\<close>

datatype prop_value =
    IsPropertyLink "obj option"
  | IsPropertyLinkList "obj option list"
  | NotALink

record property =
  addr :: pid
  scope_of :: LinkScope
  pvalue :: prop_value

definition isDerivedFromLinkBase :: "property \<Rightarrow> bool" where
  "isDerivedFromLinkBase p = (pvalue p \<noteq> NotALink)"

text \<open>\<open>PropertyLink::getLinks\<close> and \<open>PropertyLinkList::getLinks\<close>: the objects appended to
  \<open>objs\<close>; neither touches \<open>subs\<close>.\<close>

fun getLinks :: "(obj \<Rightarrow> bool) \<Rightarrow> property \<Rightarrow> bool \<Rightarrow> obj list" where
  "getLinks attached p all =
     (case pvalue p of
        IsPropertyLink l \<Rightarrow>
          (case l of
             Some a \<Rightarrow> if (all \<or> scope_of p \<noteq> Hidden) \<and> attached a then [a] else []
           | None \<Rightarrow> [])
      | IsPropertyLinkList ls \<Rightarrow>
          (if all \<or> scope_of p \<noteq> Hidden
           then concat (map (\<lambda>l. case l of Some a \<Rightarrow> if attached a then [a] else [] | None \<Rightarrow> []) ls)
           else [])
      | NotALink \<Rightarrow> [])"

text \<open>
  \<open>isSame\<close>, lines 98-121.  The second test returns \<open>false\<close> as soon as \<open>other\<close> is derived
  from \<open>PropertyLinkBase\<close>.  Only a property of another class gets past it, and for such a
  property the \<open>static_cast\<close> to \<open>PropertyLinkBase\<close> that follows reads an object of the
  wrong class: undefined behaviour, \<open>None\<close> here.  The comparison of the collected links in
  lines 117-120 is therefore never reached with a link property.
\<close>

definition isSame :: "property \<Rightarrow> property \<Rightarrow> bool option" where
  "isSame this other =
     (if addr other = addr this then Some True
      else if isDerivedFromLinkBase other then Some False
      else None)"


subsection \<open>The label registry and the element-backlink registry\<close>

text \<open>
  \<open>_LabelMap\<close> and \<open>_ElementRefMap\<close> are the two static tables of lines 62-63; each
  property keeps the keys under which it is registered in its own members \<open>_LabelRefs\<close>
  and \<open>_ElementRefs\<close>.  The members are sets in the source; they are kept here as lists
  without repetition, in the order of insertion, so that the loops over them are
  recursions.  Each iteration touches the entry of its own key only.
\<close>

record registries =
  LabelMap :: "string \<rightharpoonup> pid set"
  ElementRefMap :: "obj \<rightharpoonup> pid set"
  LabelRefs :: "pid \<Rightarrow> string list"
  ElementRefs :: "pid \<Rightarrow> obj list"

definition no_registrations :: registries where
  "no_registrations =
     \<lparr>LabelMap = Map.empty, ElementRefMap = Map.empty,
      LabelRefs = (\<lambda>_. []), ElementRefs = (\<lambda>_. [])\<rparr>"

text \<open>The body of both unregister loops: find the key, erase \<open>this\<close> from its set, and
  erase the key when the set has become empty.\<close>

definition erase_from :: "pid \<Rightarrow> 'k \<Rightarrow> ('k \<rightharpoonup> pid set) \<Rightarrow> ('k \<rightharpoonup> pid set)" where
  "erase_from this k m =
     (case m k of
        None \<Rightarrow> m
      | Some s \<Rightarrow> (if s - {this} = {} then m(k := None) else m(k \<mapsto> s - {this})))"

definition unregisterElementReference :: "pid \<Rightarrow> registries \<Rightarrow> registries" where
  "unregisterElementReference this r =
     r\<lparr>ElementRefMap := fold (erase_from this) (ElementRefs r this) (ElementRefMap r),
       ElementRefs := (ElementRefs r)(this := [])\<rparr>"

definition unregisterLabelReferences :: "pid \<Rightarrow> registries \<Rightarrow> registries" where
  "unregisterLabelReferences this r =
     r\<lparr>LabelMap := fold (erase_from this) (LabelRefs r this) (LabelMap r),
       LabelRefs := (LabelRefs r)(this := [])\<rparr>"

text \<open>\<open>_LabelMap[label].insert(this)\<close>: \<open>operator[]\<close> creates the empty set for a new key.\<close>

definition insert_into :: "pid \<Rightarrow> 'k \<Rightarrow> ('k \<rightharpoonup> pid set) \<Rightarrow> ('k \<rightharpoonup> pid set)" where
  "insert_into this k m = m(k \<mapsto> insert this (case m k of None \<Rightarrow> {} | Some s \<Rightarrow> s))"

definition register_label :: "pid \<Rightarrow> string \<Rightarrow> registries \<Rightarrow> registries" where
  "register_label this label r =
     (if label \<in> set (LabelRefs r this) then r
      else r\<lparr>LabelRefs := (LabelRefs r)(this := LabelRefs r this @ [label]),
             LabelMap := insert_into this label (LabelMap r)\<rparr>)"

definition registerLabelReferences :: "pid \<Rightarrow> string list \<Rightarrow> bool \<Rightarrow> registries \<Rightarrow> registries" where
  "registerLabelReferences this labels reset r =
     fold (register_label this) labels (if reset then unregisterLabelReferences this r else r)"

text \<open>Lines 328-330 and 436-438: \<open>if (_ElementRefs.insert(geo).second)
  _ElementRefMap[geo].insert(this)\<close>.\<close>

definition register_element :: "pid \<Rightarrow> obj \<Rightarrow> registries \<Rightarrow> registries" where
  "register_element this geo r =
     (if geo \<in> set (ElementRefs r this) then r
      else r\<lparr>ElementRefs := (ElementRefs r)(this := ElementRefs r this @ [geo]),
             ElementRefMap := insert_into this geo (ElementRefMap r)\<rparr>)"

text \<open>\<open>getLabelReferences\<close>, lines 151-162: the texts between each \<open>$\<close> and the next
  \<open>.\<close>; the scan resumes after that dot.\<close>

function getLabelReferences :: "string \<Rightarrow> string list" where
  "getLabelReferences subname =
     (case dropWhile (\<lambda>c. c \<noteq> CHR ''$'') subname of
        [] \<Rightarrow> []
      | _ # rest \<Rightarrow>
          (if CHR ''.'' \<in> set rest
           then takeWhile (\<lambda>c. c \<noteq> CHR ''.'') rest
                  # getLabelReferences (tl (dropWhile (\<lambda>c. c \<noteq> CHR ''.'') rest))
           else []))"
  by pat_completeness auto
termination
proof (relation "measure length", goal_cases)
  case 1
  show ?case by simp
next
  case (2 subname x21 rest)
  have a: "length (dropWhile (\<lambda>c. c \<noteq> CHR ''$'') subname) \<le> length subname"
    by (rule length_dropWhile_le)
  have b: "length (dropWhile (\<lambda>c. c \<noteq> CHR ''.'') rest) \<le> length rest"
    by (rule length_dropWhile_le)
  from 2 a b show ?case by simp
qed

definition checkLabelReferences :: "pid \<Rightarrow> string list \<Rightarrow> bool \<Rightarrow> registries \<Rightarrow> registries" where
  "checkLabelReferences this subs reset r =
     fold (\<lambda>sub. registerLabelReferences this (getLabelReferences sub) False) subs
       (if reset then unregisterLabelReferences this r else r)"

text \<open>The destructor \<open>~PropertyLinkBase\<close>, lines 68-72.\<close>

definition destroy_PropertyLinkBase :: "pid \<Rightarrow> registries \<Rightarrow> registries" where
  "destroy_PropertyLinkBase this r = unregisterElementReference this (unregisterLabelReferences this r)"

text \<open>The states of the two tables that the operations above can produce.\<close>

inductive reachable :: "registries \<Rightarrow> bool" where
  init: "reachable no_registrations"
| reg_labels: "reachable r \<Longrightarrow> reachable (registerLabelReferences this labels reset r)"
| check_labels: "reachable r \<Longrightarrow> reachable (checkLabelReferences this subs reset r)"
| reg_element: "reachable r \<Longrightarrow> reachable (register_element this geo r)"
| unreg_labels: "reachable r \<Longrightarrow> reachable (unregisterLabelReferences this r)"
| unreg_element: "reachable r \<Longrightarrow> reachable (unregisterElementReference this r)"
| destroy: "reachable r \<Longrightarrow> reachable (destroy_PropertyLinkBase this r)"

definition no_empty_entry :: "('k \<rightharpoonup> pid set) \<Rightarrow> bool" where
  "no_empty_entry m = (\<forall>k s. m k = Some s \<longrightarrow> s \<noteq> {})"

definition not_registered :: "pid \<Rightarrow> ('k \<rightharpoonup> pid set) \<Rightarrow> bool" where
  "not_registered this m = (\<forall>k s. m k = Some s \<longrightarrow> this \<notin> s)"


text \<open>Every membership in a table is recorded in the member's own key list.\<close>

definition tracked :: "registries \<Rightarrow> bool" where
  "tracked r \<longleftrightarrow>
     (\<forall>p k s. LabelMap r k = Some s \<and> p \<in> s \<longrightarrow> k \<in> set (LabelRefs r p)) \<and>
     (\<forall>p k s. ElementRefMap r k = Some s \<and> p \<in> s \<longrightarrow> k \<in> set (ElementRefs r p))"

definition well_kept :: "registries \<Rightarrow> bool" where
  "well_kept r \<longleftrightarrow> tracked r \<and> no_empty_entry (LabelMap r) \<and> no_empty_entry (ElementRefMap r)"

text \<open>Two properties, 7 and 8, registered under the label \<open>Box\<close>; 7 also under \<open>Lid\<close> and
  as dependent of the geometry of object 3.\<close>

definition two_properties :: registries where
  "two_properties =
     checkLabelReferences 7 [''A.$Box.Face1'', ''$Box.$Lid.Edge2''] True
       (register_element 7 3 (registerLabelReferences 8 [''Box''] False no_registrations))"

subsection \<open>Errors\<close>

text \<open>
  The exceptions thrown in this file, and the two ways in which a call may fail to return
  a value at all: \<open>Undefined\<close> is undefined behaviour (a null pointer dereferenced, a string
  built from a null \<open>char*\<close>), \<open>NoReturn\<close> is a loop that does not end.
\<close>

datatype error = ValueError | RuntimeError | TypeError | OutOfRange | Undefined | NoReturn

subsection \<open>Label references: updateLabelReference, updateLinkSubs, CopyOnLabelChange\<close>

text \<open>\<open>strstr haystack needle\<close>: the offset of the first occurrence, if there is one.\<close>

fun strstr :: "string \<Rightarrow> string \<Rightarrow> nat option" where
  "strstr [] needle = (if needle = [] then Some 0 else None)"
| "strstr (c # cs) needle =
     (if take (length needle) (c # cs) = needle then Some 0
      else map_option Suc (strstr cs needle))"

text \<open>\<open>std::string::replace(pos, count, str)\<close>: throws \<open>std::out_of_range\<close> when \<open>pos\<close> is
  beyond the end, and replaces up to the end when \<open>count\<close> reaches beyond it.\<close>

definition string_replace :: "string \<Rightarrow> nat \<Rightarrow> nat \<Rightarrow> string \<Rightarrow> error + string" where
  "string_replace s pos count str =
     (if pos > length s then Inl OutOfRange
      else Inr (take pos s @ str @ drop (pos + count) s))"

text \<open>\<open>a - b\<close> on \<open>std::size_t\<close> (64 bits).\<close>

definition size_t_minus :: "nat \<Rightarrow> nat \<Rightarrow> nat" where
  "size_t_minus a b = (if b \<le> a then a - b else a + 2 ^ 64 - b)"

text \<open>
  The loop of \<open>updateLabelReference\<close>, lines 204-213, from the offset \<open>off\<close> of \<open>pos\<close> in
  \<open>subname\<close>.  With an empty \<open>ref\<close> the step \<open>pos += ref.size()\<close> does not advance and the loop
  does not end.
\<close>

function updateLabelReference_loop ::
  "(obj \<Rightarrow> string \<Rightarrow> obj option) \<Rightarrow> obj \<Rightarrow> string \<Rightarrow> obj \<Rightarrow> string \<Rightarrow> string \<Rightarrow> nat
   \<Rightarrow> error + string" where
  "updateLabelReference_loop getSubObject parent subname ob ref newLabel off =
     (case strstr (drop off subname) ref of
        None \<Rightarrow> Inr []
      | Some k \<Rightarrow>
          (let pos = off + k;
               sub = take (pos + length ref) subname in
           if getSubObject parent sub = Some ob
           then string_replace subname (pos + 1) (size_t_minus (length ref) 2) newLabel
           else if ref = [] then Inl NoReturn
           else updateLabelReference_loop getSubObject parent subname ob ref newLabel
                  (pos + length ref)))"
  by pat_completeness auto
termination
proof (relation "measure (\<lambda>(g, parent, subname, ob, ref, newLabel, off). length subname - off)",
    goal_cases)
  case 1
  show ?case by simp
next
  case (2 getSubObject parent subname ob ref newLabel off k pos sub)
  have fits: "strstr h n = Some j \<Longrightarrow> j + length n \<le> length h" for h n j
  proof (induction h arbitrary: j)
    case Nil
    then show ?case by (simp split: if_splits)
  next
    case (Cons c cs)
    show ?case
    proof (cases "take (length n) (c # cs) = n")
      case True
      then have "length (take (length n) (c # cs)) = length n"
        by (rule arg_cong)
      then have "length n \<le> length (c # cs)"
        unfolding length_take by arith
      with True Cons.prems show ?thesis by simp
    next
      case False
      with Cons.prems obtain j' where "strstr cs n = Some j'" "j = Suc j'"
        by auto
      with Cons.IH show ?thesis by simp
    qed
  qed
  from 2 have "k + length ref \<le> length (drop off subname)"
    using fits by blast
  with 2 show ?case by (cases ref) auto
qed

declare updateLabelReference_loop.simps [simp del]

text \<open>\<open>updateLabelReference\<close>, lines 190-215.  The empty string is the answer "nothing to
  update".\<close>

definition updateLabelReference ::
  "(obj \<Rightarrow> bool) \<Rightarrow> (obj \<Rightarrow> string \<Rightarrow> obj option) \<Rightarrow> obj option \<Rightarrow> string \<Rightarrow> obj option
   \<Rightarrow> string \<Rightarrow> string \<Rightarrow> error + string" where
  "updateLabelReference attached getSubObject parent subname ob ref newLabel =
     (case (ob, parent) of
        (Some o', Some p') \<Rightarrow>
          (if \<not> attached o' \<or> \<not> attached p' then Inr []
           else updateLabelReference_loop getSubObject p' subname o' ref newLabel 0)
      | _ \<Rightarrow> Inr [])"

text \<open>
  The loop of the template \<open>updateLinkSubs\<close>, lines 1955-1970: \<open>seen\<close> are the subnames
  already passed, \<open>res\<close> the result so far.  An exception of \<open>f\<close> leaves the loop.
\<close>

fun updateLinkSubs_loop ::
  "(string \<Rightarrow> error + string) \<Rightarrow> string list \<Rightarrow> string list \<Rightarrow> string list
   \<Rightarrow> error + string list" where
  "updateLinkSubs_loop f seen [] res = Inr res"
| "updateLinkSubs_loop f seen (sub # rest) res =
     (case f sub of
        Inl e \<Rightarrow> Inl e
      | Inr new_sub \<Rightarrow>
          (if new_sub \<noteq> []
           then updateLinkSubs_loop f (seen @ [sub]) rest
                  ((if res = [] then seen else res) @ [new_sub])
           else if res \<noteq> []
           then updateLinkSubs_loop f (seen @ [sub]) rest (res @ [sub])
           else updateLinkSubs_loop f (seen @ [sub]) rest res))"

definition updateLinkSubs ::
  "(obj \<Rightarrow> bool) \<Rightarrow> obj option \<Rightarrow> string list \<Rightarrow> (obj option \<Rightarrow> string \<Rightarrow> error + string)
   \<Rightarrow> error + string list" where
  "updateLinkSubs attached ob subs f =
     (case ob of
        None \<Rightarrow> Inr []
      | Some o' \<Rightarrow> if \<not> attached o' then Inr [] else updateLinkSubs_loop (f ob) [] subs [])"

text \<open>
  \<open>PropertyLinkSub::CopyOnLabelChange\<close>, lines 2002-2023.  \<open>owner_doc\<close> is
  \<open>owner->getDocument()\<close> of the owning document object, \<open>None\<close> when the container is not a
  document object or has no document.  The result is the new property's \<open>_pcLinkSub\<close> and
  \<open>_cSubList\<close>, or \<open>None\<close> for \<open>nullptr\<close>.
\<close>

definition PropertyLinkSub_CopyOnLabelChange ::
  "(obj \<Rightarrow> bool) \<Rightarrow> (obj \<Rightarrow> string \<Rightarrow> obj option) \<Rightarrow> doc option \<Rightarrow> obj option \<Rightarrow> string list
   \<Rightarrow> obj option \<Rightarrow> string \<Rightarrow> string \<Rightarrow> error + (obj \<times> string list) option" where
  "PropertyLinkSub_CopyOnLabelChange attached getSubObject owner_doc pcLinkSub cSubList
     ob ref newLabel =
     (if owner_doc = None then Inr None
      else case pcLinkSub of
        None \<Rightarrow> Inr None
      | Some l \<Rightarrow>
          (if \<not> attached l then Inr None
           else case updateLinkSubs attached pcLinkSub cSubList
                       (\<lambda>parent sub.
                          updateLabelReference attached getSubObject parent sub ob ref newLabel) of
                  Inl e \<Rightarrow> Inl e
                | Inr subs \<Rightarrow> if subs = [] then Inr None else Inr (Some (l, subs))))"

text \<open>The reference text built in \<open>updateLabelReferences\<close>, lines 228-230, from the
  label that the object still carries.\<close>

definition label_ref :: "string \<Rightarrow> string" where
  "label_ref label = CHR ''$'' # label @ ''.''"

text \<open>An occurrence of \<open>ref\<close> at offset \<open>pos\<close> of \<open>subname\<close> that resolves to \<open>ob\<close>: the
  prefix of \<open>subname\<close> up to the end of the occurrence names \<open>ob\<close> as sub-object of
  \<open>parent\<close>.\<close>

definition resolves_at ::
  "(obj \<Rightarrow> string \<Rightarrow> obj option) \<Rightarrow> obj \<Rightarrow> string \<Rightarrow> obj \<Rightarrow> string \<Rightarrow> nat \<Rightarrow> bool" where
  "resolves_at getSubObject parent subname ob ref pos =
     (pos + length ref \<le> length subname
      \<and> take (length ref) (drop pos subname) = ref
      \<and> getSubObject parent (take (pos + length ref) subname) = Some ob)"

text \<open>The subname with the label of the occurrence at \<open>pos\<close> replaced (\<open>ref\<close> is
  \<open>$label.\<close>).\<close>

definition relabelled :: "string \<Rightarrow> string \<Rightarrow> string \<Rightarrow> nat \<Rightarrow> string" where
  "relabelled subname ref newLabel pos =
     take (pos + 1) subname @ newLabel @ drop (pos + length ref - 1) subname"

text \<open>A scene: below object 1, the path \<open>A.$Box.\<close> names object 2, whose label is
  \<open>Box\<close>.\<close>

definition box_world :: "obj \<Rightarrow> string \<Rightarrow> obj option" where
  "box_world parent sub = (if parent = 1 \<and> sub = ''A.$Box.'' then Some 2 else None)"


subsection \<open>Link replacement: tryReplaceLink\<close>

text \<open>\<open>std::string::find(c, pos)\<close>; \<open>None\<close> is \<open>npos\<close>.\<close>

definition string_find :: "string \<Rightarrow> char \<Rightarrow> nat \<Rightarrow> nat option" where
  "string_find s c pos =
     (let k = length (takeWhile (\<lambda>x. x \<noteq> c) (drop pos s))
      in if pos + k < length s then Some (pos + k) else None)"

text \<open>\<open>s[pos]\<close> for \<open>pos \<le> s.size()\<close>: the terminator is read at the end.\<close>

definition char_at :: "string \<Rightarrow> nat \<Rightarrow> char" where
  "char_at s pos = (if pos < length s then s ! pos else CHR 0x00)"

datatype replace_step = Replaced obj string | Swap | NoReplace

text \<open>
  The loop of \<open>tryReplaceLink\<close>, lines 585-619.  \<open>pos\<close> is the result of the last
  \<open>sub.find('.')\<close>.  The sub-object is looked up under the prefix of \<open>sub\<close> that ends after
  the dot (the source cuts the string there for the call and restores it).  \<open>Swap\<close> is the
  recursive call of line 612, made by \<open>tryReplaceLink\<close> below.  \<open>label\<close> is
  \<open>Label.getValue()\<close> and \<open>nameOf\<close> is \<open>getNameInDocument()\<close>, null for an object that is
  not in a document.
\<close>

function tryReplaceLink_loop ::
  "(obj \<Rightarrow> string \<Rightarrow> obj option) \<Rightarrow> (obj \<Rightarrow> string) \<Rightarrow> (obj \<Rightarrow> string option)
   \<Rightarrow> obj \<Rightarrow> obj option \<Rightarrow> obj option \<Rightarrow> obj option \<Rightarrow> string
   \<Rightarrow> nat option \<Rightarrow> obj \<Rightarrow> nat \<Rightarrow> error + replace_step" where
  "tryReplaceLink_loop getSubObject label nameOf ob parent oldObj newObj sub pos prev prevPos =
     (case pos of
        None \<Rightarrow> Inr NoReplace
      | Some p \<Rightarrow>
          (let pos' = p + 1; c = char_at sub pos' in
           if c = CHR ''.''
           then tryReplaceLink_loop getSubObject label nameOf ob parent oldObj newObj sub
                  (string_find sub CHR ''.'' pos') prev prevPos
           else case getSubObject ob (take pos' sub) of
                  None \<Rightarrow> Inr NoReplace
                | Some sobj \<Rightarrow>
                    (if Some sobj = oldObj
                     then (if Some prev = parent
                           then (case newObj of
                                   None \<Rightarrow> Inl Undefined
                                 | Some n \<Rightarrow>
                                     (case (if char_at sub prevPos = CHR ''$''
                                            then string_replace sub (prevPos + 1)
                                                   (size_t_minus (size_t_minus pos' 1) prevPos)
                                                   (label n)
                                            else (case nameOf n of
                                                    None \<Rightarrow> Inl Undefined
                                                  | Some name \<Rightarrow>
                                                      string_replace sub prevPos
                                                        (size_t_minus (size_t_minus pos' 1) prevPos)
                                                        name)) of
                                        Inl e \<Rightarrow> Inl e
                                      | Inr sub' \<Rightarrow> Inr (Replaced ob sub')))
                           else Inr NoReplace)
                     else if Some sobj = newObj then Inr Swap
                     else if Some prev = parent then Inr NoReplace
                     else tryReplaceLink_loop getSubObject label nameOf ob parent oldObj newObj sub
                            (string_find sub CHR ''.'' pos') sobj pos')))"
  by pat_completeness auto
termination
proof (relation "measure (\<lambda>(g, label, nameOf, ob, parent, oldObj, newObj, sub, pos, prev, prevPos).
                   case pos of None \<Rightarrow> 0 | Some p \<Rightarrow> Suc (length sub - p))", goal_cases)
  case 1
  show ?case by simp
next
  case (2 g label nameOf ob parent oldObj newObj sub pos prev prevPos p pos' c)
  then show ?case
    by (auto simp: string_find_def Let_def split: option.splits if_splits)
next
  case (3 g label nameOf ob parent oldObj newObj sub pos prev prevPos p pos' c sobj)
  then show ?case
    by (auto simp: string_find_def Let_def split: option.splits if_splits)
qed

declare tryReplaceLink_loop.simps [simp del]

lemma tryReplaceLink_loop_None:
  "tryReplaceLink_loop g label nameOf ob parent oldObj newObj sub None prev prevPos = Inr NoReplace"
  by (simp add: tryReplaceLink_loop.simps)

lemmas tryReplaceLink_loop_Some =
  tryReplaceLink_loop.simps [of _ _ _ _ _ _ _ _ "Some p" for p, simplified option.case]

text \<open>
  When the loop over the path asks for the swap, the loop with the two objects swapped
  does not ask again: it stops at the same position, where the sub-object is now the one
  to replace.  This is what ends the recursion of \<open>tryReplaceLink\<close>.
\<close>

lemma tryReplaceLink_loop_Swap_once:
  "tryReplaceLink_loop g label nameOf ob parent oldObj newObj sub pos prev prevPos = Inr Swap
   \<Longrightarrow> tryReplaceLink_loop g label nameOf ob parent newObj oldObj sub pos prev prevPos \<noteq> Inr Swap"
proof (induction g label nameOf ob parent oldObj newObj sub pos prev prevPos
    rule: tryReplaceLink_loop.induct)
  case (1 g label nameOf ob parent oldObj newObj sub pos prev prevPos)
  show ?case
  proof (cases pos)
    case None
    with "1.prems" show ?thesis by (simp add: tryReplaceLink_loop_None)
  next
    case (Some p)
    show ?thesis
    proof (cases "char_at sub (p + 1) = CHR ''.''")
      case True
      with Some "1.prems"
      have "tryReplaceLink_loop g label nameOf ob parent oldObj newObj sub
              (string_find sub CHR ''.'' (p + 1)) prev prevPos = Inr Swap"
        by (simp add: tryReplaceLink_loop_None tryReplaceLink_loop_Some)
      from "1.IH"(1) [OF Some refl refl True this] Some True show ?thesis
        by (simp add: tryReplaceLink_loop_None tryReplaceLink_loop_Some)
    next
      case False
      show ?thesis
      proof (cases "g ob (take (p + 1) sub)")
        case None
        with Some False "1.prems" show ?thesis
          by (simp add: tryReplaceLink_loop_None tryReplaceLink_loop_Some)
      next
        case (Some sobj)
        show ?thesis
        proof (cases "Some sobj = oldObj \<or> Some sobj = newObj \<or> Some prev = parent")
          case True
          with \<open>pos = Some p\<close> False Some "1.prems" show ?thesis
            by (auto simp: tryReplaceLink_loop_None tryReplaceLink_loop_Some Let_def
                split: if_splits option.splits sum.splits)
        next
          case other: False
          with \<open>pos = Some p\<close> False Some "1.prems"
          have "tryReplaceLink_loop g label nameOf ob parent oldObj newObj sub
                  (string_find sub CHR ''.'' (p + 1)) sobj (p + 1) = Inr Swap"
            by (simp add: tryReplaceLink_loop_None tryReplaceLink_loop_Some)
          from "1.IH"(2) [OF \<open>pos = Some p\<close> refl refl False Some _ _ _ this] other
          have "tryReplaceLink_loop g label nameOf ob parent newObj oldObj sub
                  (string_find sub CHR ''.'' (p + 1)) sobj (p + 1) \<noteq> Inr Swap"
            by simp
          with \<open>pos = Some p\<close> False Some other show ?thesis
            by (simp add: tryReplaceLink_loop_None tryReplaceLink_loop_Some)
        qed
      qed
    qed
  qed
qed

text \<open>
  \<open>tryReplaceLink\<close>, lines 548-621.  \<open>owner\<close> is the address of the container that owns the
  property, \<open>subname\<close> may be null.  The result is the pair \<open>res\<close> when \<open>res.first\<close> is not
  null, and \<open>None\<close> when it is null, which is what every caller tests.
\<close>

function tryReplaceLink ::
  "(obj \<Rightarrow> string \<Rightarrow> obj option) \<Rightarrow> (obj \<Rightarrow> string) \<Rightarrow> (obj \<Rightarrow> string option)
   \<Rightarrow> obj option \<Rightarrow> obj option \<Rightarrow> obj option \<Rightarrow> obj option \<Rightarrow> obj option \<Rightarrow> string option
   \<Rightarrow> error + (obj \<times> string) option" where
  "tryReplaceLink getSubObject label nameOf owner ob parent oldObj newObj subname =
     (case ob of
        None \<Rightarrow> Inr None
      | Some o' \<Rightarrow>
          (if oldObj = Some o'
           then (if owner = parent
                 then Inr (map_option (\<lambda>n. (n, case subname of None \<Rightarrow> [] | Some s \<Rightarrow> s)) newObj)
                 else Inr None)
           else if newObj = Some o'
           then tryReplaceLink getSubObject label nameOf owner ob parent newObj oldObj subname
           else case subname of
                  None \<Rightarrow> Inr None
                | Some sub \<Rightarrow>
                    (if sub = [] then Inr None
                     else case tryReplaceLink_loop getSubObject label nameOf o' parent
                                 oldObj newObj sub (string_find sub CHR ''.'' 0) o' 0 of
                            Inl e \<Rightarrow> Inl e
                          | Inr (Replaced r s) \<Rightarrow> Inr (Some (r, s))
                          | Inr Swap \<Rightarrow>
                              tryReplaceLink getSubObject label nameOf owner ob parent
                                newObj oldObj subname
                          | Inr NoReplace \<Rightarrow> Inr None)))"
  by pat_completeness auto
termination
proof (relation "measure (\<lambda>(g, label, nameOf, owner, ob, parent, oldObj, newObj, subname).
    case ob of
      None \<Rightarrow> 0
    | Some o' \<Rightarrow>
        if oldObj = Some o' then 0
        else if newObj = Some o' then 1
        else (case subname of
                None \<Rightarrow> 0
              | Some sub \<Rightarrow>
                  if tryReplaceLink_loop g label nameOf o' parent oldObj newObj sub
                       (string_find sub CHR ''.'' 0) o' 0 = Inr Swap
                  then (1::nat) else 0))", goal_cases)
  case 1
  show ?case by simp
next
  case 2
  then show ?case by simp
next
  case (3 g label nameOf owner ob parent oldObj newObj subname o' sub step)
  then have "tryReplaceLink_loop g label nameOf o' parent oldObj newObj sub
               (string_find sub CHR ''.'' 0) o' 0 = Inr Swap"
    by simp
  from tryReplaceLink_loop_Swap_once [OF this] this 3 show ?case
    by simp
qed

declare tryReplaceLink.simps [simp del]

text \<open>A position of the path at which the loop looks a sub-object up: just after a dot
  that is not followed by another dot.\<close>

definition is_checkpoint :: "string \<Rightarrow> nat \<Rightarrow> bool" where
  "is_checkpoint sub q =
     (1 \<le> q \<and> q \<le> length sub \<and> sub ! (q - 1) = CHR ''.'' \<and> char_at sub q \<noteq> CHR ''.'')"

text \<open>The path after the replacement of the segment between \<open>pp\<close> and \<open>p\<close> by the label
  or the name of \<open>n\<close>, as lines 599-604 compute it.\<close>

definition replaced_path ::
  "(obj \<Rightarrow> string) \<Rightarrow> (obj \<Rightarrow> string option) \<Rightarrow> string \<Rightarrow> nat \<Rightarrow> nat \<Rightarrow> obj \<Rightarrow> string option" where
  "replaced_path label nameOf sub pp p n =
     (if char_at sub pp = CHR ''$'' then Some (take (pp + 1) sub @ label n @ drop p sub)
      else map_option (\<lambda>name. take pp sub @ name @ drop (p - 1) sub) (nameOf n))"

text \<open>A scene: object 1 holds the objects 2 (\<open>oldObj\<close>) and 3 (\<open>newObj\<close>) as sub-objects.\<close>

definition cut_world :: "obj \<Rightarrow> string \<Rightarrow> obj option" where
  "cut_world parent sub =
     (if parent = 1 \<and> sub = ''oldObj.'' then Some 2
      else if parent = 1 \<and> sub = ''newObj.'' then Some 3 else None)"

definition cut_names :: "obj \<Rightarrow> string option" where
  "cut_names ob = (if ob = 2 then Some ''oldObj'' else if ob = 3 then Some ''newObj'' else None)"

text \<open>
  The path position \<open>p\<close> follows the position \<open>pp\<close> (no look-up position lies between
  them; \<open>pp = 0\<close> is the start of the path), and what precedes \<open>p\<close> is the parent: the
  linked object itself at the start of the path, else the sub-object found at \<open>pp\<close>.
\<close>

definition previous_is_parent ::
  "(obj \<Rightarrow> string \<Rightarrow> obj option) \<Rightarrow> obj \<Rightarrow> obj option \<Rightarrow> string \<Rightarrow> nat \<Rightarrow> nat \<Rightarrow> bool" where
  "previous_is_parent getSubObject ob parent sub pp p =
     (pp < p \<and> is_checkpoint sub p
      \<and> (\<forall>q \<in> set [Suc pp..<p]. \<not> is_checkpoint sub q)
      \<and> (if pp = 0 then parent = Some ob
          else is_checkpoint sub pp \<and> parent \<noteq> None \<and> getSubObject ob (take pp sub) = parent))"

text \<open>
  What a call of \<open>tryReplaceLink\<close> with the answer \<open>res\<close> has found when it replaces or
  fails: the linked object itself is one of the two objects and the owner is the parent
  (\<open>found_direct\<close>), or a position of the path names one of the two objects and what
  precedes it is the parent (\<open>found_on_path\<close>).
\<close>

definition found_direct ::
  "obj option \<Rightarrow> obj option \<Rightarrow> obj option \<Rightarrow> obj option \<Rightarrow> obj option \<Rightarrow> string option
   \<Rightarrow> error + (obj \<times> string) option \<Rightarrow> bool" where
  "found_direct owner ob parent oldObj newObj subname res =
     (\<exists>o'. ob = Some o' \<and> owner = parent
            \<and> (oldObj = Some o' \<or> newObj = Some o')
            \<and> (\<forall>r s. res = Inr (Some (r, s)) \<longrightarrow>
                  (oldObj = Some o' \<and> newObj = Some r \<or> newObj = Some o' \<and> oldObj = Some r)
                  \<and> s = (case subname of None \<Rightarrow> [] | Some sub \<Rightarrow> sub)))"

definition found_on_path ::
  "(obj \<Rightarrow> string \<Rightarrow> obj option) \<Rightarrow> (obj \<Rightarrow> string) \<Rightarrow> (obj \<Rightarrow> string option)
   \<Rightarrow> obj option \<Rightarrow> obj option \<Rightarrow> obj option \<Rightarrow> obj option \<Rightarrow> string option
   \<Rightarrow> error + (obj \<times> string) option \<Rightarrow> bool" where
  "found_on_path g label nameOf ob parent oldObj newObj subname res =
     (\<exists>o' sub pp p sobj. ob = Some o' \<and> oldObj \<noteq> Some o' \<and> newObj \<noteq> Some o'
            \<and> subname = Some sub
            \<and> previous_is_parent g o' parent sub pp p
            \<and> g o' (take p sub) = Some sobj
            \<and> (oldObj = Some sobj \<or> newObj = Some sobj)
            \<and> (\<forall>r s. res = Inr (Some (r, s)) \<longrightarrow> r = o'
                  \<and> (\<exists>n. (oldObj = Some sobj \<and> newObj = Some n
                           \<or> newObj = Some sobj \<and> oldObj = Some n)
                        \<and> replaced_path label nameOf sub pp p n = Some s)))"


text \<open>Some position of the path names one of the two objects below the parent.\<close>

definition occurrence_below_parent ::
  "(obj \<Rightarrow> string \<Rightarrow> obj option) \<Rightarrow> obj \<Rightarrow> obj option \<Rightarrow> obj option \<Rightarrow> obj option \<Rightarrow> string
   \<Rightarrow> bool" where
  "occurrence_below_parent getSubObject ob parent oldObj newObj sub =
     (\<exists>p \<in> set [1..<Suc (length sub)]. \<exists>pp \<in> set [0..<p].
        previous_is_parent getSubObject ob parent sub pp p
        \<and> (case getSubObject ob (take p sub) of
             None \<Rightarrow> False
           | Some sobj \<Rightarrow> oldObj = Some sobj \<or> newObj = Some sobj))"

subsection \<open>Collaborators, notifications and the state outside the properties\<close>

text \<open>
  What \<open>GeoFeature::resolveElement\<close> hands back: its return value, the geometry feature, the
  element part of the subname (a pointer into the subname, possibly null) and the pair of
  element names.
\<close>

record resolved =
  ret :: "obj option"
  geo :: "obj option"
  element :: "string option"
  elementName :: ShadowSub

text \<open>
  The functions of the document, of the document objects and of the element naming that
  the properties call and that are defined in other files.  \<open>testStatusDestroy\<close> is
  \<open>testStatus(ObjectStatus::Destroy)\<close>; \<open>resolveElement ob subname filter\<close> is
  \<open>GeoFeature::resolveElement(ob, subname, elementName, true, ElementNameType::Export,
  filter, &element, &geo)\<close>.  \<open>exportSubName\<close> (lines 1623-1707, used when the owner is being
  exported) is taken as it is.
\<close>

record world =
  isAttachedToDocument :: "obj \<Rightarrow> bool"
  getDocument :: "obj \<Rightarrow> doc option"
  testStatusDestroy :: "obj \<Rightarrow> bool"
  isRestoring :: "obj \<Rightarrow> bool"
  isExporting :: "obj \<Rightarrow> bool"
  getObject :: "doc \<Rightarrow> string \<Rightarrow> obj option"
  getExportName :: "obj \<Rightarrow> string"
  exportSubName :: "obj option \<Rightarrow> string \<Rightarrow> string"
  resolveElement :: "obj \<Rightarrow> string \<Rightarrow> obj option \<Rightarrow> resolved"
  hasMissingElement :: "string \<Rightarrow> bool"
  findElementName :: "string \<Rightarrow> string"
  searchElementCache :: "obj \<Rightarrow> string \<Rightarrow> string list"
  hasMappedElementName :: "string \<Rightarrow> bool"

text \<open>
  The calls that leave a property, in the order in which they are made: the two hooks of
  the property, the hooks of an aggregating parent property called by a child, the
  backlink calls \<open>target->_removeBackLink(owner)\<close> and \<open>target->_addBackLink(owner)\<close>, the
  assignment of the new value to the members (\<open>Assign\<close>), the call of the inherited
  \<open>setValues\<close> of a list property, \<open>owner->onUpdateElementReference(prop)\<close>, and the
  warnings written to the console.  Messages of the log and trace levels are left out.
\<close>

datatype event =
    AboutToSetValue pid
  | HasSetValue pid
  | AboutToSetChildValue pid pid
  | HasSetChildValue pid pid
  | RemoveBackLink obj obj
  | AddBackLink obj obj
  | Assign pid
  | InheritedSetValues pid "obj option list"
  | OnUpdateElementReference obj pid
  | Warning string

record globals =
  registry :: registries
  trace :: "event list"

definition emit :: "event list \<Rightarrow> globals \<Rightarrow> globals" where
  "emit es g = g\<lparr>trace := trace g @ es\<rparr>"

text \<open>The members of \<open>PropertyLinkBase\<close> that the functions below read.  \<open>container\<close> is
  \<open>getContainer()\<close> as a document object, \<open>None\<close> when the property has no container or the
  container is not a document object.\<close>

record PropertyLinkBase =
  self :: pid
  pcScope :: LinkScope
  container :: "obj option"
  LinkAllowExternal :: bool

subsection \<open>Element references: \_updateElementReference, \_registerElementReference\<close>

definition no_shadow :: ShadowSub where
  "no_shadow = \<lparr>newName = [], oldName = []\<rparr>"

text \<open>\<open>shadow.newName.size() ? shadow.newName : shadow.oldName\<close>.\<close>

definition new_or_old :: "ShadowSub \<Rightarrow> string" where
  "new_or_old s = (if newName s \<noteq> [] then newName s else oldName s)"

text \<open>\<open>std::string::rfind(c)\<close>.\<close>

definition string_rfind :: "string \<Rightarrow> char \<Rightarrow> nat option" where
  "string_rfind s c =
     (case filter (\<lambda>i. s ! i = c) (rev [0..<length s]) of [] \<Rightarrow> None | i # _ \<Rightarrow> Some i)"

text \<open>Lines 409-418: the name that is resolved, the new name of the shadow pair if
  there is one, else its old name, else \<open>sub\<close> itself.\<close>

definition subname_of :: "ShadowSub \<Rightarrow> string \<Rightarrow> string" where
  "subname_of shadow sub =
     (if newName shadow \<noteq> [] then newName shadow
      else if oldName shadow \<noteq> [] then oldName shadow else sub)"

text \<open>
  Lines 450-478: the search by geometry, made when the element is missing or the update
  is a reverse one, and the feature is the geometry itself.  The answer is the flag
  \<open>missing\<close>, the pair \<open>elementName\<close> and the warning.  \<open>el\<close> is the element part of
  \<open>subname\<close>, so that \<open>strlen(subname) - strlen(element)\<close> is the length of the path before it.
\<close>

definition search_by_geometry ::
  "world \<Rightarrow> obj option \<Rightarrow> obj \<Rightarrow> obj \<Rightarrow> string \<Rightarrow> string \<Rightarrow> ShadowSub \<Rightarrow> ShadowSub \<Rightarrow> bool
   \<Rightarrow> bool \<times> ShadowSub \<times> event list" where
  "search_by_geometry w feature ge ob subname el shadow en reverse =
     (let missing = hasMissingElement w (oldName en) in
      if feature = Some ge \<and> (missing \<or> reverse)
      then (let oldElement = findElementName w (oldName shadow) in
            if \<not> hasMissingElement w oldElement
            then (case searchElementCache w ge oldElement of
                    [] \<Rightarrow> (missing, en, [])
                  | name # _ \<Rightarrow>
                      (let newsub = take (length subname - length el) subname @ name;
                           en2 = elementName (resolveElement w ob newsub feature)
                       in (False, en2,
                           if new_or_old shadow \<noteq> new_or_old en2
                           then [Warning (''auto change element reference '' @ new_or_old shadow
                                          @ '' -> '' @ new_or_old en2)]
                           else [])))
            else (missing, en, []))
      else (missing, en, []))"

text \<open>Lines 521-545: the last component of \<open>sub\<close> is brought in line with the new name,
  or \<open>sub\<close> is replaced by the old name when the two paths differ in length.\<close>

definition patch_sub :: "string \<Rightarrow> ShadowSub \<Rightarrow> string" where
  "patch_sub sub shadow =
     (case string_rfind (newName shadow) CHR ''.'' of
        None \<Rightarrow> sub
      | Some p2 \<Rightarrow>
          (let pos2 = p2 + 1;
               pos = (case string_rfind sub CHR ''.'' of None \<Rightarrow> 0 | Some p \<Rightarrow> p + 1)
           in if pos = pos2
              then (if drop pos sub \<noteq> drop pos2 (newName shadow)
                    then take pos sub @ drop pos2 (newName shadow) else sub)
              else if sub \<noteq> oldName shadow then oldName shadow else sub))"

text \<open>Lines 491-545: the new \<open>sub\<close> and \<open>shadow\<close>, given the pair found and whether the
  element is missing.\<close>

definition adopt_element ::
  "world \<Rightarrow> string \<Rightarrow> ShadowSub \<Rightarrow> ShadowSub \<Rightarrow> bool \<Rightarrow> bool \<Rightarrow> string \<times> ShadowSub \<times> event list" where
  "adopt_element w sub shadow en missing reverse =
     (let shadow1 = (if missing then shadow\<lparr>oldName := oldName en\<rparr> else en);
          sub1 = (if \<not> missing \<and> newName shadow1 \<noteq> [] \<and> hasMappedElementName w sub
                  then newName shadow1 else sub);
          warn = (if missing
                  then [Warning (''missing element reference '' @ new_or_old en)] else [])
      in if reverse
         then (if newName shadow1 \<noteq> [] \<and> hasMappedElementName w sub1
               then (newName shadow1, shadow1, warn)
               else (oldName shadow1, shadow1, warn))
         else if missing
         then (if sub1 \<noteq> newName shadow1 then (oldName shadow1, shadow1, warn)
               else (sub1, shadow1, warn))
         else (patch_sub sub1 shadow1, shadow1, warn))"

text \<open>
  \<open>PropertyLinkBase::_updateElementReference\<close>, lines 398-546.  The answer is the returned
  flag with the new values of the reference parameters \<open>sub\<close> and \<open>shadow\<close>.
\<close>

definition PropertyLinkBase_updateElementReference ::
  "world \<Rightarrow> pid \<Rightarrow> obj option \<Rightarrow> obj option \<Rightarrow> string \<Rightarrow> ShadowSub \<Rightarrow> bool \<Rightarrow> bool \<Rightarrow> globals
   \<Rightarrow> bool \<times> string \<times> ShadowSub \<times> globals" where
  "PropertyLinkBase_updateElementReference w this feature ob sub shadow reverse notify g =
     (case ob of
        None \<Rightarrow> (False, sub, shadow, g)
      | Some o' \<Rightarrow>
          if \<not> isAttachedToDocument w o' then (False, sub, shadow, g)
          else
            (let subname = subname_of shadow sub;
                 r = resolveElement w o' subname feature;
                 en = elementName r;
                 unresolved = (False, sub,
                               if oldName en \<noteq> [] then shadow\<lparr>oldName := oldName en\<rparr> else shadow, g)
             in case (ret r, geo r, element r) of
                  (Some rt, Some ge, Some el) \<Rightarrow>
                    if el = [] then unresolved
                    else
                      (let g1 = g\<lparr>registry := register_element this ge (registry g)\<rparr> in
                       if \<not> reverse \<and> newName en = []
                       then (False, sub, shadow\<lparr>oldName := oldName en\<rparr>, g1)
                       else if \<not> reverse \<and> shadow = en then (False, sub, shadow, g1)
                       else
                         (case search_by_geometry w feature ge o' subname el shadow en reverse of
                            (missing, en', warn1) \<Rightarrow>
                              (case adopt_element w sub shadow en' missing reverse of
                                 (sub', shadow', warn2) \<Rightarrow>
                                   (True, sub', shadow',
                                    emit (warn1 @ (if notify then [AboutToSetValue this] else [])
                                          @ warn2) g1))))
                | _ \<Rightarrow> unresolved))"

text \<open>\<open>PropertyLinkBase::_registerElementReference\<close>, lines 302-331.\<close>

definition PropertyLinkBase_registerElementReference ::
  "world \<Rightarrow> pid \<Rightarrow> obj option \<Rightarrow> string \<Rightarrow> ShadowSub \<Rightarrow> globals \<Rightarrow> string \<times> ShadowSub \<times> globals" where
  "PropertyLinkBase_registerElementReference w this ob sub shadow g =
     (case ob of
        None \<Rightarrow> (sub, shadow, g)
      | Some o' \<Rightarrow>
          if \<not> isAttachedToDocument w o' \<or> sub = [] then (sub, shadow, g)
          else if newName shadow = []
          then snd (PropertyLinkBase_updateElementReference w this None ob sub shadow False False g)
          else
            (let r = resolveElement w o' sub None in
             case (geo r, element r) of
               (Some ge, Some el) \<Rightarrow>
                 if el = [] then (sub, shadow, g)
                 else (sub, shadow, g\<lparr>registry := register_element this ge (registry g)\<rparr>)
             | _ \<Rightarrow> (sub, shadow, g)))"

text \<open>\<open>std::vector::resize\<close> of a list of shadow pairs.\<close>

definition resize_shadows :: "nat \<Rightarrow> ShadowSub list \<Rightarrow> ShadowSub list" where
  "resize_shadows n xs = take n xs @ replicate (n - length xs) no_shadow"

text \<open>The loop of \<open>updateLinkReference\<close>, lines 1530-1539, over the subnames and their
  shadow pairs (\<open>shadows\<close> has been resized to the length of \<open>subs\<close>).\<close>

fun updateLinkReference_loop ::
  "world \<Rightarrow> pid \<Rightarrow> obj option \<Rightarrow> obj option \<Rightarrow> bool \<Rightarrow> bool \<Rightarrow> bool
   \<Rightarrow> string list \<Rightarrow> ShadowSub list \<Rightarrow> globals
   \<Rightarrow> bool \<times> string list \<times> ShadowSub list \<times> globals" where
  "updateLinkReference_loop w this feature link reverse notify touched
     (sub # subs) (shadow # shadows) g =
     (case PropertyLinkBase_updateElementReference w this feature link sub shadow reverse
             (notify \<and> \<not> touched) g of
        (changed, sub', shadow', g') \<Rightarrow>
          (case updateLinkReference_loop w this feature link reverse notify (touched \<or> changed)
                  subs shadows g' of
             (t, subs', shadows', g'') \<Rightarrow> (t, sub' # subs', shadow' # shadows', g'')))"
| "updateLinkReference_loop w this feature link reverse notify touched subs shadows g =
     (touched, subs, shadows, g)"

text \<open>Lines 1543-1547: the subnames marked as mapped take their new names.\<close>

definition apply_mapped :: "nat list \<Rightarrow> ShadowSub list \<Rightarrow> string list \<Rightarrow> string list" where
  "apply_mapped mapped shadows subs =
     fold (\<lambda>idx ss. if idx < length ss \<and> newName (shadows ! idx) \<noteq> []
                     then ss[idx := newName (shadows ! idx)] else ss) mapped subs"

text \<open>
  The static function \<open>updateLinkReference\<close>, lines 1507-1553, for the property \<open>prop\<close>.
  The answer is the returned flag with the new values of \<open>subs\<close>, \<open>mapped\<close> and \<open>shadows\<close>.
\<close>

definition updateLinkReference ::
  "world \<Rightarrow> 'a PropertyLinkBase_scheme \<Rightarrow> obj option \<Rightarrow> bool \<Rightarrow> bool \<Rightarrow> obj option
   \<Rightarrow> string list \<Rightarrow> nat list \<Rightarrow> ShadowSub list \<Rightarrow> globals
   \<Rightarrow> bool \<times> string list \<times> nat list \<times> ShadowSub list \<times> globals" where
  "updateLinkReference w prop feature reverse notify link subs mapped shadows g =
     (let g0 = (if feature = None
                then g\<lparr>registry := unregisterElementReference (self prop) (registry g)\<rparr> else g);
          shadows0 = resize_shadows (length subs) (if feature = None then [] else shadows)
      in case link of
           None \<Rightarrow> (False, subs, mapped, shadows0, g0)
         | Some l \<Rightarrow>
             if \<not> isAttachedToDocument w l then (False, subs, mapped, shadows0, g0)
             else if (case container prop of None \<Rightarrow> False | Some ow \<Rightarrow> isRestoring w ow)
             then (False, subs, mapped, shadows0, g0)
             else
               (case updateLinkReference_loop w (self prop) feature link reverse notify False
                       subs shadows0 g0 of
                  (touched, subs1, shadows1, g1) \<Rightarrow>
                    if \<not> touched then (False, subs1, mapped, shadows1, g1)
                    else (True, apply_mapped mapped shadows1 subs1, [], shadows1,
                          (case (container prop, feature) of
                             (Some ow, Some f) \<Rightarrow> emit [OnUpdateElementReference ow (self prop)] g1
                           | _ \<Rightarrow> g1))))"

text \<open>
  A scene for the element references: object 5 is a geometry feature whose face is known
  by the old-style name \<open>Face1\<close> and by the new-style name \<open>;g.Face1\<close>; both resolve to the
  same pair.  No other name resolves, no name is marked missing, and names that start
  with \<open>;\<close> are the mapped ones.
\<close>

definition face_resolve :: "obj \<Rightarrow> string \<Rightarrow> obj option \<Rightarrow> resolved" where
  "face_resolve ob subname only =
     (if ob = 5 \<and> (subname = ''Face1'' \<or> subname = '';g.Face1'')
         \<and> (only = None \<or> only = Some 5)
      then \<lparr>ret = Some 5, geo = Some 5, element = Some subname,
            elementName = \<lparr>newName = '';g.Face1'', oldName = ''Face1''\<rparr>\<rparr>
      else \<lparr>ret = None, geo = None, element = None, elementName = no_shadow\<rparr>)"

definition face_world :: world where
  "face_world =
     \<lparr>isAttachedToDocument = (\<lambda>_. True),
      getDocument = (\<lambda>_. Some 0),
      testStatusDestroy = (\<lambda>_. False),
      isRestoring = (\<lambda>_. False),
      isExporting = (\<lambda>_. False),
      getObject = (\<lambda>d name. if d = 0 \<and> name = ''Box'' then Some 5
                             else if d = 0 \<and> name = ''Pad'' then Some 6 else None),
      getExportName = (\<lambda>ob. if ob = 5 then ''Box'' else if ob = 6 then ''Pad'' else ''Object''),
      exportSubName = (\<lambda>ob sub. sub),
      resolveElement = face_resolve,
      hasMissingElement = (\<lambda>name. take 1 name = ''?''),
      findElementName = (\<lambda>name. name),
      searchElementCache = (\<lambda>ob name. []),
      hasMappedElementName = (\<lambda>name. take 1 name = '';'')\<rparr>"

definition no_globals :: globals where
  "no_globals = \<lparr>registry = no_registrations, trace = []\<rparr>"




subsection \<open>The persisted form\<close>

text \<open>
  The writer and the reader (\<open>Base/Writer\<close>, \<open>Base/Reader\<close>) are other files.  What is written
  is kept as the element itself: its tag, its attributes in the order in which they are
  written, and the elements inside it.  Attribute values are kept unescaped
  (\<open>encodeAttribute\<close> and the reader's decoding undo each other) and a number is kept as a
  number, which \<open>getAttributeAsInteger\<close> reads as an \<open>int\<close> (taken without a bound here).
  \<open>readElement\<close> moves to the next element with the given tag and fails at the end of the
  input; an attribute that is absent or of the wrong kind makes the reader throw
  (\<open>XMLError\<close>).  \<open>LengthError\<close> is the \<open>std::length_error\<close> of a vector that is created with a
  negative size.
\<close>

datatype attr_value = Text string | Number int

datatype xml = Element string "(string \<times> attr_value) list" "xml list"

datatype error_r = XMLError | LengthError | PropertyError error

record reader =
  isVerbose :: bool
  doNameMapping :: bool
  getName :: "string \<Rightarrow> string"

fun tag_of :: "xml \<Rightarrow> string" where
  "tag_of (Element t attrs inner) = t"

fun attrs_of :: "xml \<Rightarrow> (string \<times> attr_value) list" where
  "attrs_of (Element t attrs inner) = attrs"

fun inner_of :: "xml \<Rightarrow> xml list" where
  "inner_of (Element t attrs inner) = inner"

definition readElement :: "string \<Rightarrow> xml list \<Rightarrow> (xml \<times> xml list) option" where
  "readElement t input =
     (case dropWhile (\<lambda>e. tag_of e \<noteq> t) input of [] \<Rightarrow> None | e # rest \<Rightarrow> Some (e, rest))"

definition hasAttribute :: "xml \<Rightarrow> string \<Rightarrow> bool" where
  "hasAttribute e a = (map_of (attrs_of e) a \<noteq> None)"

definition getAttribute :: "xml \<Rightarrow> string \<Rightarrow> string option" where
  "getAttribute e a = (case map_of (attrs_of e) a of Some (Text s) \<Rightarrow> Some s | _ \<Rightarrow> None)"

definition getAttributeAsInteger :: "xml \<Rightarrow> string \<Rightarrow> int option" where
  "getAttributeAsInteger e a = (case map_of (attrs_of e) a of Some (Number n) \<Rightarrow> Some n | _ \<Rightarrow> None)"

text \<open>
  The loop of \<open>importSubName\<close>, lines 1607-1619: every segment of the path is renamed by
  the reader; a segment that ends in \<open>@\<close> is a label to restore later.
\<close>

function importSubName_loop :: "reader \<Rightarrow> string \<Rightarrow> string \<Rightarrow> bool \<Rightarrow> string \<times> bool" where
  "importSubName_loop rd sub str restoreLabel =
     (if CHR ''.'' \<in> set sub
      then (let seg = takeWhile (\<lambda>c. c \<noteq> CHR ''.'') sub;
                rest = tl (dropWhile (\<lambda>c. c \<noteq> CHR ''.'') sub)
            in if seg \<noteq> [] \<and> last seg = CHR ''@''
               then importSubName_loop rd rest (str @ getName rd (butlast seg) @ ''@.'') True
               else importSubName_loop rd rest (str @ getName rd seg @ ''.'') restoreLabel)
      else (str @ sub, restoreLabel))"
  by pat_completeness auto
termination
proof (relation "measure (\<lambda>(rd, sub, str, restoreLabel). length sub)", goal_cases)
  case 1
  show ?case by simp
next
  case (2 rd sub str restoreLabel seg rest)
  have "length (dropWhile (\<lambda>c. c \<noteq> CHR ''.'') sub) \<le> length sub"
    by (rule length_dropWhile_le)
  moreover from 2 have "dropWhile (\<lambda>c. c \<noteq> CHR ''.'') sub \<noteq> []" by simp
  ultimately show ?case using 2 by (cases "dropWhile (\<lambda>c. c \<noteq> CHR ''.'') sub") auto
next
  case (3 rd sub str restoreLabel seg rest)
  have "length (dropWhile (\<lambda>c. c \<noteq> CHR ''.'') sub) \<le> length sub"
    by (rule length_dropWhile_le)
  moreover from 3 have "dropWhile (\<lambda>c. c \<noteq> CHR ''.'') sub \<noteq> []" by simp
  ultimately show ?case using 3 by (cases "dropWhile (\<lambda>c. c \<noteq> CHR ''.'') sub") auto
qed

declare importSubName_loop.simps [simp del]

text \<open>\<open>importSubName\<close>, lines 1600-1621; the flag \<open>restoreLabel\<close> is a reference parameter.\<close>

definition importSubName :: "reader \<Rightarrow> string \<Rightarrow> bool \<Rightarrow> string \<times> bool" where
  "importSubName rd sub restoreLabel =
     (if \<not> doNameMapping rd then (sub, restoreLabel)
      else importSubName_loop rd sub [] restoreLabel)"

subsection \<open>PropertyLink\<close>

text \<open>The warning of lines 1903-1904 and 2881-2883, the text that is handed to \<open>FC_WARN\<close>.\<close>

definition lost_link :: "string \<Rightarrow> event" where
  "lost_link name =
     Warning (''Lost link to '' @ name
              @ '' while loading, maybe an object was not loaded correctly'')"

text \<open>The two warnings of \<open>PropertyLink::Restore\<close>, lines 791-793 and 797: the name is
  between single quotes and the text ends with a newline.\<close>

definition lost_link_quoted :: "string \<Rightarrow> event" where
  "lost_link_quoted name =
     Warning (''Lost link to '' @ [CHR 0x27] @ name @ [CHR 0x27]
              @ '' while loading, maybe an object was not loaded correctly'' @ [CHR 0x0A])"

definition links_to_itself :: "string \<Rightarrow> event" where
  "links_to_itself name =
     Warning (''Object '' @ [CHR 0x27] @ name @ [CHR 0x27]
              @ '' links to itself, nullify it'' @ [CHR 0x0A])"

record PropertyLink = PropertyLinkBase +
  pcLink :: "obj option"

text \<open>The backlink calls shared by the setters of a single link (lines 719-730,
  1336-1347): nothing when the owner is about to be destroyed or the scope is hidden.\<close>

definition swap_backlink :: "world \<Rightarrow> LinkScope \<Rightarrow> obj \<Rightarrow> obj option \<Rightarrow> obj option \<Rightarrow> event list" where
  "swap_backlink w sc parent old new =
     (if sc \<noteq> Hidden \<and> \<not> testStatusDestroy w parent
      then (case old of None \<Rightarrow> [] | Some a \<Rightarrow> [RemoveBackLink a parent])
           @ (case new of None \<Rightarrow> [] | Some b \<Rightarrow> [AddBackLink b parent])
      else [])"

text \<open>\<open>PropertyLink::setValue\<close>, lines 708-734.\<close>

definition PropertyLink_setValue ::
  "world \<Rightarrow> obj option \<Rightarrow> PropertyLink \<Rightarrow> globals \<Rightarrow> error + PropertyLink \<times> globals" where
  "PropertyLink_setValue w lValue p g =
     (if \<not> LinkAllowExternal p
         \<and> (case (container p, lValue) of
               (Some parent, Some l) \<Rightarrow> getDocument w parent \<noteq> getDocument w l
             | _ \<Rightarrow> False)
      then Inl ValueError
      else Inr (p\<lparr>pcLink := lValue\<rparr>,
                emit ([AboutToSetValue (self p)]
                      @ (case container p of
                           None \<Rightarrow> []
                         | Some parent \<Rightarrow> swap_backlink w (pcScope p) parent (pcLink p) lValue)
                      @ [Assign (self p), HasSetValue (self p)]) g))"

text \<open>\<open>PropertyLink::Save\<close>, lines 768-772.\<close>

definition PropertyLink_Save :: "world \<Rightarrow> PropertyLink \<Rightarrow> xml" where
  "PropertyLink_Save w p =
     Element ''Link''
       [(''value'', Text (case pcLink p of None \<Rightarrow> [] | Some l \<Rightarrow> getExportName w l))] []"

text \<open>
  \<open>PropertyLink::Restore\<close>, lines 774-808.  The assertion of line 782 fails when the
  container is not a document object.
\<close>

definition PropertyLink_Restore ::
  "world \<Rightarrow> reader \<Rightarrow> xml list \<Rightarrow> PropertyLink \<Rightarrow> globals
   \<Rightarrow> error_r + PropertyLink \<times> globals" where
  "PropertyLink_Restore w rd input p g =
     (case readElement ''Link'' input of
        None \<Rightarrow> Inl XMLError
      | Some (e, rest) \<Rightarrow>
          (case getAttribute e ''value'' of
             None \<Rightarrow> Inl XMLError
           | Some v \<Rightarrow>
               (let name = getName rd v in
                case container p of
                  None \<Rightarrow> Inl (PropertyError Undefined)
                | Some parent \<Rightarrow>
                    (let object = (if name = [] then None
                                   else case getDocument w parent of
                                          None \<Rightarrow> None
                                        | Some d \<Rightarrow> getObject w d name);
                         warn = (if name = [] then []
                                 else if object = None
                                 then (if isVerbose rd
                                       then [lost_link_quoted name] else [])
                                 else if object = Some parent
                                 then (if isVerbose rd
                                       then [links_to_itself name] else [])
                                 else []);
                         object' = (if object = Some parent then None else object)
                     in case PropertyLink_setValue w object' p (emit warn g) of
                          Inl err \<Rightarrow> Inl (PropertyError err)
                        | Inr res \<Rightarrow> Inr res))))"

subsection \<open>PropertyLinkSub\<close>

text \<open>\<open>mapped\<close> is \<open>_mapped\<close>, \<open>LinkRestoreLabel\<close> the flag of that name.\<close>

record PropertyLinkSub = PropertyLinkBase +
  pcLinkSub :: "obj option"
  cSubList :: "string list"
  ShadowSubList :: "ShadowSub list"
  mapped :: "nat list"
  LinkRestoreLabel :: bool

text \<open>The loop of \<open>onContainerRestored\<close>, lines 1573-1575.  Reading a shadow pair beyond
  the end of \<open>_ShadowSubList\<close> is undefined.\<close>

fun registerElementReference_loop ::
  "world \<Rightarrow> pid \<Rightarrow> obj option \<Rightarrow> string list \<Rightarrow> ShadowSub list \<Rightarrow> globals
   \<Rightarrow> error + string list \<times> ShadowSub list \<times> globals" where
  "registerElementReference_loop w this link [] shadows g = Inr ([], shadows, g)"
| "registerElementReference_loop w this link (sub # subs) [] g = Inl Undefined"
| "registerElementReference_loop w this link (sub # subs) (shadow # shadows) g =
     (case PropertyLinkBase_registerElementReference w this link sub shadow g of
        (sub', shadow', g') \<Rightarrow>
          (case registerElementReference_loop w this link subs shadows g' of
             Inl err \<Rightarrow> Inl err
           | Inr (subs', shadows', g'') \<Rightarrow> Inr (sub' # subs', shadow' # shadows', g'')))"

text \<open>\<open>PropertyLinkSub::onContainerRestored\<close>, lines 1567-1576.\<close>

definition PropertyLinkSub_onContainerRestored ::
  "world \<Rightarrow> PropertyLinkSub \<Rightarrow> globals \<Rightarrow> error + PropertyLinkSub \<times> globals" where
  "PropertyLinkSub_onContainerRestored w p g =
     (let g0 = g\<lparr>registry := unregisterElementReference (self p) (registry g)\<rparr> in
      case pcLinkSub p of
        None \<Rightarrow> Inr (p, g0)
      | Some l \<Rightarrow>
          if \<not> isAttachedToDocument w l then Inr (p, g0)
          else (case registerElementReference_loop w (self p) (pcLinkSub p)
                       (cSubList p) (ShadowSubList p) g0 of
                  Inl err \<Rightarrow> Inl err
                | Inr (subs', shadows', g') \<Rightarrow>
                    Inr (p\<lparr>cSubList := subs', ShadowSubList := shadows'\<rparr>, g')))"

text \<open>\<open>PropertyLinkSub::updateElementReference\<close>, lines 1578-1593.\<close>

definition PropertyLinkSub_updateElementReference ::
  "world \<Rightarrow> obj option \<Rightarrow> bool \<Rightarrow> bool \<Rightarrow> PropertyLinkSub \<Rightarrow> globals \<Rightarrow> PropertyLinkSub \<times> globals" where
  "PropertyLinkSub_updateElementReference w feature reverse notify p g =
     (case updateLinkReference w p feature reverse notify (pcLinkSub p) (cSubList p) (mapped p)
             (ShadowSubList p) g of
        (touched, subs', mapped', shadows', g') \<Rightarrow>
          (p\<lparr>cSubList := subs', mapped := mapped', ShadowSubList := shadows'\<rparr>,
           if touched \<and> notify then emit [HasSetValue (self p)] g' else g'))"

text \<open>
  \<open>PropertyLinkSub::setValue\<close>, lines 1320-1360.  \<open>checkLabelReferences\<close> is called with its
  default \<open>reset = true\<close>, \<open>updateElementReference\<close> with its defaults \<open>reverse = false\<close> and
  \<open>notify = false\<close>.
\<close>

definition PropertyLinkSub_setValue ::
  "world \<Rightarrow> obj option \<Rightarrow> string list \<Rightarrow> ShadowSub list \<Rightarrow> PropertyLinkSub \<Rightarrow> globals
   \<Rightarrow> error + PropertyLinkSub \<times> globals" where
  "PropertyLinkSub_setValue w lValue subs shadows p g =
     (if (case lValue of
            None \<Rightarrow> False
          | Some l \<Rightarrow> \<not> isAttachedToDocument w l
                      \<or> (\<not> LinkAllowExternal p
                         \<and> (case container p of
                               None \<Rightarrow> False
                             | Some parent \<Rightarrow> getDocument w parent \<noteq> getDocument w l)))
      then Inl ValueError
      else
        (let g1 = emit ([AboutToSetValue (self p)]
                        @ (case container p of
                             None \<Rightarrow> []
                           | Some parent \<Rightarrow>
                               swap_backlink w (pcScope p) parent (pcLinkSub p) lValue)
                        @ [Assign (self p)]) g;
             p1 = p\<lparr>pcLinkSub := lValue, cSubList := subs\<rparr>
         in case (if length shadows = length subs
                  then PropertyLinkSub_onContainerRestored w (p1\<lparr>ShadowSubList := shadows\<rparr>) g1
                  else Inr (PropertyLinkSub_updateElementReference w None False False p1 g1)) of
              Inl err \<Rightarrow> Inl err
            | Inr (p2, g2) \<Rightarrow>
                Inr (p2, emit [HasSetValue (self p)]
                           (g2\<lparr>registry :=
                                 checkLabelReferences (self p) (cSubList p2) True (registry g2)\<rparr>))))"

text \<open>One \<open>Sub\<close> element of \<open>PropertyLinkSub::Save\<close>, lines 1852-1880.\<close>

definition save_sub :: "world \<Rightarrow> bool \<Rightarrow> obj option \<Rightarrow> string \<Rightarrow> ShadowSub \<Rightarrow> xml" where
  "save_sub w exporting link csub shadow =
     (let sub = (if oldName shadow = [] then csub else oldName shadow) in
      Element ''Sub''
        (if exporting
         then [(''value'', Text (exportSubName w link sub))]
              @ (if oldName shadow \<noteq> [] \<and> newName shadow = csub
                 then [(''mapped'', Text ''1'')] else [])
         else [(''value'', Text sub)]
              @ (if csub \<noteq> []
                 then (if sub \<noteq> csub then [(''shadowed'', Text csub)]
                       else if newName shadow \<noteq> [] then [(''shadow'', Text (newName shadow))]
                       else [])
                 else []))
        [])"

text \<open>\<open>PropertyLinkSub::Save\<close>, lines 1835-1884; the assertion of line 1837 guards the
  reads of \<open>_ShadowSubList\<close>.\<close>

definition PropertyLinkSub_Save :: "world \<Rightarrow> PropertyLinkSub \<Rightarrow> error + xml" where
  "PropertyLinkSub_Save w p =
     (if length (cSubList p) \<noteq> length (ShadowSubList p) then Inl Undefined
      else
        (let internal_name = (case pcLinkSub p of
                                None \<Rightarrow> []
                              | Some l \<Rightarrow> if isAttachedToDocument w l then getExportName w l else []);
             exporting = (case container p of None \<Rightarrow> False | Some ow \<Rightarrow> isExporting w ow)
         in Inr (Element ''LinkSub''
                   [(''value'', Text internal_name), (''count'', Number (int (length (cSubList p))))]
                   (map (\<lambda>(csub, shadow). save_sub w exporting (pcLinkSub p) csub shadow)
                      (zip (cSubList p) (ShadowSubList p))))))"

text \<open>What the body of the loop of \<open>Restore\<close>, lines 1915-1930, reads from one \<open>Sub\<close>
  element: the value, its shadow pair, whether it is marked as mapped, and the flag
  \<open>restoreLabel\<close>.\<close>

definition restore_sub ::
  "reader \<Rightarrow> xml \<Rightarrow> bool \<Rightarrow> (string \<times> ShadowSub \<times> bool \<times> bool) option" where
  "restore_sub rd e restoreLabel =
     (case getAttribute e ''value'' of
        None \<Rightarrow> None
      | Some v \<Rightarrow>
          (case importSubName rd v restoreLabel of
             (old, rl1) \<Rightarrow>
               if hasAttribute e ''shadowed''
               then (case getAttribute e ''shadowed'' of
                       None \<Rightarrow> None
                     | Some s \<Rightarrow>
                         (case importSubName rd s rl1 of
                            (new, rl2) \<Rightarrow>
                              Some (new, \<lparr>newName = new, oldName = old\<rparr>,
                                    hasAttribute e ''mapped'', rl2)))
               else if hasAttribute e ''shadow''
               then (case getAttribute e ''shadow'' of
                       None \<Rightarrow> None
                     | Some s \<Rightarrow>
                         (case importSubName rd s rl1 of
                            (new, rl2) \<Rightarrow>
                              Some (old, \<lparr>newName = new, oldName = old\<rparr>,
                                    hasAttribute e ''mapped'', rl2)))
               else Some (old, \<lparr>newName = [], oldName = old\<rparr>, hasAttribute e ''mapped'', rl1)))"

text \<open>The loop of lines 1914-1931 from index \<open>i\<close>, with \<open>n\<close> elements still to read.\<close>

fun restore_subs ::
  "reader \<Rightarrow> nat \<Rightarrow> nat \<Rightarrow> xml list \<Rightarrow> bool
   \<Rightarrow> (string list \<times> ShadowSub list \<times> nat list \<times> bool) option" where
  "restore_subs rd i 0 input restoreLabel = Some ([], [], [], restoreLabel)"
| "restore_subs rd i (Suc n) input restoreLabel =
     (case readElement ''Sub'' input of
        None \<Rightarrow> None
      | Some (e, rest) \<Rightarrow>
          (case restore_sub rd e restoreLabel of
             None \<Rightarrow> None
           | Some (v, shadow, is_mapped, rl) \<Rightarrow>
               (case restore_subs rd (Suc i) n rest rl of
                  None \<Rightarrow> None
                | Some (vs, shadows, ms, rl') \<Rightarrow>
                    Some (v # vs, shadow # shadows, (if is_mapped then [i] else []) @ ms, rl'))))"

text \<open>\<open>PropertyLinkSub::Restore\<close>, lines 1886-1943.  The vectors of lines 1909-1910 are
  created with \<open>count\<close> entries, which throws when \<open>count\<close> is negative; the warning has been
  written by then.\<close>

definition PropertyLinkSub_Restore ::
  "world \<Rightarrow> reader \<Rightarrow> xml list \<Rightarrow> PropertyLinkSub \<Rightarrow> globals
   \<Rightarrow> error_r + PropertyLinkSub \<times> globals" where
  "PropertyLinkSub_Restore w rd input p g =
     (case readElement ''LinkSub'' input of
        None \<Rightarrow> Inl XMLError
      | Some (e, rest) \<Rightarrow>
          (case (getAttribute e ''value'', getAttributeAsInteger e ''count'') of
             (Some v, Some count) \<Rightarrow>
               (let name = getName rd v in
                case container p of
                  None \<Rightarrow> Inl (PropertyError Undefined)
                | Some parent \<Rightarrow>
                    (let pcObject = (if name = [] then None
                                     else case getDocument w parent of
                                            None \<Rightarrow> None
                                          | Some d \<Rightarrow> getObject w d name);
                         warn = (if name \<noteq> [] \<and> pcObject = None \<and> isVerbose rd
                                 then [lost_link name] else [])
                     in if count < 0 then Inl LengthError
                        else
                        case restore_subs rd 0 (nat count) (inner_of e) False of
                          None \<Rightarrow> Inl XMLError
                        | Some (values, shadows, mapped', restoreLabel) \<Rightarrow>
                            (let p1 = p\<lparr>LinkRestoreLabel := restoreLabel\<rparr>;
                                 g1 = emit warn g
                             in case pcObject of
                                  Some ob \<Rightarrow>
                                    (case PropertyLinkSub_setValue w pcObject values shadows p1 g1 of
                                       Inl err \<Rightarrow> Inl (PropertyError err)
                                     | Inr (p2, g2) \<Rightarrow> Inr (p2\<lparr>mapped := mapped'\<rparr>, g2))
                                | None \<Rightarrow>
                                    (case PropertyLinkSub_setValue w None [] [] p1 g1 of
                                       Inl err \<Rightarrow> Inl (PropertyError err)
                                     | Inr res \<Rightarrow> Inr res))))
           | _ \<Rightarrow> Inl XMLError))"

text \<open>Two readers that rename nothing, one verbose and one not, and a property of object 6
  that links to object 5.\<close>

definition loud_reader :: reader where
  "loud_reader = \<lparr>isVerbose = True, doNameMapping = False, getName = (\<lambda>n. n)\<rparr>"

definition quiet_reader :: reader where
  "quiet_reader = \<lparr>isVerbose = False, doNameMapping = False, getName = (\<lambda>n. n)\<rparr>"

definition link_to_box :: PropertyLink where
  "link_to_box =
     \<lparr>self = 7, pcScope = Local, container = Some 6, LinkAllowExternal = False,
      pcLink = Some 5\<rparr>"

definition face_of_box :: PropertyLinkSub where
  "face_of_box =
     \<lparr>self = 8, pcScope = Local, container = Some 6, LinkAllowExternal = False,
      pcLinkSub = Some 5, cSubList = [''Face1''],
      ShadowSubList = [\<lparr>newName = '';g.Face1'', oldName = ''Face1''\<rparr>],
      mapped = [], LinkRestoreLabel = False\<rparr>"

text \<open>
  A subname with its shadow pair keeps its encoding through a restore when nothing new is
  resolved for it: its saved value is empty, or it is saved with a \<open>shadowed\<close> or a
  \<open>shadow\<close> attribute, or the resolver has no new-style name for the saved value and
  gives back the saved value (or nothing) as its old-style name.
\<close>

definition keeps_encoding :: "world \<Rightarrow> obj \<Rightarrow> string \<Rightarrow> ShadowSub \<Rightarrow> bool" where
  "keeps_encoding w l csub shadow =
     (let v = (if oldName shadow = [] then csub else oldName shadow);
          r = resolveElement w l v None
      in v = []
         \<or> (csub \<noteq> [] \<and> (v \<noteq> csub \<or> newName shadow \<noteq> []))
         \<or> ((ret r = None \<or> geo r = None \<or> element r = None \<or> element r = Some []
              \<or> newName (elementName r) = [])
             \<and> (oldName (elementName r) = [] \<or> oldName (elementName r) = v)))"

text \<open>The scene of the element references while the document of object 6 is being
  restored, and a property of object 6 that was given the face of object 5 then: its
  shadow pair is empty.\<close>

definition restoring_world :: world where
  "restoring_world = face_world\<lparr>isRestoring := (\<lambda>ob. ob = 6)\<rparr>"

definition unset_sub :: PropertyLinkSub where
  "unset_sub =
     \<lparr>self = 8, pcScope = Local, container = Some 6, LinkAllowExternal = False,
      pcLinkSub = None, cSubList = [], ShadowSubList = [], mapped = [],
      LinkRestoreLabel = False\<rparr>"

definition legacy_face :: PropertyLinkSub where
  "legacy_face = unset_sub\<lparr>pcLinkSub := Some 5, cSubList := [''Face1''], ShadowSubList := [no_shadow]\<rparr>"

text \<open>Encode a property, decode the result into the property \<open>into\<close>, and encode again.\<close>

definition reencode ::
  "world \<Rightarrow> reader \<Rightarrow> PropertyLinkSub \<Rightarrow> PropertyLinkSub \<Rightarrow> globals \<Rightarrow> error_r + xml" where
  "reencode w rd p into g =
     (case PropertyLinkSub_Save w p of
        Inl err \<Rightarrow> Inl (PropertyError err)
      | Inr x \<Rightarrow>
          (case PropertyLinkSub_Restore w rd [x] into g of
             Inl err \<Rightarrow> Inl err
           | Inr (p', g') \<Rightarrow>
               (case PropertyLinkSub_Save w p' of
                  Inl err \<Rightarrow> Inl (PropertyError err)
                | Inr x' \<Rightarrow> Inr x')))"

text \<open>What \<open>Restore\<close> reads back from the \<open>Sub\<close> element that \<open>Save\<close> writes, outside an
  export, for a subname and its shadow pair.\<close>

definition decoded :: "string \<Rightarrow> ShadowSub \<Rightarrow> string \<times> ShadowSub" where
  "decoded csub shadow =
     (let v = (if oldName shadow = [] then csub else oldName shadow) in
      if csub \<noteq> [] \<and> v \<noteq> csub then (csub, \<lparr>newName = csub, oldName = v\<rparr>)
      else if csub \<noteq> [] \<and> newName shadow \<noteq> [] then (v, \<lparr>newName = newName shadow, oldName = v\<rparr>)
      else (v, \<lparr>newName = [], oldName = v\<rparr>))"

text \<open>A property of object 6 with two subnames of object 5: the face, with its shadow pair,
  and an edge that the scene does not resolve.\<close>

definition face_and_edge :: PropertyLinkSub where
  "face_and_edge =
     face_of_box\<lparr>cSubList := [''Face1'', ''Edge2''],
                 ShadowSubList := [\<lparr>newName = '';g.Face1'', oldName = ''Face1''\<rparr>, no_shadow]\<rparr>"

subsection \<open>PropertyLinkList and PropertyLinkSubList\<close>

text \<open>
  The backlink calls shared by the setters of the list properties (lines 991-1006,
  2269-2289, 2329-2349): one \<open>_removeBackLink\<close> for every non-null entry of the old list,
  then one \<open>_addBackLink\<close> for every non-null entry of the new list, in the order of the
  lists; nothing when there is no owner, when the owner is about to be destroyed, or when
  the scope is hidden.
\<close>

definition replace_backlinks ::
  "world \<Rightarrow> LinkScope \<Rightarrow> obj option \<Rightarrow> obj option list \<Rightarrow> obj option list \<Rightarrow> event list" where
  "replace_backlinks w sc parent old new =
     (case parent of
        None \<Rightarrow> []
      | Some pa \<Rightarrow>
          if \<not> testStatusDestroy w pa \<and> sc \<noteq> Hidden
          then map (\<lambda>a. RemoveBackLink a pa) (List.map_filter (\<lambda>ob. ob) old)
               @ map (\<lambda>b. AddBackLink b pa) (List.map_filter (\<lambda>ob. ob) new)
          else [])"

text \<open>The members of \<open>PropertyLinkList\<close>: \<open>list_lValueList\<close> is \<open>_lValueList\<close>, \<open>nameMap\<close> is
  \<open>_nameMap\<close>.\<close>

record PropertyLinkList = PropertyLinkBase +
  list_lValueList :: "obj option list"
  nameMap :: "string \<rightharpoonup> nat"

text \<open>
  \<open>PropertyLinkList::setValues\<close>, lines 971-1009.  A list of one null entry is replaced by
  the empty list (the call of line 975).  The inherited \<open>setValues\<close> of the list template
  is in another file: it is one event, and it is taken to store the values.
\<close>

definition PropertyLinkList_setValues ::
  "world \<Rightarrow> obj option list \<Rightarrow> PropertyLinkList \<Rightarrow> globals \<Rightarrow> error + PropertyLinkList \<times> globals" where
  "PropertyLinkList_setValues w value0 p g =
     (let value = (if value0 = [None] then [] else value0) in
      if list_ex (\<lambda>ob. case ob of
                          None \<Rightarrow> True
                        | Some a \<Rightarrow>
                            \<not> isAttachedToDocument w a
                            \<or> (\<not> LinkAllowExternal p
                               \<and> (case container p of
                                     None \<Rightarrow> False
                                   | Some parent \<Rightarrow> getDocument w parent \<noteq> getDocument w a)))
           value
      then Inl ValueError
      else Inr (p\<lparr>list_lValueList := value, nameMap := Map.empty\<rparr>,
                emit (replace_backlinks w (pcScope p) (container p) (list_lValueList p) value
                      @ [InheritedSetValues (self p) value]) g))"

text \<open>The members of \<open>PropertyLinkSubList\<close>: \<open>_lValueList\<close>, \<open>_lSubList\<close>, \<open>_ShadowSubList\<close>
  and \<open>_mapped\<close>.\<close>

record PropertyLinkSubList = PropertyLinkBase +
  sublist_lValueList :: "obj option list"
  sublist_lSubList :: "string list"
  sublist_ShadowSubList :: "ShadowSub list"
  sublist_mapped :: "nat list"

text \<open>\<open>PropertyLinkSubList::verifyObject\<close>, lines 2193-2203, and the loop of the setters that
  calls it for every object.\<close>

definition verifyObject ::
  "world \<Rightarrow> 'a PropertyLinkBase_scheme \<Rightarrow> obj option \<Rightarrow> obj option \<Rightarrow> error option" where
  "verifyObject w p ob parent =
     (case ob of
        None \<Rightarrow> None
      | Some a \<Rightarrow>
          if \<not> isAttachedToDocument w a then Some ValueError
          else if \<not> LinkAllowExternal p
                  \<and> (case parent of None \<Rightarrow> False | Some pa \<Rightarrow> getDocument w pa \<noteq> getDocument w a)
          then Some ValueError
          else None)"

fun verifyObjects ::
  "world \<Rightarrow> 'a PropertyLinkBase_scheme \<Rightarrow> obj option list \<Rightarrow> obj option \<Rightarrow> error option" where
  "verifyObjects w p [] parent = None"
| "verifyObjects w p (ob # obs) parent =
     (case verifyObject w p ob parent of
        Some err \<Rightarrow> Some err
      | None \<Rightarrow> verifyObjects w p obs parent)"

text \<open>The loop of \<open>PropertyLinkSubList::onContainerRestored\<close>, lines 2720-2722, over
  \<open>_lSubList\<close>.  Reading \<open>_lValueList\<close> or \<open>_ShadowSubList\<close> beyond its end is undefined.\<close>

fun sublist_register_loop ::
  "world \<Rightarrow> pid \<Rightarrow> obj option list \<Rightarrow> string list \<Rightarrow> ShadowSub list \<Rightarrow> globals
   \<Rightarrow> error + string list \<times> ShadowSub list \<times> globals" where
  "sublist_register_loop w this links [] shadows g = Inr ([], shadows, g)"
| "sublist_register_loop w this [] (sub # subs) shadows g = Inl Undefined"
| "sublist_register_loop w this (link # links) (sub # subs) [] g = Inl Undefined"
| "sublist_register_loop w this (link # links) (sub # subs) (shadow # shadows) g =
     (case PropertyLinkBase_registerElementReference w this link sub shadow g of
        (sub', shadow', g') \<Rightarrow>
          (case sublist_register_loop w this links subs shadows g' of
             Inl err \<Rightarrow> Inl err
           | Inr (subs', shadows', g'') \<Rightarrow> Inr (sub' # subs', shadow' # shadows', g'')))"

text \<open>\<open>PropertyLinkSubList::onContainerRestored\<close>, lines 2717-2723.\<close>

definition PropertyLinkSubList_onContainerRestored ::
  "world \<Rightarrow> PropertyLinkSubList \<Rightarrow> globals \<Rightarrow> error + PropertyLinkSubList \<times> globals" where
  "PropertyLinkSubList_onContainerRestored w p g =
     (case sublist_register_loop w (self p) (sublist_lValueList p) (sublist_lSubList p)
             (sublist_ShadowSubList p)
             (g\<lparr>registry := unregisterElementReference (self p) (registry g)\<rparr>) of
        Inl err \<Rightarrow> Inl err
      | Inr (subs', shadows', g') \<Rightarrow>
          Inr (p\<lparr>sublist_lSubList := subs', sublist_ShadowSubList := shadows'\<rparr>, g'))"

text \<open>The loop of \<open>PropertyLinkSubList::updateElementReference\<close>, lines 2738-2748, over
  \<open>_lSubList\<close>; \<open>_ShadowSubList\<close> has been resized to its length.  Reading \<open>_lValueList\<close>
  beyond its end is undefined.\<close>

fun sublist_update_loop ::
  "world \<Rightarrow> pid \<Rightarrow> obj option \<Rightarrow> bool \<Rightarrow> bool \<Rightarrow> bool
   \<Rightarrow> obj option list \<Rightarrow> string list \<Rightarrow> ShadowSub list \<Rightarrow> globals
   \<Rightarrow> error + bool \<times> string list \<times> ShadowSub list \<times> globals" where
  "sublist_update_loop w this feature reverse notify touched links [] shadows g =
     Inr (touched, [], shadows, g)"
| "sublist_update_loop w this feature reverse notify touched [] (sub # subs) shadows g =
     Inl Undefined"
| "sublist_update_loop w this feature reverse notify touched (link # links) (sub # subs) [] g =
     Inl Undefined"
| "sublist_update_loop w this feature reverse notify touched (link # links) (sub # subs)
     (shadow # shadows) g =
     (case PropertyLinkBase_updateElementReference w this feature link sub shadow reverse
             (notify \<and> \<not> touched) g of
        (changed, sub', shadow', g') \<Rightarrow>
          (case sublist_update_loop w this feature reverse notify (touched \<or> changed)
                  links subs shadows g' of
             Inl err \<Rightarrow> Inl err
           | Inr (t, subs', shadows', g'') \<Rightarrow> Inr (t, sub' # subs', shadow' # shadows', g'')))"

text \<open>
  \<open>PropertyLinkSubList::updateElementReference\<close>, lines 2725-2772.  The indices of \<open>_mapped\<close>
  are those that \<open>Restore\<close> counted, so they are not negative.
\<close>

definition PropertyLinkSubList_updateElementReference ::
  "world \<Rightarrow> obj option \<Rightarrow> bool \<Rightarrow> bool \<Rightarrow> PropertyLinkSubList \<Rightarrow> globals
   \<Rightarrow> error + PropertyLinkSubList \<times> globals" where
  "PropertyLinkSubList_updateElementReference w feature reverse notify p g =
     (let g0 = (if feature = None
                then g\<lparr>registry := unregisterElementReference (self p) (registry g)\<rparr> else g);
          shadows0 = resize_shadows (length (sublist_lSubList p))
                       (if feature = None then [] else sublist_ShadowSubList p);
          p0 = p\<lparr>sublist_ShadowSubList := shadows0\<rparr>
      in if (case container p of None \<Rightarrow> False | Some ow \<Rightarrow> isRestoring w ow) then Inr (p0, g0)
         else
           (case sublist_update_loop w (self p) feature reverse notify False
                   (sublist_lValueList p) (sublist_lSubList p) shadows0 g0 of
              Inl err \<Rightarrow> Inl err
            | Inr (touched, subs1, shadows1, g1) \<Rightarrow>
                if \<not> touched
                then Inr (p0\<lparr>sublist_lSubList := subs1, sublist_ShadowSubList := shadows1\<rparr>, g1)
                else Inr (p0\<lparr>sublist_lSubList := apply_mapped (sublist_mapped p) shadows1 subs1,
                              sublist_ShadowSubList := shadows1,
                              sublist_mapped :=
                                filter (\<lambda>idx. idx < length subs1 \<and> newName (shadows1 ! idx) = [])
                                  (sublist_mapped p)\<rparr>,
                          emit ((case (container p, feature) of
                                   (Some ow, Some f) \<Rightarrow> [OnUpdateElementReference ow (self p)]
                                 | _ \<Rightarrow> [])
                                @ (if notify then [HasSetValue (self p)] else [])) g1)))"

text \<open>
  \<open>PropertyLinkSubList::setValues\<close> with the lists moved in, lines 2315-2363;
  \<open>updateElementReference\<close> is called with its defaults \<open>reverse = false\<close> and
  \<open>notify = false\<close>, \<open>checkLabelReferences\<close> with \<open>reset = true\<close>.
\<close>

definition PropertyLinkSubList_setValues ::
  "world \<Rightarrow> obj option list \<Rightarrow> string list \<Rightarrow> ShadowSub list \<Rightarrow> PropertyLinkSubList \<Rightarrow> globals
   \<Rightarrow> error + PropertyLinkSubList \<times> globals" where
  "PropertyLinkSubList_setValues w lValue lSubNames shadows p g =
     (case verifyObjects w p lValue (container p) of
        Some err \<Rightarrow> Inl err
      | None \<Rightarrow>
          if length lValue \<noteq> length lSubNames then Inl ValueError
          else
            (let g1 = emit (replace_backlinks w (pcScope p) (container p) (sublist_lValueList p)
                              lValue
                            @ [AboutToSetValue (self p), Assign (self p)]) g;
                 p1 = p\<lparr>sublist_lValueList := lValue, sublist_lSubList := lSubNames\<rparr>
             in case (if length shadows = length lSubNames
                      then PropertyLinkSubList_onContainerRestored w
                             (p1\<lparr>sublist_ShadowSubList := shadows\<rparr>) g1
                      else PropertyLinkSubList_updateElementReference w None False False p1 g1) of
                  Inl err \<Rightarrow> Inl err
                | Inr (p2, g2) \<Rightarrow>
                    Inr (p2, emit [HasSetValue (self p)]
                               (g2\<lparr>registry :=
                                     checkLabelReferences (self p) (sublist_lSubList p2) True
                                       (registry g2)\<rparr>))))"

text \<open>
  \<open>PropertyLinkSubList::setValues\<close> with subnames given as C strings, lines 2255-2304.  A
  null subname leaves the entry of the resized \<open>_lSubList\<close> as it is.
\<close>

definition PropertyLinkSubList_setValues_cstr ::
  "world \<Rightarrow> obj option list \<Rightarrow> string option list \<Rightarrow> PropertyLinkSubList \<Rightarrow> globals
   \<Rightarrow> error + PropertyLinkSubList \<times> globals" where
  "PropertyLinkSubList_setValues_cstr w lValue lSubNames p g =
     (case verifyObjects w p lValue (container p) of
        Some err \<Rightarrow> Inl err
      | None \<Rightarrow>
          if length lValue \<noteq> length lSubNames then Inl ValueError
          else
            (let g1 = emit (replace_backlinks w (pcScope p) (container p) (sublist_lValueList p)
                              lValue
                            @ [AboutToSetValue (self p), Assign (self p)]) g;
                 resized = take (length lSubNames) (sublist_lSubList p)
                           @ replicate (length lSubNames - length (sublist_lSubList p)) [];
                 p1 = p\<lparr>sublist_lValueList := lValue,
                        sublist_lSubList :=
                          map (\<lambda>(name, kept). case name of None \<Rightarrow> kept | Some s \<Rightarrow> s)
                            (zip lSubNames resized)\<rparr>
             in case PropertyLinkSubList_updateElementReference w None False False p1 g1 of
                  Inl err \<Rightarrow> Inl err
                | Inr (p2, g2) \<Rightarrow>
                    Inr (p2, emit [HasSetValue (self p)]
                               (g2\<lparr>registry :=
                                     checkLabelReferences (self p) (sublist_lSubList p2) True
                                       (registry g2)\<rparr>))))"

text \<open>
  The end of the setters \<open>setValue\<close> and \<open>addValue\<close> of \<open>PropertyLinkSubList\<close>, lines
  2250-2252, 2405-2407 and 2471-2473: \<open>updateElementReference(nullptr)\<close>,
  \<open>checkLabelReferences(_lSubList)\<close> and \<open>hasSetValue()\<close>.
\<close>

definition sublist_finish ::
  "world \<Rightarrow> pid \<Rightarrow> PropertyLinkSubList \<Rightarrow> globals \<Rightarrow> error + PropertyLinkSubList \<times> globals" where
  "sublist_finish w this p1 g1 =
     (case PropertyLinkSubList_updateElementReference w None False False p1 g1 of
        Inl err \<Rightarrow> Inl err
      | Inr (p2, g2) \<Rightarrow>
          Inr (p2, emit [HasSetValue this]
                     (g2\<lparr>registry :=
                           checkLabelReferences this (sublist_lSubList p2) True (registry g2)\<rparr>)))"

text \<open>
  \<open>PropertyLinkSubList::setValue\<close> with the subname given as a C string, lines 2217-2253.
  The backlink of the new target is added once.  Assigning a null \<open>SubName\<close> to the entry
  of \<open>_lSubList\<close> (line 2243) is undefined.
\<close>

definition PropertyLinkSubList_setValue_cstr ::
  "world \<Rightarrow> obj option \<Rightarrow> string option \<Rightarrow> PropertyLinkSubList \<Rightarrow> globals
   \<Rightarrow> error + PropertyLinkSubList \<times> globals" where
  "PropertyLinkSubList_setValue_cstr w lValue SubName p g =
     (case verifyObject w p lValue (container p) of
        Some err \<Rightarrow> Inl err
      | None \<Rightarrow>
          (let g1 = emit (replace_backlinks w (pcScope p) (container p) (sublist_lValueList p)
                            [lValue]
                          @ [AboutToSetValue (self p), Assign (self p)]) g
           in case (lValue, SubName) of
                (Some l, Some name) \<Rightarrow>
                  sublist_finish w (self p)
                    (p\<lparr>sublist_lValueList := [Some l], sublist_lSubList := [name]\<rparr>) g1
              | (Some l, None) \<Rightarrow> Inl Undefined
              | (None, _) \<Rightarrow>
                  sublist_finish w (self p)
                    (p\<lparr>sublist_lValueList := [], sublist_lSubList := []\<rparr>) g1))"

text \<open>
  \<open>PropertyLinkSubList::setValue\<close> with a list of subnames, lines 2365-2408.  The backlink
  of the new target is added once; the target is stored once for every subname.
\<close>

definition PropertyLinkSubList_setValue ::
  "world \<Rightarrow> obj option \<Rightarrow> string list \<Rightarrow> PropertyLinkSubList \<Rightarrow> globals
   \<Rightarrow> error + PropertyLinkSubList \<times> globals" where
  "PropertyLinkSubList_setValue w lValue SubList p g =
     (case verifyObject w p lValue (container p) of
        Some err \<Rightarrow> Inl err
      | None \<Rightarrow>
          (let g1 = emit (replace_backlinks w (pcScope p) (container p) (sublist_lValueList p)
                            [lValue]
                          @ [AboutToSetValue (self p), Assign (self p)]) g;
               p1 = (if SubList = []
                     then (case lValue of
                             None \<Rightarrow> p\<lparr>sublist_lValueList := [], sublist_lSubList := []\<rparr>
                           | Some l \<Rightarrow> p\<lparr>sublist_lValueList := [Some l], sublist_lSubList := [[]]\<rparr>)
                     else p\<lparr>sublist_lValueList := replicate (length SubList) lValue,
                            sublist_lSubList := SubList\<rparr>)
           in sublist_finish w (self p) p1 g1))"

text \<open>
  The loop of \<open>addValue\<close>, lines 2444-2449: the entries whose target is not \<open>ob\<close> are kept,
  each with the subname at its index.  Reading \<open>_lSubList\<close> beyond its end is undefined.
\<close>

fun addValue_keep ::
  "obj option \<Rightarrow> obj option list \<Rightarrow> string list \<Rightarrow> error + obj option list \<times> string list" where
  "addValue_keep ob [] subs = Inr ([], [])"
| "addValue_keep ob (v # vs) subs =
     (if v \<noteq> ob
      then (case subs of
              [] \<Rightarrow> Inl Undefined
            | sub # rest \<Rightarrow>
                (case addValue_keep ob vs rest of
                   Inl err \<Rightarrow> Inl err
                 | Inr (vs', subs') \<Rightarrow> Inr (v # vs', sub # subs')))
      else addValue_keep ob vs (tl subs))"

text \<open>
  \<open>PropertyLinkSubList::addValue\<close>, lines 2410-2474.  With \<open>reset\<close> the backlink is removed
  once for every entry of the old list that holds \<open>ob\<close>; the backlink of \<open>ob\<close> is added
  once.
\<close>

definition PropertyLinkSubList_addValue ::
  "world \<Rightarrow> obj option \<Rightarrow> string list \<Rightarrow> bool \<Rightarrow> PropertyLinkSubList \<Rightarrow> globals
   \<Rightarrow> error + PropertyLinkSubList \<times> globals" where
  "PropertyLinkSubList_addValue w ob subs reset p g =
     (case verifyObject w p ob (container p) of
        Some err \<Rightarrow> Inl err
      | None \<Rightarrow>
          (let backlinks =
                 (case container p of
                    None \<Rightarrow> []
                  | Some pa \<Rightarrow>
                      if \<not> testStatusDestroy w pa \<and> pcScope p \<noteq> Hidden
                      then (if reset
                            then map (\<lambda>a. RemoveBackLink a pa)
                                   (List.map_filter (\<lambda>v. v)
                                      (filter (\<lambda>v. v = ob) (sublist_lValueList p)))
                            else [])
                           @ (case ob of None \<Rightarrow> [] | Some b \<Rightarrow> [AddBackLink b pa])
                      else [])
           in case (if reset then addValue_keep ob (sublist_lValueList p) (sublist_lSubList p)
                    else Inr (sublist_lValueList p, sublist_lSubList p)) of
                Inl err \<Rightarrow> Inl err
              | Inr (valueList, subList) \<Rightarrow>
                  (let p1 = (case ob of
                               None \<Rightarrow> p\<lparr>sublist_lValueList := valueList,
                                         sublist_lSubList := subList\<rparr>
                             | Some b \<Rightarrow>
                                 if subs = []
                                 then p\<lparr>sublist_lValueList := valueList @ [ob],
                                        sublist_lSubList := subList @ [[]]\<rparr>
                                 else p\<lparr>sublist_lValueList :=
                                          valueList @ replicate (length subs) ob,
                                        sublist_lSubList := subList @ subs\<rparr>)
                   in sublist_finish w (self p) p1
                        (emit (backlinks @ [AboutToSetValue (self p), Assign (self p)]) g))))"

text \<open>The events by kind, the order that the hook comes before every backlink call, and
  how often an event is in a trace.\<close>

fun is_backlink :: "event \<Rightarrow> bool" where
  "is_backlink (RemoveBackLink a b) = True"
| "is_backlink (AddBackLink a b) = True"
| "is_backlink e = False"

fun is_warning :: "event \<Rightarrow> bool" where
  "is_warning (Warning s) = True"
| "is_warning e = False"

definition hook_before_backlinks :: "pid \<Rightarrow> event list \<Rightarrow> bool" where
  "hook_before_backlinks this es =
     list_all (\<lambda>e. \<not> is_backlink e) (takeWhile (\<lambda>e. e \<noteq> AboutToSetValue this) es)"

text \<open>A list property of object 6 that links to object 5, and an empty one.\<close>

definition sublist_of_box :: PropertyLinkSubList where
  "sublist_of_box =
     \<lparr>self = 9, pcScope = Local, container = Some 6, LinkAllowExternal = False,
      sublist_lValueList = [Some 5], sublist_lSubList = [''Edge2''],
      sublist_ShadowSubList = [no_shadow], sublist_mapped = []\<rparr>"

definition empty_list :: PropertyLinkList where
  "empty_list =
     \<lparr>self = 10, pcScope = Local, container = Some 6, LinkAllowExternal = False,
      list_lValueList = [], nameMap = Map.empty\<rparr>"

subsection \<open>PropertyXLink and DocInfo\<close>


text \<open>
  The members of \<open>DocInfo\<close>: \<open>links\<close> is the set of the links in the order in which it is
  iterated, \<open>inDocInfoMap\<close> says that \<open>myPos\<close> is an entry of \<open>_DocInfoMap\<close>, \<open>connected\<close> that
  the five signal connections are made.
\<close>

record DocInfo =
  pcDoc :: "doc option"
  links :: "pid list"
  myPath :: string
  inDocInfoMap :: bool
  connected :: bool























section \<open>Properties\<close>

subsection \<open>isSame\<close>

lemma isSame_other_link:
  "isDerivedFromLinkBase other \<Longrightarrow> isSame this other = Some (addr other = addr this)"
  by (simp add: isSame_def)

text \<open>
  C1.  The claim: \<open>isSame\<close> answers true exactly when the two reference properties have the
  same scope and collect, with \<open>all = true\<close>, the same targets and the same subnames; in
  particular two link properties of the same class with the same content compare equal.
  The code does not: two distinct \<open>PropertyLink\<close>s with the same scope and the same
  attached target collect the same links, and \<open>isSame\<close> answers false, because the test of
  line 103 lacks its negation and rejects every \<open>other\<close> that is a link property.
\<close>

theorem isSame_equal_links_false:
  "scope_of \<lparr>addr = 1, scope_of = Local, pvalue = IsPropertyLink (Some 5)\<rparr>
     = scope_of \<lparr>addr = 2, scope_of = Local, pvalue = IsPropertyLink (Some 5)\<rparr>
   \<and> getLinks (\<lambda>_. True) \<lparr>addr = 1, scope_of = Local, pvalue = IsPropertyLink (Some 5)\<rparr> True
     = getLinks (\<lambda>_. True) \<lparr>addr = 2, scope_of = Local, pvalue = IsPropertyLink (Some 5)\<rparr> True
   \<and> getLinks (\<lambda>_. True) \<lparr>addr = 1, scope_of = Local, pvalue = IsPropertyLink (Some 5)\<rparr> True = [5]
   \<and> isSame \<lparr>addr = 1, scope_of = Local, pvalue = IsPropertyLink (Some 5)\<rparr>
         \<lparr>addr = 2, scope_of = Local, pvalue = IsPropertyLink (Some 5)\<rparr> = Some False"
  by (simp add: isSame_def isDerivedFromLinkBase_def)

subsection \<open>The registries hold no dead property and no empty set\<close>

lemma fold_erase_from:
  "fold (erase_from p) ks m k = (if k \<in> set ks then erase_from p k m k else m k)"
proof (induction ks arbitrary: m)
  case Nil
  show ?case by simp
next
  case (Cons a ks)
  show ?case
    by (simp add: Cons.IH) (auto simp: erase_from_def split: option.splits)
qed

lemma well_kept_init: "well_kept no_registrations"
  by (simp add: well_kept_def tracked_def no_empty_entry_def no_registrations_def)

lemma well_kept_unregisterLabelReferences:
  assumes "well_kept r"
  shows "well_kept (unregisterLabelReferences this r)"
  using assms
  unfolding well_kept_def tracked_def no_empty_entry_def unregisterLabelReferences_def
  by (auto simp: fold_erase_from erase_from_def split: option.splits if_splits)

lemma well_kept_unregisterElementReference:
  assumes "well_kept r"
  shows "well_kept (unregisterElementReference this r)"
  using assms
  unfolding well_kept_def tracked_def no_empty_entry_def unregisterElementReference_def
  by (auto simp: fold_erase_from erase_from_def split: option.splits if_splits)

lemma well_kept_register_label:
  assumes "well_kept r"
  shows "well_kept (register_label this label r)"
  using assms
  unfolding well_kept_def tracked_def no_empty_entry_def register_label_def insert_into_def
  by (auto split: option.splits if_splits)

lemma well_kept_register_element:
  assumes "well_kept r"
  shows "well_kept (register_element this ge r)"
  using assms
  unfolding well_kept_def tracked_def no_empty_entry_def register_element_def insert_into_def
  by (auto split: option.splits if_splits)

lemma well_kept_fold_register_label:
  "well_kept r \<Longrightarrow> well_kept (fold (register_label this) labels r)"
  by (induction labels arbitrary: r) (simp_all add: well_kept_register_label)

lemma well_kept_registerLabelReferences:
  "well_kept r \<Longrightarrow> well_kept (registerLabelReferences this labels reset r)"
  by (simp add: registerLabelReferences_def well_kept_fold_register_label
      well_kept_unregisterLabelReferences)

lemma well_kept_fold_registerLabelReferences:
  "well_kept r \<Longrightarrow>
   well_kept (fold (\<lambda>sub. registerLabelReferences this (f sub) False) subs r)"
  by (induction subs arbitrary: r) (simp_all add: well_kept_registerLabelReferences)

lemma well_kept_checkLabelReferences:
  "well_kept r \<Longrightarrow> well_kept (checkLabelReferences this subs reset r)"
  by (simp add: checkLabelReferences_def well_kept_fold_registerLabelReferences
      well_kept_unregisterLabelReferences)

lemma well_kept_destroy:
  "well_kept r \<Longrightarrow> well_kept (destroy_PropertyLinkBase this r)"
  by (simp add: destroy_PropertyLinkBase_def well_kept_unregisterElementReference
      well_kept_unregisterLabelReferences)

lemma reachable_well_kept: "reachable r \<Longrightarrow> well_kept r"
  by (induction rule: reachable.induct)
     (simp_all add: well_kept_init well_kept_registerLabelReferences
       well_kept_checkLabelReferences well_kept_register_element
       well_kept_unregisterLabelReferences well_kept_unregisterElementReference
       well_kept_destroy)

lemma unregisterLabelReferences_not_registered:
  assumes "tracked r"
  shows "not_registered this (LabelMap (unregisterLabelReferences this r))"
  using assms
  unfolding tracked_def not_registered_def unregisterLabelReferences_def
  by (auto simp: fold_erase_from erase_from_def split: option.splits if_splits)

lemma unregisterElementReference_not_registered:
  assumes "tracked r"
  shows "not_registered this (ElementRefMap (unregisterElementReference this r))"
  using assms
  unfolding tracked_def not_registered_def unregisterElementReference_def
  by (auto simp: fold_erase_from erase_from_def split: option.splits if_splits)

lemma LabelMap_unregisterElementReference:
  "LabelMap (unregisterElementReference this r) = LabelMap r"
  by (simp add: unregisterElementReference_def)

text \<open>
  C10.  In every state of the two registries that registering, unregistering and
  destroying can produce: after the destructor of a property has run, the property is
  in no set of either registry, and after the destructor or after either unregister
  operation (of any property) no key of either registry is left with an empty set.
\<close>

theorem registry_cleanup:
  assumes "reachable r"
  shows "not_registered this (LabelMap (destroy_PropertyLinkBase this r))
       \<and> not_registered this (ElementRefMap (destroy_PropertyLinkBase this r))
       \<and> no_empty_entry (LabelMap (destroy_PropertyLinkBase this r))
       \<and> no_empty_entry (ElementRefMap (destroy_PropertyLinkBase this r))
       \<and> no_empty_entry (LabelMap (unregisterLabelReferences that r))
       \<and> no_empty_entry (ElementRefMap (unregisterLabelReferences that r))
       \<and> no_empty_entry (LabelMap (unregisterElementReference that r))
       \<and> no_empty_entry (ElementRefMap (unregisterElementReference that r))"
proof -
  have wk: "well_kept r" using assms by (rule reachable_well_kept)
  have wl: "well_kept (unregisterLabelReferences this r)"
    using wk by (rule well_kept_unregisterLabelReferences)
  have wd: "well_kept (destroy_PropertyLinkBase this r)"
    using wk by (rule well_kept_destroy)
  have l: "not_registered this (LabelMap (destroy_PropertyLinkBase this r))"
    using wk unregisterLabelReferences_not_registered [of r this]
    by (simp add: destroy_PropertyLinkBase_def well_kept_def
        LabelMap_unregisterElementReference)
  have e: "not_registered this (ElementRefMap (destroy_PropertyLinkBase this r))"
    using wl unregisterElementReference_not_registered [of "unregisterLabelReferences this r" this]
    by (simp add: destroy_PropertyLinkBase_def well_kept_def)
  from l e wd well_kept_unregisterLabelReferences [OF wk, of that]
    well_kept_unregisterElementReference [OF wk, of that]
  show ?thesis by (simp add: well_kept_def)
qed

lemma two_properties_Box: "LabelMap two_properties ''Box'' = Some {7, 8}"
  by (simp add: two_properties_def checkLabelReferences_def registerLabelReferences_def
      register_label_def insert_into_def unregisterLabelReferences_def no_registrations_def
      register_element_def)

theorem registry_cleanup_witness:
  "reachable two_properties
   \<and> LabelMap two_properties ''Box'' = Some {7, 8}
   \<and> not_registered 7 (LabelMap (destroy_PropertyLinkBase 7 two_properties))
   \<and> not_registered 7 (ElementRefMap (destroy_PropertyLinkBase 7 two_properties))
   \<and> no_empty_entry (LabelMap (destroy_PropertyLinkBase 7 two_properties))
   \<and> no_empty_entry (ElementRefMap (destroy_PropertyLinkBase 7 two_properties))
   \<and> no_empty_entry (LabelMap (unregisterLabelReferences 8 two_properties))
   \<and> no_empty_entry (ElementRefMap (unregisterLabelReferences 8 two_properties))
   \<and> no_empty_entry (LabelMap (unregisterElementReference 8 two_properties))
   \<and> no_empty_entry (ElementRefMap (unregisterElementReference 8 two_properties))"
proof -
  have h: "reachable two_properties"
    unfolding two_properties_def
    by (intro reachable.check_labels reachable.reg_element reachable.reg_labels reachable.init)
  show ?thesis
    using h registry_cleanup [OF h, of 7 8] two_properties_Box by simp
qed


subsection \<open>Label change rewrites resolved occurrences only\<close>

lemma strstr_Some:
  "strstr h n = Some j \<Longrightarrow> j + length n \<le> length h \<and> take (length n) (drop j h) = n"
proof (induction h arbitrary: j)
  case Nil
  then show ?case by (simp split: if_splits)
next
  case (Cons c cs)
  show ?case
  proof (cases "take (length n) (c # cs) = n")
    case True
    then have "length (take (length n) (c # cs)) = length n"
      by (rule arg_cong)
    then have "length n \<le> length (c # cs)"
      unfolding length_take by arith
    with True Cons.prems show ?thesis by simp
  next
    case False
    with Cons.prems obtain j' where "strstr cs n = Some j'" "j = Suc j'"
      by auto
    with Cons.IH show ?thesis by simp
  qed
qed

lemma strstr_in_drop:
  assumes "strstr (drop off subname) ref = Some k" "ref \<noteq> []"
  shows "off + k + length ref \<le> length subname"
    and "take (length ref) (drop (off + k) subname) = ref"
proof -
  from strstr_Some [OF assms(1)]
  have a: "k + length ref \<le> length subname - off"
    and b: "take (length ref) (drop k (drop off subname)) = ref"
    by simp_all
  from assms(2) have "0 < length ref" by simp
  with a show "off + k + length ref \<le> length subname" by arith
  have "drop k (drop off subname) = drop (off + k) subname"
    by (simp add: add.commute [of k off])
  with b show "take (length ref) (drop (off + k) subname) = ref" by simp
qed

lemma loop_rewrites_resolved:
  assumes "updateLabelReference_loop g p subname ob ref nl off = Inr s" "s \<noteq> []" "2 \<le> length ref"
  shows "\<exists>pos. resolves_at g p subname ob ref pos \<and> s = relabelled subname ref nl pos"
  using assms
proof (induction g p subname ob ref nl off rule: updateLabelReference_loop.induct)
  case (1 g p subname ob ref nl off)
  from "1.prems" have ne: "ref \<noteq> []" by auto
  show ?case
  proof (cases "strstr (drop off subname) ref")
    case None
    with "1.prems" show ?thesis by (simp add: updateLabelReference_loop.simps [of _ _ _ _ _ _ off])
  next
    case (Some k)
    note fits = strstr_in_drop(1) [OF Some ne] and occ = strstr_in_drop(2) [OF Some ne]
    show ?thesis
    proof (cases "g p (take (off + k + length ref) subname) = Some ob")
      case True
      with Some "1.prems"(1)
      have "string_replace subname (off + k + 1) (size_t_minus (length ref) 2) nl = Inr s"
        by (simp add: Let_def updateLabelReference_loop.simps [of _ _ _ _ _ _ off])
      moreover have "size_t_minus (length ref) 2 = length ref - 2"
        using "1.prems"(3) by (simp add: size_t_minus_def)
      moreover have "\<not> off + k + 1 > length subname"
        using fits "1.prems"(3) by arith
      moreover have e: "off + k + 1 + (length ref - 2) = off + k + length ref - 1"
        using "1.prems"(3) by arith
      have "string_replace subname (off + k + 1) (length ref - 2) nl
              = Inr (relabelled subname ref nl (off + k))"
        unfolding string_replace_def relabelled_def e using \<open>\<not> off + k + 1 > length subname\<close>
        by simp
      ultimately have "s = relabelled subname ref nl (off + k)"
        by simp
      moreover have "resolves_at g p subname ob ref (off + k)"
        using True fits occ by (simp add: resolves_at_def)
      ultimately show ?thesis by blast
    next
      case False
      from False Some ne "1.prems"(1)
      have "updateLabelReference_loop g p subname ob ref nl (off + k + length ref) = Inr s"
        by (simp add: Let_def updateLabelReference_loop.simps [of _ _ _ _ _ _ off])
      from "1.IH" [OF Some refl refl False ne this "1.prems"(2,3)] show ?thesis .
    qed
  qed
qed

lemma loop_nothing_resolved:
  assumes "\<forall>pos. \<not> resolves_at g p subname ob ref pos" "ref \<noteq> []"
  shows "updateLabelReference_loop g p subname ob ref nl off = Inr []"
  using assms
proof (induction g p subname ob ref nl off rule: updateLabelReference_loop.induct)
  case (1 g p subname ob ref nl off)
  show ?case
  proof (cases "strstr (drop off subname) ref")
    case None
    then show ?thesis by (simp add: updateLabelReference_loop.simps [of _ _ _ _ _ _ off])
  next
    case (Some k)
    note fits = strstr_in_drop(1) [OF Some "1.prems"(2)]
      and occ = strstr_in_drop(2) [OF Some "1.prems"(2)]
    from "1.prems"(1) have "\<not> resolves_at g p subname ob ref (off + k)" by blast
    with fits occ have False: "g p (take (off + k + length ref) subname) \<noteq> Some ob"
      by (simp add: resolves_at_def)
    from "1.IH" [OF Some refl refl False "1.prems"(2) "1.prems"]
    have "updateLabelReference_loop g p subname ob ref nl (off + k + length ref) = Inr []" .
    with False Some "1.prems"(2) show ?thesis
      by (simp add: Let_def updateLabelReference_loop.simps [of _ _ _ _ _ _ off])
  qed
qed


lemma loop_returns:
  assumes "ref \<noteq> []"
  shows "\<exists>s. updateLabelReference_loop g p subname ob ref nl off = Inr s"
  using assms
proof (induction g p subname ob ref nl off rule: updateLabelReference_loop.induct)
  case (1 g p subname ob ref nl off)
  show ?case
  proof (cases "strstr (drop off subname) ref")
    case None
    then show ?thesis by (simp add: updateLabelReference_loop.simps [of _ _ _ _ _ _ off])
  next
    case (Some k)
    note fits = strstr_in_drop(1) [OF Some "1.prems"]
    show ?thesis
    proof (cases "g p (take (off + k + length ref) subname) = Some ob")
      case True
      from fits "1.prems" have "\<not> off + k + 1 > length subname"
        by (cases ref) auto
      with True Some show ?thesis
        by (simp add: Let_def string_replace_def updateLabelReference_loop.simps [of _ _ _ _ _ _ off])
    next
      case False
      from "1.IH" [OF Some refl refl False "1.prems" "1.prems"] False Some "1.prems"
      show ?thesis by (simp add: Let_def updateLabelReference_loop.simps [of _ _ _ _ _ _ off])
    qed
  qed
qed

lemma updateLinkSubs_loop_nothing:
  "\<forall>sub\<in>set rest. f sub = Inr [] \<Longrightarrow> updateLinkSubs_loop f seen rest [] = Inr []"
  by (induction rest arbitrary: seen) simp_all

lemma updateLinkSubs_loop_returns:
  "\<forall>sub\<in>set rest. \<exists>n. f sub = Inr n \<Longrightarrow> \<exists>r. updateLinkSubs_loop f seen rest res = Inr r"
proof (induction rest arbitrary: seen res)
  case Nil
  show ?case by simp
next
  case (Cons sub rest)
  then obtain n where n: "f sub = Inr n" by auto
  from Cons.prems have rest: "\<forall>sub\<in>set rest. \<exists>n. f sub = Inr n" by simp
  from Cons.IH [OF rest] n show ?case by simp
qed

lemma updateLinkSubs_loop_inv:
  assumes "\<forall>sub\<in>set rest. \<forall>n. f sub = Inr n \<longrightarrow> n \<noteq> [] \<longrightarrow> Q sub n"
    and "\<forall>x. Q x x"
    and "res = [] \<or> list_all2 Q seen res"
    and "updateLinkSubs_loop f seen rest res = Inr r"
  shows "r = [] \<or> list_all2 Q (seen @ rest) r"
  using assms
proof (induction rest arbitrary: seen res)
  case Nil
  then show ?case by simp
next
  case (Cons sub rest)
  from Cons.prems(4) obtain n where n: "f sub = Inr n"
    by (cases "f sub") auto
  have refl: "list_all2 Q seen seen"
    using Cons.prems(2) by (simp add: list_all2_same)
  from Cons.prems(1) have rest: "\<forall>sub\<in>set rest. \<forall>n. f sub = Inr n \<longrightarrow> n \<noteq> [] \<longrightarrow> Q sub n"
    by simp
  show ?case
  proof (cases "n = []")
    case False
    with Cons.prems(1) n have q: "Q sub n" by simp
    let ?res = "(if res = [] then seen else res) @ [n]"
    from Cons.prems(3) refl q have inv: "?res = [] \<or> list_all2 Q (seen @ [sub]) ?res"
      by (auto intro: list_all2_appendI)
    from Cons.prems(4) n False
    have "updateLinkSubs_loop f (seen @ [sub]) rest ?res = Inr r" by simp
    from Cons.IH [OF rest Cons.prems(2) inv this] show ?thesis by simp
  next
    case True
    show ?thesis
    proof (cases "res = []")
      case True
      with Cons.prems(4) n \<open>n = []\<close>
      have "updateLinkSubs_loop f (seen @ [sub]) rest [] = Inr r" by simp
      from Cons.IH [OF rest Cons.prems(2) _ this] show ?thesis by simp
    next
      case False
      with Cons.prems(3) Cons.prems(2)
      have inv: "res @ [sub] = [] \<or> list_all2 Q (seen @ [sub]) (res @ [sub])"
        by (auto intro: list_all2_appendI)
      from Cons.prems(4) n \<open>n = []\<close> False
      have "updateLinkSubs_loop f (seen @ [sub]) rest (res @ [sub]) = Inr r" by simp
      from Cons.IH [OF rest Cons.prems(2) inv this] show ?thesis by simp
    qed
  qed
qed

lemma label_ref_length: "2 \<le> length (label_ref l)" "label_ref l \<noteq> []"
  by (simp_all add: label_ref_def)

lemma updateLabelReference_resolved:
  assumes "updateLabelReference attached g parent subname ob (label_ref oldLabel) newLabel = Inr s"
    and "s \<noteq> []"
  shows "\<exists>p o' pos. parent = Some p \<and> ob = Some o'
           \<and> resolves_at g p subname o' (label_ref oldLabel) pos
           \<and> s = relabelled subname (label_ref oldLabel) newLabel pos"
proof -
  from assms obtain p o' where po: "parent = Some p" "ob = Some o'"
    by (auto simp: updateLabelReference_def split: option.splits)
  with assms have "updateLabelReference_loop g p subname o' (label_ref oldLabel) newLabel 0 = Inr s"
    by (auto simp: updateLabelReference_def split: if_splits)
  from loop_rewrites_resolved [OF this assms(2) label_ref_length(1)] po
  show ?thesis by blast
qed

lemma updateLabelReference_returns:
  "\<exists>s. updateLabelReference attached g parent subname ob (label_ref oldLabel) newLabel = Inr s"
  using loop_returns [OF label_ref_length(2)]
  by (auto simp: updateLabelReference_def split: option.splits)

lemma updateLabelReference_nothing:
  assumes "\<forall>o' pos. ob = Some o' \<longrightarrow> \<not> resolves_at g p subname o' (label_ref oldLabel) pos"
  shows "updateLabelReference attached g (Some p) subname ob (label_ref oldLabel) newLabel = Inr []"
  using assms loop_nothing_resolved [OF _ label_ref_length(2)]
  by (auto simp: updateLabelReference_def split: option.splits)

text \<open>
  C5.  For a rename of the label \<open>oldLabel\<close> (the reference text is \<open>$oldLabel.\<close>):
  a non-empty answer of \<open>updateLabelReference\<close> is the subname with the label replaced at
  an occurrence whose prefix chain resolves, by \<open>getSubObject\<close> of the parent, to the
  renamed object itself; every subname of a property returned by \<open>CopyOnLabelChange\<close> is
  either unchanged or rewritten at such an occurrence; when no occurrence in any subname
  of the property resolves to the object, \<open>CopyOnLabelChange\<close> returns null; and the
  transform always returns.
\<close>

theorem label_change_only_where_resolved:
  "(updateLabelReference attached g parent subname ob (label_ref oldLabel) newLabel = Inr s
      \<and> s \<noteq> [] \<longrightarrow>
      (\<exists>p o' pos. parent = Some p \<and> ob = Some o'
         \<and> resolves_at g p subname o' (label_ref oldLabel) pos
         \<and> s = relabelled subname (label_ref oldLabel) newLabel pos))
   \<and> (PropertyLinkSub_CopyOnLabelChange attached g owner_doc link subs ob
         (label_ref oldLabel) newLabel = Inr (Some (l, subs')) \<longrightarrow>
       link = Some l
       \<and> list_all2 (\<lambda>sub new. new = sub \<or>
            (\<exists>o' pos. ob = Some o' \<and> resolves_at g l sub o' (label_ref oldLabel) pos
               \<and> new = relabelled sub (label_ref oldLabel) newLabel pos)) subs subs')
   \<and> ((\<forall>sub\<in>set subs. \<forall>o' pos. ob = Some o' \<longrightarrow>
          \<not> resolves_at g l sub o' (label_ref oldLabel) pos) \<longrightarrow>
       PropertyLinkSub_CopyOnLabelChange attached g owner_doc (Some l) subs ob
         (label_ref oldLabel) newLabel = Inr None)
   \<and> (\<exists>res. PropertyLinkSub_CopyOnLabelChange attached g owner_doc link subs ob
         (label_ref oldLabel) newLabel = Inr res)"
  (is "?A \<and> ?B \<and> ?C \<and> ?D")
proof -
  let ?f = "\<lambda>parent sub. updateLabelReference attached g parent sub ob (label_ref oldLabel) newLabel"
  let ?Q = "\<lambda>sub new. new = sub \<or>
            (\<exists>o' pos. ob = Some o' \<and> resolves_at g l sub o' (label_ref oldLabel) pos
               \<and> new = relabelled sub (label_ref oldLabel) newLabel pos)"
  have A: ?A
    using updateLabelReference_resolved by blast
  have B: ?B
  proof
    assume a: "PropertyLinkSub_CopyOnLabelChange attached g owner_doc link subs ob
         (label_ref oldLabel) newLabel = Inr (Some (l, subs'))"
    then have link: "link = Some l"
      by (auto simp: PropertyLinkSub_CopyOnLabelChange_def
          split: option.splits if_splits sum.splits)
    with a have loop: "updateLinkSubs_loop (?f (Some l)) [] subs [] = Inr subs'"
      and ne: "subs' \<noteq> []"
      by (auto simp: PropertyLinkSub_CopyOnLabelChange_def updateLinkSubs_def
          split: option.splits if_splits sum.splits)
    have step: "\<forall>sub\<in>set subs. \<forall>n. ?f (Some l) sub = Inr n \<longrightarrow> n \<noteq> [] \<longrightarrow> ?Q sub n"
    proof (intro ballI allI impI)
      fix sub n
      assume "?f (Some l) sub = Inr n" "n \<noteq> []"
      from updateLabelReference_resolved [OF this] show "?Q sub n" by auto
    qed
    have "subs' = [] \<or> list_all2 ?Q ([] @ subs) subs'"
      by (rule updateLinkSubs_loop_inv [OF step _ _ loop]) simp_all
    with ne have "list_all2 ?Q subs subs'" by simp
    with link show "link = Some l \<and> list_all2 ?Q subs subs'" by simp
  qed
  have C: ?C
  proof
    assume none: "\<forall>sub\<in>set subs. \<forall>o' pos. ob = Some o' \<longrightarrow>
          \<not> resolves_at g l sub o' (label_ref oldLabel) pos"
    have "\<forall>sub\<in>set subs. ?f (Some l) sub = Inr []"
      using none updateLabelReference_nothing by blast
    then have "updateLinkSubs_loop (?f (Some l)) [] subs [] = Inr []"
      by (rule updateLinkSubs_loop_nothing)
    then show "PropertyLinkSub_CopyOnLabelChange attached g owner_doc (Some l) subs ob
         (label_ref oldLabel) newLabel = Inr None"
      by (simp add: PropertyLinkSub_CopyOnLabelChange_def updateLinkSubs_def)
  qed
  have D: ?D
  proof -
    have "\<exists>r. updateLinkSubs_loop (?f link) [] subs [] = Inr r"
      by (rule updateLinkSubs_loop_returns) (simp add: updateLabelReference_returns)
    then show ?thesis
      by (auto simp: PropertyLinkSub_CopyOnLabelChange_def updateLinkSubs_def
          split: option.splits)
  qed
  from A B C D show ?thesis by (intro conjI)
qed

lemma box_world_updateLabelReference: "updateLabelReference (\<lambda>_. True) box_world (Some 1) ''A.$Box.Face1'' (Some 2)
         (label_ref ''Box'') ''Cube'' = Inr ''A.$Cube.Face1''"
  by (simp add: updateLabelReference_def label_ref_def box_world_def Let_def
      string_replace_def size_t_minus_def updateLabelReference_loop.simps)

lemma box_world_CopyOnLabelChange: "PropertyLinkSub_CopyOnLabelChange (\<lambda>_. True) box_world (Some 0) (Some 1)
         [''Edge1'', ''A.$Box.Face1'', ''B.$Box.Face1''] (Some 2) (label_ref ''Box'') ''Cube''
       = Inr (Some (1, [''Edge1'', ''A.$Cube.Face1'', ''B.$Box.Face1'']))"
  by (simp add: PropertyLinkSub_CopyOnLabelChange_def updateLinkSubs_def
      updateLabelReference_def label_ref_def box_world_def Let_def
      string_replace_def size_t_minus_def updateLabelReference_loop.simps)


lemma box_world_unresolved:
  "\<forall>sub\<in>set [''B.$Box.Face1'']. \<forall>o' pos. Some 2 = Some o' \<longrightarrow>
      \<not> resolves_at box_world 1 sub o' (label_ref ''Box'') pos"
  by (simp add: resolves_at_def box_world_def label_ref_def take_Cons')

theorem label_change_only_where_resolved_witness:
  "updateLabelReference (\<lambda>_. True) box_world (Some 1) ''A.$Box.Face1'' (Some 2)
       (label_ref ''Box'') ''Cube'' = Inr ''A.$Cube.Face1''
   \<and> (\<exists>p o' pos. Some 1 = Some p \<and> Some 2 = Some o'
         \<and> resolves_at box_world p ''A.$Box.Face1'' o' (label_ref ''Box'') pos
         \<and> ''A.$Cube.Face1'' = relabelled ''A.$Box.Face1'' (label_ref ''Box'') ''Cube'' pos)
   \<and> PropertyLinkSub_CopyOnLabelChange (\<lambda>_. True) box_world (Some 0) (Some 1)
         [''Edge1'', ''A.$Box.Face1'', ''B.$Box.Face1''] (Some 2) (label_ref ''Box'') ''Cube''
       = Inr (Some (1, [''Edge1'', ''A.$Cube.Face1'', ''B.$Box.Face1'']))
   \<and> list_all2 (\<lambda>sub new. new = sub \<or>
            (\<exists>o' pos. Some 2 = Some o' \<and> resolves_at box_world 1 sub o' (label_ref ''Box'') pos
               \<and> new = relabelled sub (label_ref ''Box'') ''Cube'' pos))
         [''Edge1'', ''A.$Box.Face1'', ''B.$Box.Face1'']
         [''Edge1'', ''A.$Cube.Face1'', ''B.$Box.Face1'']
   \<and> \<not> (\<exists>pos. resolves_at box_world 1 ''B.$Box.Face1'' 2 (label_ref ''Box'') pos)
   \<and> PropertyLinkSub_CopyOnLabelChange (\<lambda>_. True) box_world (Some 0) (Some 1)
         [''B.$Box.Face1''] (Some 2) (label_ref ''Box'') ''Cube'' = Inr None"
proof -
  note t1 = label_change_only_where_resolved [of "\<lambda>_. True" box_world "Some 1" "''A.$Box.Face1''"
      "Some 2" "''Box''" "''Cube''" "''A.$Cube.Face1''" "Some 0" "Some 1"
      "[''Edge1'', ''A.$Box.Face1'', ''B.$Box.Face1'']" 1
      "[''Edge1'', ''A.$Cube.Face1'', ''B.$Box.Face1'']"]
  note t2 = label_change_only_where_resolved [of "\<lambda>_. True" box_world "Some 1" "''A.$Box.Face1''"
      "Some 2" "''Box''" "''Cube''" "''A.$Cube.Face1''" "Some 0" "Some 1"
      "[''B.$Box.Face1'']" 1 "[]"]
  have ne: "''A.$Cube.Face1'' \<noteq> []" by simp
  from t1 [THEN conjunct1, rule_format, OF conjI, OF box_world_updateLabelReference ne]
  have a: "\<exists>p o' pos. Some 1 = Some p \<and> Some 2 = Some o'
         \<and> resolves_at box_world p ''A.$Box.Face1'' o' (label_ref ''Box'') pos
         \<and> ''A.$Cube.Face1'' = relabelled ''A.$Box.Face1'' (label_ref ''Box'') ''Cube'' pos" .
  from t1 [THEN conjunct2, THEN conjunct1, rule_format, OF box_world_CopyOnLabelChange]
  have b: "list_all2 (\<lambda>sub new. new = sub \<or>
            (\<exists>o' pos. Some 2 = Some o' \<and> resolves_at box_world 1 sub o' (label_ref ''Box'') pos
               \<and> new = relabelled sub (label_ref ''Box'') ''Cube'' pos))
         [''Edge1'', ''A.$Box.Face1'', ''B.$Box.Face1'']
         [''Edge1'', ''A.$Cube.Face1'', ''B.$Box.Face1'']"
    by (rule conjunct2)
  have c: "\<not> (\<exists>pos. resolves_at box_world 1 ''B.$Box.Face1'' 2 (label_ref ''Box'') pos)"
    using box_world_unresolved by simp
  from t2 [THEN conjunct2, THEN conjunct2, THEN conjunct1, THEN mp, OF box_world_unresolved]
  have d: "PropertyLinkSub_CopyOnLabelChange (\<lambda>_. True) box_world (Some 0) (Some 1)
         [''B.$Box.Face1''] (Some 2) (label_ref ''Box'') ''Cube'' = Inr None" .
  from box_world_updateLabelReference a box_world_CopyOnLabelChange b c d
  show ?thesis by (intro conjI)
qed

subsection \<open>Link replacement happens below the parent only\<close>

lemma string_find_Some:
  assumes "string_find s c start = Some p"
  shows "start \<le> p" "p < length s" "s ! p = c" "\<forall>i. start \<le> i \<and> i < p \<longrightarrow> s ! i \<noteq> c"
proof -
  let ?d = "drop start s"
  let ?k = "length (takeWhile (\<lambda>x. x \<noteq> c) ?d)"
  from assms have p: "p = start + ?k" and lt: "start + ?k < length s"
    by (auto simp: string_find_def Let_def split: if_splits)
  show "start \<le> p" using p by simp
  show "p < length s" using p lt by simp
  from lt have k: "?k < length ?d" by simp
  from nth_length_takeWhile [OF k] have "?d ! ?k = c" by simp
  with lt p show "s ! p = c" by simp
  show "\<forall>i. start \<le> i \<and> i < p \<longrightarrow> s ! i \<noteq> c"
  proof (intro allI impI)
    fix i assume i: "start \<le> i \<and> i < p"
    then have j: "i - start < ?k" using p by arith
    then have "takeWhile (\<lambda>x. x \<noteq> c) ?d ! (i - start) = ?d ! (i - start)"
      by (rule takeWhile_nth)
    moreover have "takeWhile (\<lambda>x. x \<noteq> c) ?d ! (i - start) \<in> set (takeWhile (\<lambda>x. x \<noteq> c) ?d)"
      using j by (rule nth_mem)
    ultimately have "?d ! (i - start) \<noteq> c"
      using set_takeWhileD by fastforce
    moreover have "?d ! (i - start) = s ! i"
      using i lt p by simp
    ultimately show "s ! i \<noteq> c" by simp
  qed
qed

lemma loop_reaches:
  assumes "tryReplaceLink_loop g label nameOf ob parent oldObj newObj sub pos prev prevPos = res"
    and "res \<noteq> Inr NoReplace" "res \<noteq> Inr Swap"
    and "pos = string_find sub CHR ''.'' start"
    and "prevPos \<le> start"
    and "\<forall>q. prevPos < q \<and> q \<le> start \<longrightarrow> \<not> is_checkpoint sub q"
    and "(prevPos = 0 \<and> prev = ob) \<or>
         (prevPos \<noteq> 0 \<and> is_checkpoint sub prevPos \<and> g ob (take prevPos sub) = Some prev)"
  shows "\<exists>pp p sobj. previous_is_parent g ob parent sub pp p
           \<and> g ob (take p sub) = Some sobj \<and> oldObj = Some sobj
           \<and> (\<forall>r s. res = Inr (Replaced r s) \<longrightarrow>
                 r = ob \<and> (\<exists>n. newObj = Some n \<and> replaced_path label nameOf sub pp p n = Some s))"
  using assms
proof (induction g label nameOf ob parent oldObj newObj sub pos prev prevPos arbitrary: start
    rule: tryReplaceLink_loop.induct)
  case (1 g label nameOf ob parent oldObj newObj sub pos prev prevPos)
  from "1.prems"(1,2) obtain p where pos: "pos = Some p"
    by (cases pos) (auto simp: tryReplaceLink_loop_None)
  note f = string_find_Some [OF "1.prems"(4) [unfolded pos, symmetric]]
  note run = "1.prems"(1) [unfolded pos tryReplaceLink_loop_Some]
  have between: "\<not> is_checkpoint sub q" if "prevPos < q" "q \<le> p" for q
  proof (cases "q \<le> start")
    case True
    with that "1.prems"(6) show ?thesis by blast
  next
    case False
    with that have "start \<le> q - 1 \<and> q - 1 < p" by arith
    with f(4) have "sub ! (q - 1) \<noteq> CHR ''.''" by blast
    then show ?thesis by (simp add: is_checkpoint_def)
  qed
  show ?case
  proof (cases "char_at sub (p + 1) = CHR ''.''")
    case True
    with run have rec: "tryReplaceLink_loop g label nameOf ob parent oldObj newObj sub
        (string_find sub CHR ''.'' (p + 1)) prev prevPos = res"
      by simp
    have nochk: "\<forall>q. prevPos < q \<and> q \<le> p + 1 \<longrightarrow> \<not> is_checkpoint sub q"
    proof (intro allI impI)
      fix q assume q: "prevPos < q \<and> q \<le> p + 1"
      show "\<not> is_checkpoint sub q"
      proof (cases "q = p + 1")
        case True
        with \<open>char_at sub (p + 1) = CHR ''.''\<close> show ?thesis by (simp add: is_checkpoint_def)
      next
        case False
        with q between show ?thesis by simp
      qed
    qed
    from "1.prems"(5) f(1) have le: "prevPos \<le> p + 1" by simp
    from "1.IH"(1) [OF pos refl refl True rec "1.prems"(2,3) refl le nochk "1.prems"(7)]
    show ?thesis .
  next
    case notdot: False
    have chk: "is_checkpoint sub (p + 1)"
      using notdot f(2,3) by (simp add: is_checkpoint_def)
    from run notdot "1.prems"(2) obtain sobj where sobj: "g ob (take (p + 1) sub) = Some sobj"
      by (cases "g ob (take (p + 1) sub)") (auto simp: Let_def)
    show ?thesis
    proof (cases "oldObj = Some sobj")
      case True
      with run notdot sobj "1.prems"(2) have par: "Some prev = parent"
        by (auto simp: Let_def split: if_splits)
      from "1.prems"(5) f(1) have pple: "prevPos \<le> p" by simp
      then have cnt: "size_t_minus (size_t_minus (p + 1) 1) prevPos = p - prevPos"
        by (simp add: size_t_minus_def)
      have rs: "\<forall>r s. res = Inr (Replaced r s) \<longrightarrow>
                 r = ob \<and> (\<exists>n. newObj = Some n
                    \<and> replaced_path label nameOf sub prevPos (p + 1) n = Some s)"
        using run notdot sobj True par cnt pple f(2)
        by (auto simp: Let_def replaced_path_def string_replace_def
            split: if_splits option.splits sum.splits)
      have "previous_is_parent g ob parent sub prevPos (p + 1)"
        unfolding previous_is_parent_def
        using chk pple between "1.prems"(7) par by auto
      with rs sobj True show ?thesis by blast
    next
      case notold: False
      with run notdot sobj "1.prems"(2,3)
      have notnew: "Some sobj \<noteq> newObj" and notpar: "Some prev \<noteq> parent"
        by (auto simp: Let_def split: if_splits)
      with run notdot sobj notold
      have rec: "tryReplaceLink_loop g label nameOf ob parent oldObj newObj sub
        (string_find sub CHR ''.'' (p + 1)) sobj (p + 1) = res"
        by (auto simp: Let_def)
      have inv: "(p + 1 = 0 \<and> sobj = ob) \<or>
         (p + 1 \<noteq> 0 \<and> is_checkpoint sub (p + 1) \<and> g ob (take (p + 1) sub) = Some sobj)"
        using chk sobj by simp
      from notold have notold': "Some sobj \<noteq> oldObj" by auto
      have vac: "\<forall>q. p + 1 < q \<and> q \<le> p + 1 \<longrightarrow> \<not> is_checkpoint sub q" by auto
      from "1.IH"(2) [OF pos refl refl notdot sobj notold' notnew notpar rec "1.prems"(2,3)
          refl le_refl vac inv]
      show ?thesis .
    qed
  qed
qed


lemma found_direct_swap:
  "found_direct owner ob parent newObj oldObj subname res
   \<Longrightarrow> found_direct owner ob parent oldObj newObj subname res"
  unfolding found_direct_def by (elim exE conjE, rule_tac x = o' in exI) blast

lemma found_on_path_swap:
  "found_on_path g label nameOf ob parent newObj oldObj subname res
   \<Longrightarrow> found_on_path g label nameOf ob parent oldObj newObj subname res"
  unfolding found_on_path_def
  apply (elim exE conjE)
  apply (rule_tac x = o' in exI, rule_tac x = sub in exI, rule_tac x = pp in exI,
      rule_tac x = p in exI, rule_tac x = sobj in exI)
  apply (intro conjI; (assumption | blast)?)
  done

lemma tryReplaceLink_found:
  assumes "tryReplaceLink g label nameOf owner ob parent oldObj newObj subname = res"
    and "res \<noteq> Inr None"
  shows "found_direct owner ob parent oldObj newObj subname res
       \<or> found_on_path g label nameOf ob parent oldObj newObj subname res"
  using assms
proof (induction g label nameOf owner ob parent oldObj newObj subname
    rule: tryReplaceLink.induct)
  case (1 g label nameOf owner ob parent oldObj newObj subname)
  from "1.prems" obtain o' where ob: "ob = Some o'"
    by (cases ob) (auto simp: tryReplaceLink.simps [of _ _ _ _ None])
  note eq = tryReplaceLink.simps [of g label nameOf owner "Some o'" parent oldObj newObj subname]
  have run: "(if oldObj = Some o'
           then (if owner = parent
                 then Inr (map_option (\<lambda>n. (n, case subname of None \<Rightarrow> [] | Some s \<Rightarrow> s)) newObj)
                 else Inr None)
           else if newObj = Some o'
           then tryReplaceLink g label nameOf owner (Some o') parent newObj oldObj subname
           else case subname of
                  None \<Rightarrow> Inr None
                | Some sub \<Rightarrow>
                    (if sub = [] then Inr None
                     else case tryReplaceLink_loop g label nameOf o' parent
                                 oldObj newObj sub (string_find sub CHR ''.'' 0) o' 0 of
                            Inl e \<Rightarrow> Inl e
                          | Inr (Replaced r s) \<Rightarrow> Inr (Some (r, s))
                          | Inr Swap \<Rightarrow>
                              tryReplaceLink g label nameOf owner (Some o') parent
                                newObj oldObj subname
                          | Inr NoReplace \<Rightarrow> Inr None)) = res"
    using "1.prems"(1) unfolding ob eq by simp
  show ?case
  proof (cases "oldObj = Some o'")
    case True
    with run "1.prems"(2) have par: "owner = parent"
      and res: "res = Inr (map_option (\<lambda>n. (n, case subname of None \<Rightarrow> [] | Some s \<Rightarrow> s)) newObj)"
      by (simp_all split: if_splits)
    have "found_direct owner ob parent oldObj newObj subname res"
      unfolding found_direct_def
      by (rule exI [of _ o']) (use ob True par res in auto)
    then show ?thesis ..
  next
    case notold: False
    show ?thesis
    proof (cases "newObj = Some o'")
      case True
      with run notold
      have "tryReplaceLink g label nameOf owner (Some o') parent newObj oldObj subname = res"
        by simp
      from "1.IH"(1) [OF ob notold True this [folded ob] "1.prems"(2)]
      show ?thesis using found_direct_swap found_on_path_swap by blast
    next
      case notnew: False
      from run notold notnew "1.prems"(2) obtain sub where sub: "subname = Some sub" "sub \<noteq> []"
        by (cases subname) (auto split: if_splits)
      let ?loop = "tryReplaceLink_loop g label nameOf o' parent oldObj newObj sub
                     (string_find sub CHR ''.'' 0) o' 0"
      from run notold notnew sub
      have run': "(case ?loop of
                     Inl e \<Rightarrow> Inl e
                   | Inr (Replaced r s) \<Rightarrow> Inr (Some (r, s))
                   | Inr Swap \<Rightarrow>
                       tryReplaceLink g label nameOf owner (Some o') parent newObj oldObj subname
                   | Inr NoReplace \<Rightarrow> Inr None) = res"
        by simp
      have reach: "\<exists>pp p sobj. previous_is_parent g o' parent sub pp p
           \<and> g o' (take p sub) = Some sobj \<and> oldObj = Some sobj
           \<and> (\<forall>r s. ?loop = Inr (Replaced r s) \<longrightarrow>
                 r = o' \<and> (\<exists>n. newObj = Some n \<and> replaced_path label nameOf sub pp p n = Some s))"
        if "?loop \<noteq> Inr NoReplace" "?loop \<noteq> Inr Swap"
        by (rule loop_reaches [OF refl that refl le_refl]) auto
      show ?thesis
      proof (cases "?loop = Inr Swap")
        case True
        with run'
        have "tryReplaceLink g label nameOf owner (Some o') parent newObj oldObj subname = res"
          by simp
        from "1.IH"(2) [OF ob notold notnew sub(1) sub(2) True refl this [folded ob] "1.prems"(2)]
        show ?thesis using found_direct_swap found_on_path_swap by blast
      next
        case False
        from run' "1.prems"(2) have nr: "?loop \<noteq> Inr NoReplace"
          by auto
        from reach [OF nr False] obtain pp p sobj where
          r: "previous_is_parent g o' parent sub pp p" "g o' (take p sub) = Some sobj"
            "oldObj = Some sobj"
            "\<forall>r s. ?loop = Inr (Replaced r s) \<longrightarrow>
                 r = o' \<and> (\<exists>n. newObj = Some n \<and> replaced_path label nameOf sub pp p n = Some s)"
          by blast
        have "\<forall>r s. res = Inr (Some (r, s)) \<longrightarrow> ?loop = Inr (Replaced r s)"
          using run' False
          by (cases ?loop) (auto split: replace_step.splits)
        with r(4) have "\<forall>r s. res = Inr (Some (r, s)) \<longrightarrow> r = o'
                  \<and> (\<exists>n. (oldObj = Some sobj \<and> newObj = Some n
                           \<or> newObj = Some sobj \<and> oldObj = Some n)
                        \<and> replaced_path label nameOf sub pp p n = Some s)"
          using r(3) by blast
        with ob notold notnew sub(1) r(1,2,3)
        have "found_on_path g label nameOf ob parent oldObj newObj subname res"
          unfolding found_on_path_def by blast
        then show ?thesis ..
      qed
    qed
  qed
qed


lemma found_on_path_occurrence:
  assumes "found_on_path g label nameOf (Some o') parent oldObj newObj (Some sub) res"
  shows "occurrence_below_parent g o' parent oldObj newObj sub"
proof -
  from assms obtain pp p sobj where
    a: "previous_is_parent g o' parent sub pp p" "g o' (take p sub) = Some sobj"
       "oldObj = Some sobj \<or> newObj = Some sobj"
    unfolding found_on_path_def by auto
  from a(1) have "pp < p" "1 \<le> p" "p \<le> length sub"
    by (auto simp: previous_is_parent_def is_checkpoint_def)
  then have "p \<in> set [1..<Suc (length sub)]" "pp \<in> set [0..<p]" by auto
  with a show ?thesis unfolding occurrence_below_parent_def by force
qed

text \<open>
  C4.  A call of \<open>tryReplaceLink\<close> that returns a replacement has either replaced the
  linked object itself, and then the owner is the parent, or replaced the segment of the
  path that ends at a position \<open>p\<close> naming one of the two objects, and then what precedes
  \<open>p\<close> (the linked object at the start of the path, else the sub-object named at the
  previous position \<open>pp\<close>) is the parent.  When neither the direct link nor any position of
  the path names one of the two objects below the parent, the answer is null.
\<close>

theorem tryReplaceLink_only_below_parent:
  "(tryReplaceLink g label nameOf owner ob parent oldObj newObj subname = Inr (Some (r, s)) \<longrightarrow>
      (\<exists>o'. ob = Some o' \<and> owner = parent
            \<and> (oldObj = Some o' \<and> newObj = Some r \<or> newObj = Some o' \<and> oldObj = Some r)
            \<and> s = (case subname of None \<Rightarrow> [] | Some sub \<Rightarrow> sub))
      \<or> (\<exists>o' sub pp p sobj n. ob = Some o' \<and> oldObj \<noteq> Some o' \<and> newObj \<noteq> Some o'
            \<and> subname = Some sub \<and> r = o'
            \<and> previous_is_parent g o' parent sub pp p
            \<and> g o' (take p sub) = Some sobj
            \<and> (oldObj = Some sobj \<and> newObj = Some n \<or> newObj = Some sobj \<and> oldObj = Some n)
            \<and> replaced_path label nameOf sub pp p n = Some s))
   \<and> (ob = Some lnk
       \<and> \<not> (owner = parent \<and> (oldObj = Some lnk \<or> newObj = Some lnk))
       \<and> (\<forall>sub. subname = Some sub \<longrightarrow> \<not> occurrence_below_parent g lnk parent oldObj newObj sub)
       \<longrightarrow> tryReplaceLink g label nameOf owner ob parent oldObj newObj subname = Inr None)"
  (is "?A \<and> ?B")
proof -
  have A: ?A
  proof
    assume res: "tryReplaceLink g label nameOf owner ob parent oldObj newObj subname
                   = Inr (Some (r, s))"
    from tryReplaceLink_found [OF res]
    have "found_direct owner ob parent oldObj newObj subname (Inr (Some (r, s)))
        \<or> found_on_path g label nameOf ob parent oldObj newObj subname (Inr (Some (r, s)))"
      by simp
    then show "(\<exists>o'. ob = Some o' \<and> owner = parent
            \<and> (oldObj = Some o' \<and> newObj = Some r \<or> newObj = Some o' \<and> oldObj = Some r)
            \<and> s = (case subname of None \<Rightarrow> [] | Some sub \<Rightarrow> sub))
      \<or> (\<exists>o' sub pp p sobj n. ob = Some o' \<and> oldObj \<noteq> Some o' \<and> newObj \<noteq> Some o'
            \<and> subname = Some sub \<and> r = o'
            \<and> previous_is_parent g o' parent sub pp p
            \<and> g o' (take p sub) = Some sobj
            \<and> (oldObj = Some sobj \<and> newObj = Some n \<or> newObj = Some sobj \<and> oldObj = Some n)
            \<and> replaced_path label nameOf sub pp p n = Some s)"
    proof
      assume "found_direct owner ob parent oldObj newObj subname (Inr (Some (r, s)))"
      then show ?thesis unfolding found_direct_def by blast
    next
      assume "found_on_path g label nameOf ob parent oldObj newObj subname (Inr (Some (r, s)))"
      then have "\<exists>o' sub pp p sobj n. ob = Some o' \<and> oldObj \<noteq> Some o' \<and> newObj \<noteq> Some o'
            \<and> subname = Some sub \<and> r = o'
            \<and> previous_is_parent g o' parent sub pp p
            \<and> g o' (take p sub) = Some sobj
            \<and> (oldObj = Some sobj \<and> newObj = Some n \<or> newObj = Some sobj \<and> oldObj = Some n)
            \<and> replaced_path label nameOf sub pp p n = Some s"
        unfolding found_on_path_def by blast
      then show ?thesis ..
    qed
  qed
  have B: ?B
  proof
    assume h: "ob = Some lnk
       \<and> \<not> (owner = parent \<and> (oldObj = Some lnk \<or> newObj = Some lnk))
       \<and> (\<forall>sub. subname = Some sub \<longrightarrow> \<not> occurrence_below_parent g lnk parent oldObj newObj sub)"
    let ?res = "tryReplaceLink g label nameOf owner ob parent oldObj newObj subname"
    show "?res = Inr None"
    proof (rule ccontr)
      assume "?res \<noteq> Inr None"
      from tryReplaceLink_found [OF refl this]
      show False
      proof
        assume "found_direct owner ob parent oldObj newObj subname ?res"
        with h show False unfolding found_direct_def by auto
      next
        assume f: "found_on_path g label nameOf ob parent oldObj newObj subname ?res"
        then obtain sub where "subname = Some sub"
          unfolding found_on_path_def by blast
        with f h found_on_path_occurrence [of g label nameOf lnk parent oldObj newObj sub ?res]
        show False by simp
      qed
    qed
  qed
  from A B show ?thesis ..
qed

lemma cut_world_replaced:
  "tryReplaceLink cut_world (\<lambda>_. ''L'') cut_names (Some 9) (Some 1) (Some 1) (Some 2) (Some 3)
     (Some ''oldObj.Face1'') = Inr (Some (1, ''newObj.Face1''))"
  by (simp add: tryReplaceLink.simps tryReplaceLink_loop_Some tryReplaceLink_loop_None
      string_find_def char_at_def cut_world_def cut_names_def string_replace_def size_t_minus_def)

lemma cut_world_unrelated_parent:
  "Some 1 = Some (1::nat)
   \<and> \<not> (Some 9 = Some (7::nat) \<and> (Some 2 = Some (1::nat) \<or> Some 3 = Some (1::nat)))
   \<and> (\<forall>sub. Some ''oldObj.Face1'' = Some sub \<longrightarrow>
         \<not> occurrence_below_parent cut_world 1 (Some 7) (Some 2) (Some 3) sub)"
  by (simp add: occurrence_below_parent_def previous_is_parent_def cut_world_def)

theorem tryReplaceLink_only_below_parent_witness:
  "tryReplaceLink cut_world (\<lambda>_. ''L'') cut_names (Some 9) (Some 1) (Some 1) (Some 2) (Some 3)
     (Some ''oldObj.Face1'') = Inr (Some (1, ''newObj.Face1''))
   \<and> (\<exists>pp p sobj n. previous_is_parent cut_world 1 (Some 1) ''oldObj.Face1'' pp p
          \<and> cut_world 1 (take p ''oldObj.Face1'') = Some sobj
          \<and> (Some 2 = Some sobj \<and> Some 3 = Some n \<or> Some 3 = Some sobj \<and> Some 2 = Some n)
          \<and> replaced_path (\<lambda>_. ''L'') cut_names ''oldObj.Face1'' pp p n = Some ''newObj.Face1'')
   \<and> \<not> occurrence_below_parent cut_world 1 (Some 7) (Some 2) (Some 3) ''oldObj.Face1''
   \<and> tryReplaceLink cut_world (\<lambda>_. ''L'') cut_names (Some 9) (Some 1) (Some 7) (Some 2) (Some 3)
     (Some ''oldObj.Face1'') = Inr None"
  using cut_world_replaced cut_world_unrelated_parent
    tryReplaceLink_only_below_parent [of cut_world "\<lambda>_. ''L''" cut_names "Some 9" "Some 1"
      "Some 1" "Some 2" "Some 3" "Some ''oldObj.Face1''" 1 "''newObj.Face1''" 1]
    tryReplaceLink_only_below_parent [of cut_world "\<lambda>_. ''L''" cut_names "Some 9" "Some 1"
      "Some 7" "Some 2" "Some 3" "Some ''oldObj.Face1''" 1 "''newObj.Face1''" 1]
  by auto

subsection \<open>Element references: a second update changes nothing\<close>












subsection \<open>Restoring a link to a missing object\<close>

lemma PropertyLinkSub_setValue_null:
  "PropertyLinkSub_setValue w None [] [] q g =
     Inr (q\<lparr>pcLinkSub := None, cSubList := [], ShadowSubList := []\<rparr>,
          emit ([AboutToSetValue (self q)]
                @ (case container q of
                     None \<Rightarrow> []
                   | Some parent \<Rightarrow> swap_backlink w (pcScope q) parent (pcLinkSub q) None)
                @ [Assign (self q), HasSetValue (self q)])
            (g\<lparr>registry := checkLabelReferences (self q) [] True
                  (unregisterElementReference (self q) (registry g))\<rparr>))"
  by (simp add: PropertyLinkSub_setValue_def PropertyLinkSub_onContainerRestored_def emit_def
      Let_def)

text \<open>
  C8.  Restoring a \<open>PropertyLink\<close> or a \<open>PropertyLinkSub\<close> from a record whose stored target
  name is not empty and names no object of the owner's document.  When the \<open>Link\<close> element
  and its \<open>value\<close> attribute can be read, \<open>PropertyLink::Restore\<close> does not fail: the link is
  set to null, the hooks and the removal of the old backlink happen as in any \<open>setValue\<close>,
  and the warning "Lost link to '...'" is written when the reader is verbose, and only
  then.  When the \<open>LinkSub\<close> element and its attributes \<open>value\<close> and \<open>count\<close> can be read,
  \<open>PropertyLinkSub::Restore\<close> throws for a negative \<open>count\<close> and when fewer than \<open>count\<close>
  \<open>Sub\<close> elements can be read; otherwise it does not fail: the link is set to null with no
  subnames, with the hooks and the backlink removal of \<open>setValue\<close>, and the warning
  "Lost link to ..." is written when the reader is verbose, and only then.
\<close>

theorem restore_dangling_target:
  "(readElement ''Link'' input = Some (e, rest)
      \<and> getAttribute e ''value'' = Some v \<and> getName rd v \<noteq> []
      \<and> container p = Some parent
      \<and> (case getDocument w parent of None \<Rightarrow> None | Some d \<Rightarrow> getObject w d (getName rd v)) = None
    \<longrightarrow> PropertyLink_Restore w rd input p g =
          Inr (p\<lparr>pcLink := None\<rparr>,
               emit ((if isVerbose rd then [lost_link_quoted (getName rd v)] else [])
                     @ [AboutToSetValue (self p)]
                     @ swap_backlink w (pcScope p) parent (pcLink p) None
                     @ [Assign (self p), HasSetValue (self p)]) g))
   \<and> (readElement ''LinkSub'' input = Some (e, rest)
      \<and> getAttribute e ''value'' = Some v \<and> getName rd v \<noteq> []
      \<and> getAttributeAsInteger e ''count'' = Some n
      \<and> container q = Some parent
      \<and> (case getDocument w parent of None \<Rightarrow> None | Some d \<Rightarrow> getObject w d (getName rd v)) = None
    \<longrightarrow> PropertyLinkSub_Restore w rd input q g =
          (if n < 0 then Inl LengthError
           else case restore_subs rd 0 (nat n) (inner_of e) False of
                  None \<Rightarrow> Inl XMLError
                | Some (vs, shadows, ms, rl) \<Rightarrow>
                    Inr (q\<lparr>pcLinkSub := None, cSubList := [], ShadowSubList := [],
                           LinkRestoreLabel := rl\<rparr>,
                         emit ((if isVerbose rd then [lost_link (getName rd v)] else [])
                               @ [AboutToSetValue (self q)]
                               @ swap_backlink w (pcScope q) parent (pcLinkSub q) None
                               @ [Assign (self q), HasSetValue (self q)])
                           (g\<lparr>registry := checkLabelReferences (self q) [] True
                                 (unregisterElementReference (self q) (registry g))\<rparr>))))"
  (is "?A \<and> ?B")
proof -
  have A: ?A
    by (auto simp: PropertyLink_Restore_def PropertyLink_setValue_def emit_def Let_def
        split: option.splits)
  have B: ?B
    by (auto simp: PropertyLinkSub_Restore_def PropertyLinkSub_setValue_null emit_def Let_def
        split: option.splits)
  from A B show ?thesis ..
qed

text \<open>With a reader that is not verbose the same restore writes no warning.\<close>

theorem restore_not_verbose_no_warning:
  "PropertyLink_Restore face_world quiet_reader [Element ''Link'' [(''value'', Text ''Gone'')] []]
     link_to_box no_globals
   = Inr (link_to_box\<lparr>pcLink := None\<rparr>,
          \<lparr>registry = no_registrations,
           trace = [AboutToSetValue 7, RemoveBackLink 5 6, Assign 7, HasSetValue 7]\<rparr>)
   \<and> lost_link_quoted ''Gone''
       \<notin> set [AboutToSetValue 7, RemoveBackLink 5 6, Assign 7, HasSetValue 7]"
  by (simp add: PropertyLink_Restore_def PropertyLink_setValue_def readElement_def
      getAttribute_def quiet_reader_def face_world_def link_to_box_def no_globals_def
      emit_def swap_backlink_def lost_link_quoted_def)

theorem restore_dangling_target_witness:
  "getObject face_world 0 ''Gone'' = None
   \<and> PropertyLink_Restore face_world loud_reader
         [Element ''Link'' [(''value'', Text ''Gone'')] []] link_to_box no_globals
       = Inr (link_to_box\<lparr>pcLink := None\<rparr>,
              \<lparr>registry = no_registrations,
               trace = [lost_link_quoted ''Gone'', AboutToSetValue 7, RemoveBackLink 5 6,
                        Assign 7, HasSetValue 7]\<rparr>)
   \<and> PropertyLinkSub_Restore face_world loud_reader
         [Element ''LinkSub'' [(''value'', Text ''Gone''), (''count'', Number 1)]
            [Element ''Sub'' [(''value'', Text ''Face1'')] []]] face_of_box no_globals
       = Inr (face_of_box\<lparr>pcLinkSub := None, cSubList := [], ShadowSubList := []\<rparr>,
              \<lparr>registry = no_registrations,
               trace = [lost_link ''Gone'', AboutToSetValue 8, RemoveBackLink 5 6, Assign 8,
                        HasSetValue 8]\<rparr>)
   \<and> PropertyLinkSub_Restore face_world loud_reader
         [Element ''LinkSub'' [(''value'', Text ''Gone''), (''count'', Number 2)]
            [Element ''Sub'' [(''value'', Text ''Face1'')] []]] face_of_box no_globals
       = Inl XMLError
   \<and> PropertyLinkSub_Restore face_world loud_reader
         [Element ''LinkSub'' [(''value'', Text ''Gone''), (''count'', Number (- 1))] []]
         face_of_box no_globals
       = Inl LengthError"
proof -
  let ?link = "Element ''Link'' [(''value'', Text ''Gone'')] []"
  let ?sub = "Element ''LinkSub'' [(''value'', Text ''Gone''), (''count'', Number 1)]
            [Element ''Sub'' [(''value'', Text ''Face1'')] []]"
  let ?short = "Element ''LinkSub'' [(''value'', Text ''Gone''), (''count'', Number 2)]
            [Element ''Sub'' [(''value'', Text ''Face1'')] []]"
  let ?neg = "Element ''LinkSub'' [(''value'', Text ''Gone''), (''count'', Number (- 1))] []"
  have gone: "getObject face_world 0 ''Gone'' = None"
    by (simp add: face_world_def)
  have h1: "readElement ''Link'' [?link] = Some (?link, [])
      \<and> getAttribute ?link ''value'' = Some ''Gone'' \<and> getName loud_reader ''Gone'' \<noteq> []
      \<and> container link_to_box = Some 6
      \<and> (case getDocument face_world 6 of None \<Rightarrow> None
          | Some d \<Rightarrow> getObject face_world d (getName loud_reader ''Gone'')) = None"
    by (simp add: readElement_def getAttribute_def loud_reader_def link_to_box_def
        face_world_def)
  have h2: "readElement ''LinkSub'' [x] = Some (x, [])
      \<and> getAttribute x ''value'' = Some ''Gone'' \<and> getName loud_reader ''Gone'' \<noteq> []
      \<and> getAttributeAsInteger x ''count'' = Some k
      \<and> container face_of_box = Some 6
      \<and> (case getDocument face_world 6 of None \<Rightarrow> None
          | Some d \<Rightarrow> getObject face_world d (getName loud_reader ''Gone'')) = None"
    if "x = Element ''LinkSub'' [(''value'', Text ''Gone''), (''count'', Number k)] inner"
    for x k inner
    using that
    by (simp add: readElement_def getAttribute_def getAttributeAsInteger_def loud_reader_def
        face_of_box_def face_world_def)
  have one: "restore_subs loud_reader 0 (nat 1) (inner_of ?sub) False
          = Some ([''Face1''], [\<lparr>newName = [], oldName = ''Face1''\<rparr>], [], False)"
    by (simp add: restore_sub_def readElement_def getAttribute_def hasAttribute_def
        importSubName_def loud_reader_def)
  have two: "restore_subs loud_reader 0 (nat 2) (inner_of ?short) False = None"
    by (simp add: numeral_2_eq_2 restore_sub_def readElement_def getAttribute_def
        hasAttribute_def importSubName_def loud_reader_def)
  note t = restore_dangling_target [where input = "[?link]" and e = ?link and rest = "[]"
      and v = "''Gone''" and rd = loud_reader and p = link_to_box and parent = 6
      and w = face_world and g = no_globals]
  note u = restore_dangling_target [where rest = "[]"
      and v = "''Gone''" and rd = loud_reader and parent = 6 and w = face_world
      and q = face_of_box and g = no_globals, THEN conjunct2, THEN mp]
  have a: "PropertyLink_Restore face_world loud_reader [?link] link_to_box no_globals
       = Inr (link_to_box\<lparr>pcLink := None\<rparr>,
              \<lparr>registry = no_registrations,
               trace = [lost_link_quoted ''Gone'', AboutToSetValue 7, RemoveBackLink 5 6,
                        Assign 7, HasSetValue 7]\<rparr>)"
    using t [THEN conjunct1, THEN mp, OF h1]
    by (simp add: loud_reader_def link_to_box_def face_world_def emit_def swap_backlink_def
        no_globals_def)
  have b: "PropertyLinkSub_Restore face_world loud_reader [?sub] face_of_box no_globals
       = Inr (face_of_box\<lparr>pcLinkSub := None, cSubList := [], ShadowSubList := []\<rparr>,
              \<lparr>registry = no_registrations,
               trace = [lost_link ''Gone'', AboutToSetValue 8, RemoveBackLink 5 6, Assign 8,
                        HasSetValue 8]\<rparr>)"
    using u [OF h2 [OF refl], of 1 "[Element ''Sub'' [(''value'', Text ''Face1'')] []]"] one
    by (simp add: loud_reader_def face_of_box_def face_world_def emit_def swap_backlink_def
        no_globals_def checkLabelReferences_def unregisterLabelReferences_def
        unregisterElementReference_def no_registrations_def fun_upd_idem)
  have c: "PropertyLinkSub_Restore face_world loud_reader [?short] face_of_box no_globals
       = Inl XMLError"
    using u [OF h2 [OF refl], of 2 "[Element ''Sub'' [(''value'', Text ''Face1'')] []]"] two
    by simp
  have d: "PropertyLinkSub_Restore face_world loud_reader [?neg] face_of_box no_globals
       = Inl LengthError"
    using u [OF h2 [OF refl], of "- 1" "[]"] by simp
  from gone a b c d show ?thesis by (intro conjI)
qed

subsection \<open>Saving, restoring and saving again\<close>

lemma restore_sub_save_sub:
  assumes "\<not> doNameMapping rd"
  shows "restore_sub rd (save_sub w False link csub shadow) rl
         = Some (fst (decoded csub shadow), snd (decoded csub shadow), False, rl)"
  using assms
  by (simp add: restore_sub_def save_sub_def decoded_def getAttribute_def hasAttribute_def
      importSubName_def Let_def)

lemma register_keeps_encoding:
  assumes "keeps_encoding w l csub shadow" "isAttachedToDocument w l"
    and "PropertyLinkBase_registerElementReference w this (Some l)
           (fst (decoded csub shadow)) (snd (decoded csub shadow)) g = (v2, sh2, g2)"
  shows "save_sub w False link2 v2 sh2 = save_sub w False link1 csub shadow \<and> trace g2 = trace g"
proof -
  let ?v = "if oldName shadow = [] then csub else oldName shadow"
  let ?r = "resolveElement w l ?v None"
  consider (empty) "?v = []"
    | (attr) "?v \<noteq> []" "csub \<noteq> [] \<and> (?v \<noteq> csub \<or> newName shadow \<noteq> [])"
    | (plain) "?v \<noteq> []" "\<not> (csub \<noteq> [] \<and> (?v \<noteq> csub \<or> newName shadow \<noteq> []))"
        "(ret ?r = None \<or> geo ?r = None \<or> element ?r = None \<or> element ?r = Some []
              \<or> newName (elementName ?r) = [])
             \<and> (oldName (elementName ?r) = [] \<or> oldName (elementName ?r) = ?v)"
    using assms(1) unfolding keeps_encoding_def Let_def by blast
  then show ?thesis
  proof cases
    case empty
    then have "decoded csub shadow = ([], \<lparr>newName = [], oldName = []\<rparr>)" "csub = []"
      "oldName shadow = []"
      by (auto simp: decoded_def split: if_splits)
    with assms(3) show ?thesis
      by (auto simp: PropertyLinkBase_registerElementReference_def save_sub_def)
  next
    case attr
    then have new: "newName (snd (decoded csub shadow)) \<noteq> []"
      and v: "fst (decoded csub shadow) \<noteq> []"
      by (auto simp: decoded_def Let_def split: if_splits)
    with assms(2,3) have same: "v2 = fst (decoded csub shadow)" "sh2 = snd (decoded csub shadow)"
      and tr: "trace g2 = trace g"
      by (auto simp: PropertyLinkBase_registerElementReference_def Let_def
          split: option.splits if_splits)
    from attr have "save_sub w False link2 (fst (decoded csub shadow)) (snd (decoded csub shadow))
        = save_sub w False link1 csub shadow"
      by (auto simp: decoded_def save_sub_def Let_def split: if_splits)
    with same tr show ?thesis by simp
  next
    case plain
    from plain(1,2) have dec: "decoded csub shadow = (?v, \<lparr>newName = [], oldName = ?v\<rparr>)"
      by (auto simp: decoded_def Let_def)
    have sn: "subname_of \<lparr>newName = [], oldName = ?v\<rparr> ?v = ?v"
      using plain(1) by (simp add: subname_of_def)
    from assms(3) plain(1) assms(2) dec
    have upd: "snd (PropertyLinkBase_updateElementReference w this None (Some l) ?v
                 \<lparr>newName = [], oldName = ?v\<rparr> False False g) = (v2, sh2, g2)"
      by (simp add: PropertyLinkBase_registerElementReference_def)
    have res: "v2 = ?v \<and> newName sh2 = [] \<and> (oldName sh2 = [] \<or> oldName sh2 = ?v)
               \<and> trace g2 = trace g"
      using upd plain(3) assms(2) sn
      by (auto simp: PropertyLinkBase_updateElementReference_def Let_def
          split: option.splits if_splits)
    have orig: "save_sub w False link1 csub shadow = Element ''Sub'' [(''value'', Text ?v)] []"
      using plain(1,2) by (auto simp: save_sub_def Let_def)
    have "save_sub w False link2 v2 sh2 = Element ''Sub'' [(''value'', Text ?v)] []"
      using res plain(1) by (auto simp: save_sub_def Let_def)
    with orig res show ?thesis by simp
  qed
qed


lemma readElement_head: "tag_of e = t \<Longrightarrow> readElement t (e # rest) = Some (e, rest)"
  by (simp add: readElement_def)

lemma tag_of_save_sub: "tag_of (save_sub w ex link csub shadow) = ''Sub''"
  by (simp add: save_sub_def Let_def)

lemma restore_subs_saved:
  assumes "\<not> doNameMapping rd"
  shows "restore_subs rd i (length es) (map (\<lambda>(c, s). save_sub w False link c s) es) rl
         = Some (map (\<lambda>(c, s). fst (decoded c s)) es, map (\<lambda>(c, s). snd (decoded c s)) es, [], rl)"
proof (induction es arbitrary: i)
  case Nil
  show ?case by simp
next
  case (Cons a es)
  obtain c s where a: "a = (c, s)" by (cases a)
  show ?case
    unfolding a
    by (simp add: readElement_head [OF tag_of_save_sub] restore_sub_save_sub [OF assms] Cons.IH)
qed

lemma register_loop_keeps_encoding:
  assumes "isAttachedToDocument w l"
    and "\<forall>(c, s) \<in> set es. keeps_encoding w l c s"
  shows "\<exists>subs' shs' g'.
           registerElementReference_loop w this (Some l)
             (map (\<lambda>(c, s). fst (decoded c s)) es) (map (\<lambda>(c, s). snd (decoded c s)) es) g
           = Inr (subs', shs', g')
           \<and> length subs' = length shs'
           \<and> map (\<lambda>(c, s). save_sub w False link2 c s) (zip subs' shs')
             = map (\<lambda>(c, s). save_sub w False link1 c s) es"
  using assms(2)
proof (induction es arbitrary: g)
  case Nil
  show ?case by simp
next
  case (Cons a es)
  obtain c s where a: "a = (c, s)" by (cases a)
  obtain v2 sh2 g2 where reg:
    "PropertyLinkBase_registerElementReference w this (Some l)
       (fst (decoded c s)) (snd (decoded c s)) g = (v2, sh2, g2)"
    by (metis prod_cases3)
  from Cons.prems a have k: "keeps_encoding w l c s" by simp
  from register_keeps_encoding [OF k assms(1) reg]
  have enc: "save_sub w False link2 v2 sh2 = save_sub w False link1 c s" by simp
  from Cons.prems have "\<forall>(c, s) \<in> set es. keeps_encoding w l c s" by simp
  from Cons.IH [OF this, of g2] obtain subs' shs' g' where
    rest: "registerElementReference_loop w this (Some l)
             (map (\<lambda>(c, s). fst (decoded c s)) es) (map (\<lambda>(c, s). snd (decoded c s)) es) g2
           = Inr (subs', shs', g')"
    and len: "length subs' = length shs'"
    and encs: "map (\<lambda>(c, s). save_sub w False link2 c s) (zip subs' shs')
             = map (\<lambda>(c, s). save_sub w False link1 c s) es"
    by blast
  show ?case
    unfolding a
    using reg rest len encs enc by simp
qed

text \<open>
  C7.  Serialization round trip of \<open>PropertyLinkSub\<close>.  Let the property and the property
  that is restored into have the same owner, which is in a document and is not being
  exported; let the target be attached, have a non-empty name that the reader does not
  rename and that the owner's document resolves to the target, and be in the owner's
  document (or external links be allowed); let the reader map no names, the subnames and
  the shadow pairs have the same length, and every subname keep its encoding
  (\<open>keeps_encoding\<close>: its saved value is empty, or it is saved with a \<open>shadowed\<close> or a
  \<open>shadow\<close> attribute, or the resolver has nothing new for it).  Then \<open>Save\<close> succeeds, and
  \<open>Save\<close>, \<open>Restore\<close> and \<open>Save\<close> again give the very same element: tag, attributes in
  their order, and \<open>Sub\<close> elements.
\<close>

theorem save_restore_save:
  assumes own: "container p = Some parent" "container into = Some parent"
    and doc: "getDocument w parent = Some d"
    and plain: "\<not> isExporting w parent" "\<not> doNameMapping rd"
    and link: "pcLinkSub p = Some l" "isAttachedToDocument w l"
    and name: "getExportName w l \<noteq> []" "getName rd (getExportName w l) = getExportName w l"
      "getObject w d (getExportName w l) = Some l"
    and same_doc: "LinkAllowExternal into \<or> getDocument w l = Some d"
    and len: "length (cSubList p) = length (ShadowSubList p)"
    and keep: "\<forall>(c, s) \<in> set (zip (cSubList p) (ShadowSubList p)). keeps_encoding w l c s"
  shows "\<exists>x. PropertyLinkSub_Save w p = Inr x \<and> reencode w rd p into g = Inr x"
proof -
  let ?es = "zip (cSubList p) (ShadowSubList p)"
  let ?inner = "map (\<lambda>(c, s). save_sub w False (Some l) c s) ?es"
  let ?x = "Element ''LinkSub''
              [(''value'', Text (getExportName w l)),
               (''count'', Number (int (length (cSubList p))))]
              ?inner"
  let ?vs = "map (\<lambda>(c, s). fst (decoded c s)) ?es"
  let ?ss = "map (\<lambda>(c, s). snd (decoded c s)) ?es"
  have save: "PropertyLinkSub_Save w p = Inr ?x"
    using own(1) plain(1) link len by (simp add: PropertyLinkSub_Save_def)
  have n: "length ?es = length (cSubList p)" using len by simp
  have subs: "restore_subs rd 0 (length (cSubList p)) ?inner False = Some (?vs, ?ss, [], False)"
    using restore_subs_saved [OF plain(2), of 0 ?es w "Some l" False] unfolding n .
  let ?p1 = "into\<lparr>LinkRestoreLabel := False\<rparr>"
  let ?g1 = "emit ([AboutToSetValue (self into)]
                   @ swap_backlink w (pcScope into) parent (pcLinkSub into) (Some l)
                   @ [Assign (self into)]) g"
  let ?g0 = "?g1\<lparr>registry := unregisterElementReference (self into) (registry ?g1)\<rparr>"
  from register_loop_keeps_encoding [OF link(2) keep, of "self into" ?g0 "Some l" "Some l"]
  obtain subs' shs' g' where
    loop: "registerElementReference_loop w (self into) (Some l) ?vs ?ss ?g0 = Inr (subs', shs', g')"
    and len': "length subs' = length shs'"
    and encs: "map (\<lambda>(c, s). save_sub w False (Some l) c s) (zip subs' shs') = ?inner"
    by blast
  have ck: "\<not> (\<not> LinkAllowExternal into \<and> getDocument w parent \<noteq> getDocument w l)"
    using same_doc doc by auto
  let ?p2 = "?p1\<lparr>pcLinkSub := Some l, cSubList := subs', ShadowSubList := shs'\<rparr>"
  have "\<exists>g2. PropertyLinkSub_setValue w (Some l) ?vs ?ss ?p1 (emit [] g) = Inr (?p2, g2)"
    using own(2) link(2) ck loop
    by (simp add: PropertyLinkSub_setValue_def PropertyLinkSub_onContainerRestored_def Let_def
        emit_def)
  then obtain g2 where
    setv: "PropertyLinkSub_setValue w (Some l) ?vs ?ss ?p1 (emit [] g) = Inr (?p2, g2)" ..
  have restore: "PropertyLinkSub_Restore w rd [?x] into g = Inr (?p2\<lparr>mapped := []\<rparr>, g2)"
    using own(2) doc name subs setv
    by (simp add: PropertyLinkSub_Restore_def readElement_head getAttribute_def
        getAttributeAsInteger_def Let_def)
  have enc_len: "length subs' = length (cSubList p)"
    using arg_cong [OF encs, of length] len' len by simp
  have save2: "PropertyLinkSub_Save w (?p2\<lparr>mapped := []\<rparr>) = Inr ?x"
    using own(2) plain(1) link(2) len' encs enc_len by (simp add: PropertyLinkSub_Save_def)
  show ?thesis
    using save restore save2 by (simp add: reencode_def)
qed

theorem save_restore_save_witness:
  "PropertyLinkSub_Save face_world face_and_edge
     = Inr (Element ''LinkSub'' [(''value'', Text ''Box''), (''count'', Number 2)]
              [Element ''Sub'' [(''value'', Text ''Face1''), (''shadow'', Text '';g.Face1'')] [],
               Element ''Sub'' [(''value'', Text ''Edge2'')] []])
   \<and> reencode face_world loud_reader face_and_edge unset_sub no_globals
     = Inr (Element ''LinkSub'' [(''value'', Text ''Box''), (''count'', Number 2)]
              [Element ''Sub'' [(''value'', Text ''Face1''), (''shadow'', Text '';g.Face1'')] [],
               Element ''Sub'' [(''value'', Text ''Edge2'')] []])"
  using save_restore_save [of face_and_edge 6 unset_sub face_world 0 loud_reader 5 no_globals]
  by (simp add: PropertyLinkSub_Save_def face_and_edge_def face_of_box_def unset_sub_def
      face_world_def loud_reader_def save_sub_def no_shadow_def keeps_encoding_def
      face_resolve_def Let_def)

text \<open>
  Without the condition on the subnames the round trip changes the encoding: a property
  whose subname \<open>Face1\<close> has an empty shadow pair (it was set while its owner was being
  restored) is saved without a \<open>shadow\<close> attribute; \<open>Restore\<close> registers the element
  reference and finds the new-style name, so the second \<open>Save\<close> writes the attribute.  The
  target is attached and its name resolves.
\<close>

theorem reencode_adds_shadow:
  "isAttachedToDocument face_world 5 \<and> getObject face_world 0 ''Box'' = Some 5
   \<and> PropertyLinkSub_setValue restoring_world (Some 5) [''Face1''] [] unset_sub no_globals
     = Inr (legacy_face,
            \<lparr>registry = no_registrations,
             trace = [AboutToSetValue 8, AddBackLink 5 6, Assign 8, HasSetValue 8]\<rparr>)
   \<and> PropertyLinkSub_Save face_world legacy_face
     = Inr (Element ''LinkSub'' [(''value'', Text ''Box''), (''count'', Number 1)]
              [Element ''Sub'' [(''value'', Text ''Face1'')] []])
   \<and> reencode face_world loud_reader legacy_face unset_sub no_globals
     = Inr (Element ''LinkSub'' [(''value'', Text ''Box''), (''count'', Number 1)]
              [Element ''Sub'' [(''value'', Text ''Face1''), (''shadow'', Text '';g.Face1'')] []])"
proof -
  have attached: "isAttachedToDocument face_world 5 \<and> getObject face_world 0 ''Box'' = Some 5"
    by (simp add: face_world_def)
  have set_legacy:
    "PropertyLinkSub_setValue restoring_world (Some 5) [''Face1''] [] unset_sub no_globals
     = Inr (legacy_face,
            \<lparr>registry = no_registrations,
             trace = [AboutToSetValue 8, AddBackLink 5 6, Assign 8, HasSetValue 8]\<rparr>)"
    by (simp add: PropertyLinkSub_setValue_def PropertyLinkSub_updateElementReference_def
        updateLinkReference_def restoring_world_def face_world_def unset_sub_def legacy_face_def
        resize_shadows_def swap_backlink_def checkLabelReferences_def unregisterLabelReferences_def
        registerLabelReferences_def unregisterElementReference_def no_registrations_def
        fun_upd_idem emit_def no_globals_def Let_def)
  have save: "PropertyLinkSub_Save face_world legacy_face
     = Inr (Element ''LinkSub'' [(''value'', Text ''Box''), (''count'', Number 1)]
              [Element ''Sub'' [(''value'', Text ''Face1'')] []])"
    by (simp add: PropertyLinkSub_Save_def legacy_face_def unset_sub_def face_world_def
        save_sub_def no_shadow_def)
  have again: "reencode face_world loud_reader legacy_face unset_sub no_globals
     = Inr (Element ''LinkSub'' [(''value'', Text ''Box''), (''count'', Number 1)]
              [Element ''Sub'' [(''value'', Text ''Face1''), (''shadow'', Text '';g.Face1'')] []])"
    by (simp add: reencode_def PropertyLinkSub_Save_def legacy_face_def unset_sub_def
        face_world_def save_sub_def no_shadow_def PropertyLinkSub_Restore_def readElement_def
        getAttribute_def getAttributeAsInteger_def hasAttribute_def restore_sub_def
        importSubName_def loud_reader_def PropertyLinkSub_setValue_def
        PropertyLinkSub_onContainerRestored_def PropertyLinkBase_registerElementReference_def
        PropertyLinkBase_updateElementReference_def subname_of_def face_resolve_def
        swap_backlink_def emit_def no_globals_def Let_def search_by_geometry_def
        adopt_element_def patch_sub_def string_rfind_def)
  from attached set_legacy save again show ?thesis by (intro conjI) simp_all
qed

subsection \<open>The calls made by the setters\<close>

text \<open>With \<open>notify = false\<close> the update and the registration of the element references add
  nothing but warnings to the trace.\<close>

lemma search_by_geometry_warns:
  "search_by_geometry w feature ge ob subname el shadow en reverse = (missing, en', ws)
   \<Longrightarrow> list_all is_warning ws"
  by (auto simp: search_by_geometry_def Let_def split: list.splits if_splits)

lemma adopt_element_warns:
  "adopt_element w sub shadow en missing reverse = (sub', shadow', ws) \<Longrightarrow> list_all is_warning ws"
  by (auto simp: adopt_element_def Let_def split: if_splits)

lemma updateElementReference_trace:
  assumes "PropertyLinkBase_updateElementReference w this feature ob sub shadow reverse False g
           = (changed, sub', shadow', g')"
  shows "\<exists>ws. trace g' = trace g @ ws \<and> list_all is_warning ws"
  using assms
  by (auto simp: PropertyLinkBase_updateElementReference_def Let_def emit_def
      split: option.splits if_splits prod.splits
      dest: search_by_geometry_warns adopt_element_warns)

lemma registerElementReference_trace:
  assumes "PropertyLinkBase_registerElementReference w this ob sub shadow g = (sub', shadow', g')"
  shows "\<exists>ws. trace g' = trace g @ ws \<and> list_all is_warning ws"
proof (cases "\<exists>l. ob = Some l \<and> isAttachedToDocument w l \<and> sub \<noteq> [] \<and> newName shadow = []")
  case True
  then have "snd (PropertyLinkBase_updateElementReference w this None ob sub shadow False False g)
             = (sub', shadow', g')"
    using assms by (auto simp: PropertyLinkBase_registerElementReference_def)
  then obtain changed where
    "PropertyLinkBase_updateElementReference w this None ob sub shadow False False g
     = (changed, sub', shadow', g')"
    by (cases "PropertyLinkBase_updateElementReference w this None ob sub shadow False False g")
      auto
  then show ?thesis by (rule updateElementReference_trace)
next
  case False
  then have "trace g' = trace g"
    using assms
    by (auto simp: PropertyLinkBase_registerElementReference_def Let_def
        split: option.splits if_splits)
  then show ?thesis by simp
qed

lemma sublist_update_loop_trace:
  "sublist_update_loop w this feature reverse notify touched lnks subs shadows g
   = Inr (t, subs', shadows', g') \<Longrightarrow> \<not> notify
   \<Longrightarrow> \<exists>ws. trace g' = trace g @ ws \<and> list_all is_warning ws"
proof (induction w this feature reverse notify touched lnks subs shadows g
    arbitrary: t subs' shadows' g' rule: sublist_update_loop.induct)
  case (4 w this feature reverse notify touched link lnks sub subs shadow shadows g)
  from "4.prems"(2) have n: "notify = False" by simp
  obtain changed s1 sh1 g1 where
    u: "PropertyLinkBase_updateElementReference w this feature link sub shadow reverse False g
        = (changed, s1, sh1, g1)"
    by (metis prod_cases4)
  from "4.prems"(1) u n obtain t2 ss2 shs2 where
    r: "sublist_update_loop w this feature reverse notify (touched \<or> changed) lnks subs shadows g1
        = Inr (t2, ss2, shs2, g')"
    by (auto split: sum.splits)
  from updateElementReference_trace [OF u] obtain ws1 where
    1: "trace g1 = trace g @ ws1" "list_all is_warning ws1" by blast
  from u n have u': "(changed, s1, sh1, g1)
       = PropertyLinkBase_updateElementReference w this feature link sub shadow reverse
           (notify \<and> \<not> touched) g" by simp
  from "4.IH" [OF u' refl refl r "4.prems"(2)] obtain ws2 where
    2: "trace g' = trace g1 @ ws2" "list_all is_warning ws2" by auto
  from 1 2 show ?case by auto
qed auto

lemma sublist_register_loop_trace:
  "sublist_register_loop w this lnks subs shadows g = Inr (subs', shadows', g')
   \<Longrightarrow> \<exists>ws. trace g' = trace g @ ws \<and> list_all is_warning ws"
proof (induction w this lnks subs shadows g arbitrary: subs' shadows' g'
    rule: sublist_register_loop.induct)
  case (4 w this link lnks sub subs shadow shadows g)
  obtain s1 sh1 g1 where
    u: "PropertyLinkBase_registerElementReference w this link sub shadow g = (s1, sh1, g1)"
    by (metis prod_cases3)
  from "4.prems" u obtain ss2 shs2 where
    r: "sublist_register_loop w this lnks subs shadows g1 = Inr (ss2, shs2, g')"
    by (auto split: sum.splits)
  from registerElementReference_trace [OF u] obtain ws1 where
    1: "trace g1 = trace g @ ws1" "list_all is_warning ws1" by blast
  from "4.IH" [OF u [symmetric] refl r] obtain ws2 where
    2: "trace g' = trace g1 @ ws2" "list_all is_warning ws2" by auto
  from 1 2 show ?case by auto
qed auto

lemma sublist_updateElementReference_trace:
  assumes "PropertyLinkSubList_updateElementReference w None reverse False p g = Inr (p', g')"
  shows "\<exists>ws. trace g' = trace g @ ws \<and> list_all is_warning ws"
proof -
  let ?g0 = "g\<lparr>registry := unregisterElementReference (self p) (registry g)\<rparr>"
  show ?thesis
  proof (cases "case container p of None \<Rightarrow> False | Some ow \<Rightarrow> isRestoring w ow")
    case True
    with assms have "g' = ?g0"
      by (simp add: PropertyLinkSubList_updateElementReference_def Let_def)
    then show ?thesis by simp
  next
    case False
    with assms obtain t ss shs g1 where
      l: "sublist_update_loop w (self p) None reverse False False (sublist_lValueList p)
            (sublist_lSubList p) (resize_shadows (length (sublist_lSubList p)) []) ?g0
          = Inr (t, ss, shs, g1)"
      and g': "trace g' = trace g1"
      by (auto simp: PropertyLinkSubList_updateElementReference_def Let_def emit_def
          split: sum.splits if_splits option.splits)
    from sublist_update_loop_trace [OF l] g' show ?thesis by simp
  qed
qed

lemma sublist_onContainerRestored_trace:
  assumes "PropertyLinkSubList_onContainerRestored w p g = Inr (p', g')"
  shows "\<exists>ws. trace g' = trace g @ ws \<and> list_all is_warning ws"
proof -
  from assms obtain ss shs where
    "sublist_register_loop w (self p) (sublist_lValueList p) (sublist_lSubList p)
       (sublist_ShadowSubList p) (g\<lparr>registry := unregisterElementReference (self p) (registry g)\<rparr>)
     = Inr (ss, shs, g')"
    by (auto simp: PropertyLinkSubList_onContainerRestored_def split: sum.splits)
  from sublist_register_loop_trace [OF this] show ?thesis by simp
qed

lemma sublist_setValues_trace:
  assumes "PropertyLinkSubList_setValues w lValue lSubNames shadows q g = Inr (q', g')"
  shows "\<exists>ws. list_all is_warning ws
           \<and> trace g' = trace g
               @ replace_backlinks w (pcScope q) (container q) (sublist_lValueList q) lValue
               @ [AboutToSetValue (self q), Assign (self q)] @ ws @ [HasSetValue (self q)]"
proof -
  let ?g1 = "emit (replace_backlinks w (pcScope q) (container q) (sublist_lValueList q) lValue
                   @ [AboutToSetValue (self q), Assign (self q)]) g"
  let ?p1 = "q\<lparr>sublist_lValueList := lValue, sublist_lSubList := lSubNames\<rparr>"
  from assms obtain p2 g2 where
    mid: "(if length shadows = length lSubNames
           then PropertyLinkSubList_onContainerRestored w (?p1\<lparr>sublist_ShadowSubList := shadows\<rparr>) ?g1
           else PropertyLinkSubList_updateElementReference w None False False ?p1 ?g1)
          = Inr (p2, g2)"
    and g': "trace g' = trace g2 @ [HasSetValue (self q)]"
    by (auto simp: PropertyLinkSubList_setValues_def Let_def emit_def
        split: option.splits if_splits sum.splits)
  have "\<exists>ws. trace g2 = trace ?g1 @ ws \<and> list_all is_warning ws"
  proof (cases "length shadows = length lSubNames")
    case True
    with mid show ?thesis by (auto dest: sublist_onContainerRestored_trace)
  next
    case False
    with mid show ?thesis by (auto dest: sublist_updateElementReference_trace)
  qed
  then obtain ws where "trace g2 = trace ?g1 @ ws" "list_all is_warning ws" by blast
  with g' show ?thesis by (auto simp: emit_def)
qed

lemma sublist_setValues_cstr_trace:
  assumes "PropertyLinkSubList_setValues_cstr w lValue lSubNames q g = Inr (q', g')"
  shows "\<exists>ws. list_all is_warning ws
           \<and> trace g' = trace g
               @ replace_backlinks w (pcScope q) (container q) (sublist_lValueList q) lValue
               @ [AboutToSetValue (self q), Assign (self q)] @ ws @ [HasSetValue (self q)]"
proof -
  let ?g1 = "emit (replace_backlinks w (pcScope q) (container q) (sublist_lValueList q) lValue
                   @ [AboutToSetValue (self q), Assign (self q)]) g"
  from assms obtain p1 p2 g2 where
    mid: "PropertyLinkSubList_updateElementReference w None False False p1 ?g1 = Inr (p2, g2)"
    and g': "trace g' = trace g2 @ [HasSetValue (self q)]"
    by (auto simp: PropertyLinkSubList_setValues_cstr_def Let_def emit_def
        split: option.splits if_splits sum.splits)
  from sublist_updateElementReference_trace [OF mid]
  obtain ws where "trace g2 = trace ?g1 @ ws" "list_all is_warning ws" by blast
  with g' show ?thesis by (auto simp: emit_def)
qed


lemma updateLinkReference_loop_trace:
  "updateLinkReference_loop w this feature link reverse notify touched subs shadows g
   = (t, subs', shadows', g') \<Longrightarrow> \<not> notify
   \<Longrightarrow> \<exists>ws. trace g' = trace g @ ws \<and> list_all is_warning ws"
proof (induction w this feature link reverse notify touched subs shadows g
    arbitrary: t subs' shadows' g' rule: updateLinkReference_loop.induct)
  case (1 w this feature link reverse notify touched sub subs shadow shadows g)
  from "1.prems"(2) have n: "notify = False" by simp
  obtain changed s1 sh1 g1 where
    u: "PropertyLinkBase_updateElementReference w this feature link sub shadow reverse False g
        = (changed, s1, sh1, g1)"
    by (metis prod_cases4)
  obtain t2 ss2 shs2 g2 where
    r: "updateLinkReference_loop w this feature link reverse notify (touched \<or> changed) subs
          shadows g1 = (t2, ss2, shs2, g2)"
    by (metis prod_cases4)
  from "1.prems"(1) u r n have g2: "g2 = g'" by simp
  from updateElementReference_trace [OF u] obtain ws1 where
    1: "trace g1 = trace g @ ws1" "list_all is_warning ws1" by blast
  from u n have u': "(changed, s1, sh1, g1)
       = PropertyLinkBase_updateElementReference w this feature link sub shadow reverse
           (notify \<and> \<not> touched) g" by simp
  from "1.IH" [OF u' refl refl r "1.prems"(2)] obtain ws2 where
    2: "trace g2 = trace g1 @ ws2" "list_all is_warning ws2" by auto
  from 1 2 g2 show ?case by auto
qed auto

lemma registerElementReference_loop_trace:
  "registerElementReference_loop w this link subs shadows g = Inr (subs', shadows', g')
   \<Longrightarrow> \<exists>ws. trace g' = trace g @ ws \<and> list_all is_warning ws"
proof (induction w this link subs shadows g arbitrary: subs' shadows' g'
    rule: registerElementReference_loop.induct)
  case (3 w this link sub subs shadow shadows g)
  obtain s1 sh1 g1 where
    u: "PropertyLinkBase_registerElementReference w this link sub shadow g = (s1, sh1, g1)"
    by (metis prod_cases3)
  from "3.prems" u obtain ss2 shs2 where
    r: "registerElementReference_loop w this link subs shadows g1 = Inr (ss2, shs2, g')"
    by (auto split: sum.splits)
  from registerElementReference_trace [OF u] obtain ws1 where
    1: "trace g1 = trace g @ ws1" "list_all is_warning ws1" by blast
  from "3.IH" [OF u [symmetric] refl r] obtain ws2 where
    2: "trace g' = trace g1 @ ws2" "list_all is_warning ws2" by auto
  from 1 2 show ?case by auto
qed auto

lemma PropertyLinkSub_onContainerRestored_trace:
  assumes "PropertyLinkSub_onContainerRestored w p g = Inr (p', g')"
  shows "\<exists>ws. trace g' = trace g @ ws \<and> list_all is_warning ws"
proof -
  let ?g0 = "g\<lparr>registry := unregisterElementReference (self p) (registry g)\<rparr>"
  show ?thesis
  proof (cases "\<exists>l. pcLinkSub p = Some l \<and> isAttachedToDocument w l")
    case True
    with assms obtain ss shs where
      "registerElementReference_loop w (self p) (pcLinkSub p) (cSubList p) (ShadowSubList p) ?g0
       = Inr (ss, shs, g')"
      by (auto simp: PropertyLinkSub_onContainerRestored_def Let_def split: sum.splits)
    from registerElementReference_loop_trace [OF this] show ?thesis by simp
  next
    case False
    with assms have "g' = ?g0"
      by (auto simp: PropertyLinkSub_onContainerRestored_def Let_def split: option.splits)
    then show ?thesis by simp
  qed
qed

lemma PropertyLinkSub_updateElementReference_trace:
  assumes "PropertyLinkSub_updateElementReference w None reverse False p g = (p', g')"
  shows "\<exists>ws. trace g' = trace g @ ws \<and> list_all is_warning ws"
proof -
  let ?g0 = "g\<lparr>registry := unregisterElementReference (self p) (registry g)\<rparr>"
  obtain t ss ms shs g1 where
    u: "updateLinkReference w p None reverse False (pcLinkSub p) (cSubList p) (mapped p)
          (ShadowSubList p) g = (t, ss, ms, shs, g1)"
    by (metis prod_cases5)
  with assms have g': "g' = g1"
    by (simp add: PropertyLinkSub_updateElementReference_def)
  show ?thesis
  proof (cases "\<exists>l. pcLinkSub p = Some l \<and> isAttachedToDocument w l
                 \<and> \<not> (case container p of None \<Rightarrow> False | Some ow \<Rightarrow> isRestoring w ow)")
    case True
    obtain t1 ss1 shs1 g2 where
      l: "updateLinkReference_loop w (self p) None (pcLinkSub p) reverse False False (cSubList p)
            (resize_shadows (length (cSubList p)) []) ?g0 = (t1, ss1, shs1, g2)"
      by (metis prod_cases4)
    with u True have "trace g1 = trace g2"
      by (auto simp: updateLinkReference_def Let_def split: if_splits option.splits)
    with updateLinkReference_loop_trace [OF l] g' show ?thesis by simp
  next
    case False
    with u have "g1 = ?g0"
      by (auto simp: updateLinkReference_def Let_def split: option.splits if_splits)
    with g' show ?thesis by simp
  qed
qed

lemma PropertyLinkSub_setValue_trace:
  assumes "PropertyLinkSub_setValue w lValue subs shadows p g = Inr (p', g')"
  shows "\<exists>ws. list_all is_warning ws
           \<and> trace g' = trace g @ [AboutToSetValue (self p)]
               @ (case container p of
                    None \<Rightarrow> []
                  | Some parent \<Rightarrow> swap_backlink w (pcScope p) parent (pcLinkSub p) lValue)
               @ [Assign (self p)] @ ws @ [HasSetValue (self p)]"
proof -
  let ?g1 = "emit ([AboutToSetValue (self p)]
                   @ (case container p of
                        None \<Rightarrow> []
                      | Some parent \<Rightarrow> swap_backlink w (pcScope p) parent (pcLinkSub p) lValue)
                   @ [Assign (self p)]) g"
  let ?p1 = "p\<lparr>pcLinkSub := lValue, cSubList := subs\<rparr>"
  from assms obtain p2 g2 where
    mid: "(if length shadows = length subs
           then PropertyLinkSub_onContainerRestored w (?p1\<lparr>ShadowSubList := shadows\<rparr>) ?g1
           else Inr (PropertyLinkSub_updateElementReference w None False False ?p1 ?g1))
          = Inr (p2, g2)"
    and g': "trace g' = trace g2 @ [HasSetValue (self p)]"
    by (auto simp: PropertyLinkSub_setValue_def Let_def emit_def
        split: if_splits sum.splits prod.splits)
  have "\<exists>ws. trace g2 = trace ?g1 @ ws \<and> list_all is_warning ws"
  proof (cases "length shadows = length subs")
    case True
    with mid show ?thesis by (auto dest: PropertyLinkSub_onContainerRestored_trace)
  next
    case False
    with mid show ?thesis by (auto dest: PropertyLinkSub_updateElementReference_trace)
  qed
  then obtain ws where "trace g2 = trace ?g1 @ ws" "list_all is_warning ws" by blast
  with g' show ?thesis by (auto simp: emit_def)
qed

lemma PropertyLinkList_setValues_trace:
  assumes "PropertyLinkList_setValues w value p g = Inr (p', g')"
  shows "trace g' = trace g
           @ replace_backlinks w (pcScope p) (container p) (list_lValueList p) (list_lValueList p')
           @ [InheritedSetValues (self p) (list_lValueList p')]"
  using assms
  by (auto simp: PropertyLinkList_setValues_def Let_def emit_def split: if_splits)

lemma no_backlinks:
  "sc = Hidden \<or> testStatusDestroy w parent
   \<Longrightarrow> swap_backlink w sc parent old new = []
       \<and> replace_backlinks w sc (Some parent) olds news = []"
  by (auto simp: swap_backlink_def replace_backlinks_def)

lemmas scene_simps =
  face_world_def face_resolve_def no_globals_def no_shadow_def emit_def Let_def
  replace_backlinks_def swap_backlink_def verifyObject_def
  resize_shadows_def subname_of_def search_by_geometry_def adopt_element_def patch_sub_def
  string_rfind_def PropertyLinkBase_updateElementReference_def
  PropertyLinkBase_registerElementReference_def

lemma sublist_run:
  "\<exists>q' g'. PropertyLinkSubList_setValues face_world [Some 5] [''Face1''] [] sublist_of_box
              no_globals = Inr (q', g')
      \<and> trace g' = [RemoveBackLink 5 6, AddBackLink 5 6, AboutToSetValue 9, Assign 9,
                    HasSetValue 9]"
  by (simp add: PropertyLinkSubList_setValues_def PropertyLinkSubList_updateElementReference_def
      sublist_of_box_def scene_simps)

lemma count_list_map_filter_add:
  "count_list (map (\<lambda>b. AddBackLink b pa) (List.map_filter (\<lambda>ob. ob) xs)) (AddBackLink a pa)
   = count_list xs (Some a)"
  by (induction xs) (auto split: option.splits)

lemma count_list_map_filter_remove:
  "count_list (map (\<lambda>b. RemoveBackLink b pa) (List.map_filter (\<lambda>ob. ob) xs))
     (RemoveBackLink a pa)
   = count_list xs (Some a)"
  by (induction xs) (auto split: option.splits)

lemma count_list_other:
  "count_list (map (\<lambda>b. AddBackLink b pa) ys) (RemoveBackLink a pa) = 0"
  "count_list (map (\<lambda>b. RemoveBackLink b pa) ys) (AddBackLink a pa) = 0"
  by (induction ys) auto

lemma count_list_warnings:
  "list_all is_warning ws \<Longrightarrow> count_list ws (AddBackLink a pa) = 0
     \<and> count_list ws (RemoveBackLink a pa) = 0"
  by (induction ws) auto

lemma count_replace_backlinks:
  assumes "\<not> testStatusDestroy w pa" "sc \<noteq> Hidden"
  shows "count_list (replace_backlinks w sc (Some pa) old new) (AddBackLink a pa)
         = count_list new (Some a)"
    and "count_list (replace_backlinks w sc (Some pa) old new) (RemoveBackLink a pa)
         = count_list old (Some a)"
  using assms
  by (simp_all add: replace_backlinks_def count_list_map_filter_add
      count_list_map_filter_remove count_list_other)

lemma sublist_finish_trace:
  assumes "sublist_finish w this p1 g1 = Inr (q', g')"
  shows "\<exists>ws. list_all is_warning ws \<and> trace g' = trace g1 @ ws @ [HasSetValue this]"
proof -
  from assms obtain p2 g2 where
    mid: "PropertyLinkSubList_updateElementReference w None False False p1 g1 = Inr (p2, g2)"
    and g': "trace g' = trace g2 @ [HasSetValue this]"
    by (auto simp: sublist_finish_def emit_def split: sum.splits)
  from sublist_updateElementReference_trace [OF mid]
  obtain ws where "trace g2 = trace g1 @ ws" "list_all is_warning ws" by blast
  with g' show ?thesis by auto
qed

lemma sublist_updateElementReference_targets:
  assumes "PropertyLinkSubList_updateElementReference w feature reverse notify p g = Inr (p', g')"
  shows "sublist_lValueList p' = sublist_lValueList p"
  using assms
  by (auto simp: PropertyLinkSubList_updateElementReference_def Let_def
      split: if_splits sum.splits)

lemma sublist_finish_targets:
  assumes "sublist_finish w this p1 g1 = Inr (q', g')"
  shows "sublist_lValueList q' = sublist_lValueList p1"
  using assms
  by (auto simp: sublist_finish_def split: sum.splits
      dest: sublist_updateElementReference_targets)

lemma sublist_setValue_cstr_trace:
  assumes "PropertyLinkSubList_setValue_cstr w lValue SubName q g = Inr (q', g')"
  shows "\<exists>ws. list_all is_warning ws
           \<and> trace g' = trace g
               @ replace_backlinks w (pcScope q) (container q) (sublist_lValueList q) [lValue]
               @ [AboutToSetValue (self q), Assign (self q)] @ ws @ [HasSetValue (self q)]"
proof -
  let ?g1 = "emit (replace_backlinks w (pcScope q) (container q) (sublist_lValueList q) [lValue]
                   @ [AboutToSetValue (self q), Assign (self q)]) g"
  from assms obtain p1 where "sublist_finish w (self q) p1 ?g1 = Inr (q', g')"
    by (auto simp: PropertyLinkSubList_setValue_cstr_def Let_def
        split: option.splits)
  from sublist_finish_trace [OF this] show ?thesis by (auto simp: emit_def)
qed

lemma sublist_setValue_trace:
  assumes "PropertyLinkSubList_setValue w lValue SubList q g = Inr (q', g')"
  shows "\<exists>ws. list_all is_warning ws
           \<and> trace g' = trace g
               @ replace_backlinks w (pcScope q) (container q) (sublist_lValueList q) [lValue]
               @ [AboutToSetValue (self q), Assign (self q)] @ ws @ [HasSetValue (self q)]"
proof -
  let ?g1 = "emit (replace_backlinks w (pcScope q) (container q) (sublist_lValueList q) [lValue]
                   @ [AboutToSetValue (self q), Assign (self q)]) g"
  from assms obtain p1 where "sublist_finish w (self q) p1 ?g1 = Inr (q', g')"
    by (auto simp: PropertyLinkSubList_setValue_def Let_def split: option.splits)
  from sublist_finish_trace [OF this] show ?thesis by (auto simp: emit_def)
qed

lemma sublist_setValue_stored:
  assumes "PropertyLinkSubList_setValue w lValue SubList q g = Inr (q', g')"
    and "SubList \<noteq> []"
  shows "sublist_lValueList q' = replicate (length SubList) lValue"
proof -
  from assms obtain g1 where
    "sublist_finish w (self q)
       (q\<lparr>sublist_lValueList := replicate (length SubList) lValue, sublist_lSubList := SubList\<rparr>)
       g1 = Inr (q', g')"
    by (auto simp: PropertyLinkSubList_setValue_def Let_def split: option.splits)
  from sublist_finish_targets [OF this] show ?thesis by simp
qed

lemma sublist_addValue_trace:
  assumes "PropertyLinkSubList_addValue w ob subs reset q g = Inr (q', g')"
    and "container q = Some pa" "\<not> testStatusDestroy w pa" "pcScope q \<noteq> Hidden"
  shows "\<exists>ws. list_all is_warning ws
           \<and> trace g' = trace g
               @ (if reset
                  then map (\<lambda>a. RemoveBackLink a pa)
                         (List.map_filter (\<lambda>v. v) (filter (\<lambda>v. v = ob) (sublist_lValueList q)))
                  else [])
               @ (case ob of None \<Rightarrow> [] | Some b \<Rightarrow> [AddBackLink b pa])
               @ [AboutToSetValue (self q), Assign (self q)] @ ws @ [HasSetValue (self q)]"
proof -
  let ?b = "(if reset
                  then map (\<lambda>a. RemoveBackLink a pa)
                         (List.map_filter (\<lambda>v. v) (filter (\<lambda>v. v = ob) (sublist_lValueList q)))
                  else [])
               @ (case ob of None \<Rightarrow> [] | Some b \<Rightarrow> [AddBackLink b pa])"
  from assms obtain p1 where
    "sublist_finish w (self q) p1 (emit (?b @ [AboutToSetValue (self q), Assign (self q)]) g)
     = Inr (q', g')"
    by (auto simp: PropertyLinkSubList_addValue_def Let_def split: option.splits sum.splits)
  from sublist_finish_trace [OF this] show ?thesis by (auto simp: emit_def)
qed

lemma count_list_filter_eq:
  "count_list (filter (\<lambda>v. v = x) xs) y = (if y = x then count_list xs y else 0)"
  by (induction xs) auto

text \<open>
  C2.  The order of the steps of a value-replacing mutation, setter by setter.
  \<open>PropertyLink::setValue\<close> and \<open>PropertyLinkSub::setValue\<close> fire the pre-change hook first,
  then remove the backlink of the old target and add the one of the new target, then
  install the new value, and fire the post-change hook last.  The setters of
  \<open>PropertyLinkSubList\<close>, which are \<open>setValues\<close> with the lists moved in, \<open>setValues\<close> with C
  strings, \<open>setValue\<close> with a C string and \<open>setValue\<close> with a list of subnames, make the
  backlink calls first, all removals and then the additions, fire the pre-change hook
  only after them, then install the lists and fire the post-change hook last; between the
  installation and the post-change hook the setters of the subname properties write at
  most warnings.  \<open>PropertyLinkList::setValues\<close> makes the backlink calls and then calls the
  inherited \<open>setValues\<close>, which is in another file: whatever hooks that one fires come
  after the backlink calls.  No setter makes a backlink call when the scope is hidden or
  the owner is about to be destroyed.
\<close>

theorem setValue_order:
  "(PropertyLink_setValue w lValue p g = Inr (p', g') \<longrightarrow>
      trace g' = trace g @ [AboutToSetValue (self p)]
        @ (case container p of
             None \<Rightarrow> []
           | Some parent \<Rightarrow> swap_backlink w (pcScope p) parent (pcLink p) lValue)
        @ [Assign (self p), HasSetValue (self p)])
   \<and> (PropertyLinkSub_setValue w lValue subs shadows s gs = Inr (s', gs') \<longrightarrow>
        (\<exists>ws. list_all is_warning ws
           \<and> trace gs' = trace gs @ [AboutToSetValue (self s)]
               @ (case container s of
                    None \<Rightarrow> []
                  | Some parent \<Rightarrow> swap_backlink w (pcScope s) parent (pcLinkSub s) lValue)
               @ [Assign (self s)] @ ws @ [HasSetValue (self s)]))
   \<and> (PropertyLinkList_setValues w value r gr = Inr (r', gr') \<longrightarrow>
        trace gr' = trace gr
          @ replace_backlinks w (pcScope r) (container r) (list_lValueList r) (list_lValueList r')
          @ [InheritedSetValues (self r) (list_lValueList r')])
   \<and> (PropertyLinkSubList_setValues w lValues lSubNames shadows q gq = Inr (q', gq') \<longrightarrow>
        (\<exists>ws. list_all is_warning ws
           \<and> trace gq' = trace gq
               @ replace_backlinks w (pcScope q) (container q) (sublist_lValueList q) lValues
               @ [AboutToSetValue (self q), Assign (self q)] @ ws @ [HasSetValue (self q)]))
   \<and> (PropertyLinkSubList_setValues_cstr w lValues names q1 g1 = Inr (q1', g1') \<longrightarrow>
        (\<exists>ws. list_all is_warning ws
           \<and> trace g1' = trace g1
               @ replace_backlinks w (pcScope q1) (container q1) (sublist_lValueList q1) lValues
               @ [AboutToSetValue (self q1), Assign (self q1)] @ ws @ [HasSetValue (self q1)]))
   \<and> (PropertyLinkSubList_setValue_cstr w lValue SubName q2 g2 = Inr (q2', g2') \<longrightarrow>
        (\<exists>ws. list_all is_warning ws
           \<and> trace g2' = trace g2
               @ replace_backlinks w (pcScope q2) (container q2) (sublist_lValueList q2) [lValue]
               @ [AboutToSetValue (self q2), Assign (self q2)] @ ws @ [HasSetValue (self q2)]))
   \<and> (PropertyLinkSubList_setValue w lValue SubList q3 g3 = Inr (q3', g3') \<longrightarrow>
        (\<exists>ws. list_all is_warning ws
           \<and> trace g3' = trace g3
               @ replace_backlinks w (pcScope q3) (container q3) (sublist_lValueList q3) [lValue]
               @ [AboutToSetValue (self q3), Assign (self q3)] @ ws @ [HasSetValue (self q3)]))
   \<and> (sc = Hidden \<or> testStatusDestroy w parent \<longrightarrow>
        swap_backlink w sc parent old new = []
        \<and> replace_backlinks w sc (Some parent) olds news = [])"
  (is "?A \<and> ?B \<and> ?C \<and> ?D \<and> ?D1 \<and> ?D2 \<and> ?D3 \<and> ?E")
proof -
  have A: ?A
    by (auto simp: PropertyLink_setValue_def emit_def split: if_splits)
  have B: ?B using PropertyLinkSub_setValue_trace by blast
  have C: ?C using PropertyLinkList_setValues_trace by blast
  have D: ?D using sublist_setValues_trace by blast
  have D1: ?D1 using sublist_setValues_cstr_trace by blast
  have D2: ?D2 using sublist_setValue_cstr_trace by blast
  have D3: ?D3 using sublist_setValue_trace by blast
  have E: ?E using no_backlinks by blast
  from A B C D D1 D2 D3 E show ?thesis by (intro conjI)
qed

theorem setValue_order_witness:
  "(\<exists>p' g'. PropertyLink_setValue face_world (Some 5) link_to_box no_globals = Inr (p', g')
       \<and> trace g' = [AboutToSetValue 7, RemoveBackLink 5 6, AddBackLink 5 6, Assign 7,
                     HasSetValue 7]
       \<and> hook_before_backlinks 7 (trace g'))
   \<and> (\<exists>s' g'. PropertyLinkSub_setValue face_world (Some 5) [''Face1''] [] unset_sub no_globals
                 = Inr (s', g')
       \<and> (\<exists>ws. list_all is_warning ws
             \<and> trace g' = [AboutToSetValue 8, AddBackLink 5 6, Assign 8] @ ws @ [HasSetValue 8]))
   \<and> (\<exists>r' g'. PropertyLinkList_setValues face_world [Some 5] empty_list no_globals = Inr (r', g')
       \<and> trace g' = [AddBackLink 5 6, InheritedSetValues 10 [Some 5]])
   \<and> (\<exists>q' g'. PropertyLinkSubList_setValues face_world [Some 5] [''Face1''] [] sublist_of_box
                 no_globals = Inr (q', g')
       \<and> (\<exists>ws. list_all is_warning ws
             \<and> trace g' = [RemoveBackLink 5 6, AddBackLink 5 6, AboutToSetValue 9, Assign 9]
                            @ ws @ [HasSetValue 9]))
   \<and> (\<exists>q' g'. PropertyLinkSubList_setValues_cstr face_world [Some 5] [Some ''Face1'']
                 sublist_of_box no_globals = Inr (q', g')
       \<and> (\<exists>ws. list_all is_warning ws
             \<and> trace g' = [RemoveBackLink 5 6, AddBackLink 5 6, AboutToSetValue 9, Assign 9]
                            @ ws @ [HasSetValue 9]))
   \<and> (\<exists>q' g'. PropertyLinkSubList_setValue_cstr face_world (Some 5) (Some ''Face1'')
                 sublist_of_box no_globals = Inr (q', g')
       \<and> (\<exists>ws. list_all is_warning ws
             \<and> trace g' = [RemoveBackLink 5 6, AddBackLink 5 6, AboutToSetValue 9, Assign 9]
                            @ ws @ [HasSetValue 9]))
   \<and> (\<exists>q' g'. PropertyLinkSubList_setValue face_world (Some 5) [''Face1'', ''Edge3'']
                 sublist_of_box no_globals = Inr (q', g')
       \<and> (\<exists>ws. list_all is_warning ws
             \<and> trace g' = [RemoveBackLink 5 6, AddBackLink 5 6, AboutToSetValue 9, Assign 9]
                            @ ws @ [HasSetValue 9]))
   \<and> swap_backlink face_world Hidden 6 (Some 5) (Some 5) = []
   \<and> replace_backlinks face_world Hidden (Some 6) [Some 5] [Some 5] = []"
proof -
  obtain p' g1 where a: "PropertyLink_setValue face_world (Some 5) link_to_box no_globals
                         = Inr (p', g1)"
    by (simp add: PropertyLink_setValue_def link_to_box_def face_world_def)
  obtain s' g2 where b: "PropertyLinkSub_setValue face_world (Some 5) [''Face1''] [] unset_sub
                           no_globals = Inr (s', g2)"
    by (simp add: PropertyLinkSub_setValue_def PropertyLinkSub_updateElementReference_def
        updateLinkReference_def unset_sub_def scene_simps)
  obtain r' g3 where c: "PropertyLinkList_setValues face_world [Some 5] empty_list no_globals
                         = Inr (r', g3)"
    by (simp add: PropertyLinkList_setValues_def empty_list_def face_world_def Let_def)
  obtain q' g4 where d: "PropertyLinkSubList_setValues face_world [Some 5] [''Face1''] []
                           sublist_of_box no_globals = Inr (q', g4)"
    using sublist_run by blast
  obtain q1 g5 where d1: "PropertyLinkSubList_setValues_cstr face_world [Some 5]
                           [Some ''Face1''] sublist_of_box no_globals = Inr (q1, g5)"
    by (simp add: PropertyLinkSubList_setValues_cstr_def
        PropertyLinkSubList_updateElementReference_def sublist_of_box_def scene_simps)
  obtain q2 g6 where d2: "PropertyLinkSubList_setValue_cstr face_world (Some 5) (Some ''Face1'')
                           sublist_of_box no_globals = Inr (q2, g6)"
    by (simp add: PropertyLinkSubList_setValue_cstr_def sublist_finish_def
        PropertyLinkSubList_updateElementReference_def sublist_of_box_def scene_simps)
  obtain q3 g7 where d3: "PropertyLinkSubList_setValue face_world (Some 5) [''Face1'', ''Edge3'']
                           sublist_of_box no_globals = Inr (q3, g7)"
    by (simp add: PropertyLinkSubList_setValue_def sublist_finish_def
        PropertyLinkSubList_updateElementReference_def sublist_of_box_def scene_simps)
  have r': "list_lValueList r' = [Some 5]"
    using c by (auto simp: PropertyLinkList_setValues_def empty_list_def face_world_def Let_def)
  from setValue_order [THEN conjunct1, THEN mp, OF a]
  have h1: "trace g1 = [AboutToSetValue 7, RemoveBackLink 5 6, AddBackLink 5 6,
                                    Assign 7, HasSetValue 7]"
    by (simp add: link_to_box_def swap_backlink_def face_world_def no_globals_def)
  from setValue_order [THEN conjunct2, THEN conjunct1, THEN mp, OF b]
  have h2: "\<exists>ws. list_all is_warning ws
      \<and> trace g2 = [AboutToSetValue 8, AddBackLink 5 6, Assign 8] @ ws @ [HasSetValue 8]"
    by (simp add: unset_sub_def swap_backlink_def face_world_def no_globals_def)
  from setValue_order [THEN conjunct2, THEN conjunct2, THEN conjunct1, THEN mp, OF c] r'
  have h3: "trace g3 = [AddBackLink 5 6, InheritedSetValues 10 [Some 5]]"
    by (simp add: empty_list_def replace_backlinks_def face_world_def no_globals_def)
  from setValue_order [THEN conjunct2, THEN conjunct2, THEN conjunct2, THEN conjunct1,
      THEN mp, OF d]
  have h4: "\<exists>ws. list_all is_warning ws
      \<and> trace g4 = [RemoveBackLink 5 6, AddBackLink 5 6, AboutToSetValue 9, Assign 9]
                     @ ws @ [HasSetValue 9]"
    by (simp add: sublist_of_box_def replace_backlinks_def face_world_def no_globals_def)
  from setValue_order [THEN conjunct2, THEN conjunct2, THEN conjunct2, THEN conjunct2,
      THEN conjunct1, THEN mp, OF d1]
  have h5: "\<exists>ws. list_all is_warning ws
      \<and> trace g5 = [RemoveBackLink 5 6, AddBackLink 5 6, AboutToSetValue 9, Assign 9]
                     @ ws @ [HasSetValue 9]"
    by (simp add: sublist_of_box_def replace_backlinks_def face_world_def no_globals_def)
  from setValue_order [THEN conjunct2, THEN conjunct2, THEN conjunct2, THEN conjunct2,
      THEN conjunct2, THEN conjunct1, THEN mp, OF d2]
  have h6: "\<exists>ws. list_all is_warning ws
      \<and> trace g6 = [RemoveBackLink 5 6, AddBackLink 5 6, AboutToSetValue 9, Assign 9]
                     @ ws @ [HasSetValue 9]"
    by (simp add: sublist_of_box_def replace_backlinks_def face_world_def no_globals_def)
  from setValue_order [THEN conjunct2, THEN conjunct2, THEN conjunct2, THEN conjunct2,
      THEN conjunct2, THEN conjunct2, THEN conjunct1, THEN mp, OF d3]
  have h7: "\<exists>ws. list_all is_warning ws
      \<and> trace g7 = [RemoveBackLink 5 6, AddBackLink 5 6, AboutToSetValue 9, Assign 9]
                     @ ws @ [HasSetValue 9]"
    by (simp add: sublist_of_box_def replace_backlinks_def face_world_def no_globals_def)
  from setValue_order [THEN conjunct2, THEN conjunct2, THEN conjunct2, THEN conjunct2,
      THEN conjunct2, THEN conjunct2, THEN conjunct2,
      of Hidden face_world 6 "Some 5" "Some 5" "[Some 5]" "[Some 5]"]
  have h8: "swap_backlink face_world Hidden 6 (Some 5) (Some 5) = []
      \<and> replace_backlinks face_world Hidden (Some 6) [Some 5] [Some 5] = []"
    by simp
  from h1 have h0: "hook_before_backlinks 7 (trace g1)" by (simp add: hook_before_backlinks_def)
  from a h0 h1 have c1: "\<exists>p' g'. PropertyLink_setValue face_world (Some 5) link_to_box no_globals
       = Inr (p', g')
       \<and> trace g' = [AboutToSetValue 7, RemoveBackLink 5 6, AddBackLink 5 6, Assign 7,
                     HasSetValue 7]
       \<and> hook_before_backlinks 7 (trace g')" by blast
  from b h2 have c2: "\<exists>s' g'. PropertyLinkSub_setValue face_world (Some 5) [''Face1''] []
       unset_sub no_globals = Inr (s', g')
       \<and> (\<exists>ws. list_all is_warning ws
             \<and> trace g' = [AboutToSetValue 8, AddBackLink 5 6, Assign 8] @ ws @ [HasSetValue 8])"
    by blast
  from c h3 have c3: "\<exists>r' g'. PropertyLinkList_setValues face_world [Some 5] empty_list
       no_globals = Inr (r', g')
       \<and> trace g' = [AddBackLink 5 6, InheritedSetValues 10 [Some 5]]" by blast
  from d h4 have c4: "\<exists>q' g'. PropertyLinkSubList_setValues face_world [Some 5] [''Face1''] []
       sublist_of_box no_globals = Inr (q', g')
       \<and> (\<exists>ws. list_all is_warning ws
             \<and> trace g' = [RemoveBackLink 5 6, AddBackLink 5 6, AboutToSetValue 9, Assign 9]
                            @ ws @ [HasSetValue 9])" by blast
  from d1 h5 have c5: "\<exists>q' g'. PropertyLinkSubList_setValues_cstr face_world [Some 5]
       [Some ''Face1''] sublist_of_box no_globals = Inr (q', g')
       \<and> (\<exists>ws. list_all is_warning ws
             \<and> trace g' = [RemoveBackLink 5 6, AddBackLink 5 6, AboutToSetValue 9, Assign 9]
                            @ ws @ [HasSetValue 9])" by blast
  from d2 h6 have c6: "\<exists>q' g'. PropertyLinkSubList_setValue_cstr face_world (Some 5)
       (Some ''Face1'') sublist_of_box no_globals = Inr (q', g')
       \<and> (\<exists>ws. list_all is_warning ws
             \<and> trace g' = [RemoveBackLink 5 6, AddBackLink 5 6, AboutToSetValue 9, Assign 9]
                            @ ws @ [HasSetValue 9])" by blast
  from d3 h7 have c7: "\<exists>q' g'. PropertyLinkSubList_setValue face_world (Some 5)
       [''Face1'', ''Edge3''] sublist_of_box no_globals = Inr (q', g')
       \<and> (\<exists>ws. list_all is_warning ws
             \<and> trace g' = [RemoveBackLink 5 6, AddBackLink 5 6, AboutToSetValue 9, Assign 9]
                            @ ws @ [HasSetValue 9])" by blast
  from c1 c2 c3 c4 c5 c6 c7 h8 show ?thesis by (intro conjI) simp_all
qed

text \<open>
  The pre-change hook does not come first in every setter:
  \<open>PropertyLinkSubList::setValues\<close> has removed and added the backlinks when it fires.
\<close>

theorem sublist_backlinks_before_hook:
  "\<exists>q' g'. PropertyLinkSubList_setValues face_world [Some 5] [''Face1''] [] sublist_of_box
              no_globals = Inr (q', g')
      \<and> trace g' = [RemoveBackLink 5 6, AddBackLink 5 6, AboutToSetValue 9, Assign 9,
                    HasSetValue 9]
      \<and> \<not> hook_before_backlinks 9 (trace g')"
  by (simp add: PropertyLinkSubList_setValues_def PropertyLinkSubList_updateElementReference_def
      sublist_of_box_def scene_simps hook_before_backlinks_def)

text \<open>
  C3.  The backlink calls of the setters of \<open>PropertyLinkList\<close> and \<open>PropertyLinkSubList\<close>
  for a target \<open>a\<close>, when the owner is not about to be destroyed and the scope is not
  hidden.  \<open>PropertyLinkList::setValues\<close> and the two \<open>setValues\<close> of \<open>PropertyLinkSubList\<close>
  call \<open>_addBackLink\<close> as often as the target is in the new list and \<open>_removeBackLink\<close> as
  often as it is in the old list.  The two \<open>setValue\<close> of \<open>PropertyLinkSubList\<close> call
  \<open>_removeBackLink\<close> as often as the target is in the old list and \<open>_addBackLink\<close> once for
  the new target, which \<open>setValue\<close> with a non-empty list of subnames stores once for every
  subname.  \<open>PropertyLinkSubList::addValue\<close> calls \<open>_addBackLink\<close> once for the added
  target, and with \<open>reset\<close> it calls \<open>_removeBackLink\<close> as often as that target is in the
  old list, else not at all.
\<close>

theorem backlink_calls_per_occurrence:
  assumes "\<not> testStatusDestroy w pa" and "sc \<noteq> Hidden"
  shows "(container r = Some pa \<and> pcScope r = sc
            \<and> PropertyLinkList_setValues w value r gr = Inr (r', gr') \<longrightarrow>
          (\<exists>es. trace gr' = trace gr @ es
             \<and> count_list es (AddBackLink a pa) = count_list (list_lValueList r') (Some a)
             \<and> count_list es (RemoveBackLink a pa) = count_list (list_lValueList r) (Some a)))
       \<and> (container q = Some pa \<and> pcScope q = sc
            \<and> PropertyLinkSubList_setValues_cstr w lValues names q gq = Inr (q1, g1) \<longrightarrow>
          (\<exists>es. trace g1 = trace gq @ es
             \<and> count_list es (AddBackLink a pa) = count_list lValues (Some a)
             \<and> count_list es (RemoveBackLink a pa) = count_list (sublist_lValueList q) (Some a)))
       \<and> (container q = Some pa \<and> pcScope q = sc
            \<and> PropertyLinkSubList_setValues w lValues subs shadows q gq = Inr (q2, g2) \<longrightarrow>
          (\<exists>es. trace g2 = trace gq @ es
             \<and> count_list es (AddBackLink a pa) = count_list lValues (Some a)
             \<and> count_list es (RemoveBackLink a pa) = count_list (sublist_lValueList q) (Some a)))
       \<and> (container q = Some pa \<and> pcScope q = sc
            \<and> PropertyLinkSubList_setValue_cstr w lValue SubName q gq = Inr (q3, g3) \<longrightarrow>
          (\<exists>es. trace g3 = trace gq @ es
             \<and> count_list es (AddBackLink a pa) = (if lValue = Some a then 1 else 0)
             \<and> count_list es (RemoveBackLink a pa) = count_list (sublist_lValueList q) (Some a)))
       \<and> (container q = Some pa \<and> pcScope q = sc
            \<and> PropertyLinkSubList_setValue w lValue SubList q gq = Inr (q4, g4) \<longrightarrow>
          (\<exists>es. trace g4 = trace gq @ es
             \<and> count_list es (AddBackLink a pa) = (if lValue = Some a then 1 else 0)
             \<and> count_list es (RemoveBackLink a pa) = count_list (sublist_lValueList q) (Some a))
          \<and> (SubList \<noteq> [] \<longrightarrow> sublist_lValueList q4 = replicate (length SubList) lValue))
       \<and> (container q = Some pa \<and> pcScope q = sc
            \<and> PropertyLinkSubList_addValue w lValue SubList reset q gq = Inr (q5, g5) \<longrightarrow>
          (\<exists>es. trace g5 = trace gq @ es
             \<and> count_list es (AddBackLink a pa) = (if lValue = Some a then 1 else 0)
             \<and> count_list es (RemoveBackLink a pa)
               = (if reset \<and> lValue = Some a then count_list (sublist_lValueList q) (Some a)
                  else 0)))"
  (is "?A \<and> ?B \<and> ?C \<and> ?D \<and> ?E \<and> ?F")
proof -
  note cnt = count_replace_backlinks [OF assms]
  have A: ?A
  proof (intro impI, elim conjE)
    assume own: "container r = Some pa" "pcScope r = sc"
      and run: "PropertyLinkList_setValues w value r gr = Inr (r', gr')"
    let ?es = "replace_backlinks w sc (Some pa) (list_lValueList r) (list_lValueList r')
               @ [InheritedSetValues (self r) (list_lValueList r')]"
    from PropertyLinkList_setValues_trace [OF run] own
    have "trace gr' = trace gr @ ?es" by simp
    moreover have "count_list ?es (AddBackLink a pa) = count_list (list_lValueList r') (Some a)"
      "count_list ?es (RemoveBackLink a pa) = count_list (list_lValueList r) (Some a)"
      by (simp_all add: cnt)
    ultimately show "\<exists>es. trace gr' = trace gr @ es
             \<and> count_list es (AddBackLink a pa) = count_list (list_lValueList r') (Some a)
             \<and> count_list es (RemoveBackLink a pa) = count_list (list_lValueList r) (Some a)"
      by blast
  qed
  have sub: "\<exists>es. trace g' = trace gq @ es
             \<and> count_list es (AddBackLink a pa) = count_list new (Some a)
             \<and> count_list es (RemoveBackLink a pa) = count_list (sublist_lValueList q) (Some a)"
    if own: "container q = Some pa" "pcScope q = sc"
      and tr: "\<exists>ws. list_all is_warning ws
           \<and> trace g' = trace gq
               @ replace_backlinks w (pcScope q) (container q) (sublist_lValueList q) new
               @ [AboutToSetValue (self q), Assign (self q)] @ ws @ [HasSetValue (self q)]"
    for g' :: globals and new
  proof -
    from tr own obtain ws where ws: "list_all is_warning ws"
      and t: "trace g' = trace gq
               @ (replace_backlinks w sc (Some pa) (sublist_lValueList q) new
                  @ [AboutToSetValue (self q), Assign (self q)] @ ws @ [HasSetValue (self q)])"
      by auto
    let ?es = "replace_backlinks w sc (Some pa) (sublist_lValueList q) new
                  @ [AboutToSetValue (self q), Assign (self q)] @ ws @ [HasSetValue (self q)]"
    have "count_list ?es (AddBackLink a pa) = count_list new (Some a)"
      "count_list ?es (RemoveBackLink a pa) = count_list (sublist_lValueList q) (Some a)"
      using count_list_warnings [OF ws, of a pa] by (simp_all add: cnt)
    with t show ?thesis by blast
  qed
  have one: "count_list [lValue] (Some a) = (if lValue = Some a then 1 else 0)" by simp
  have B: ?B
    using sub [OF _ _ sublist_setValues_cstr_trace] by blast
  have C: ?C
    using sub [OF _ _ sublist_setValues_trace] by blast
  have D: ?D
  proof (intro impI, elim conjE)
    assume own: "container q = Some pa" "pcScope q = sc"
      and run: "PropertyLinkSubList_setValue_cstr w lValue SubName q gq = Inr (q3, g3)"
    from sub [OF own sublist_setValue_cstr_trace [OF run]]
    show "\<exists>es. trace g3 = trace gq @ es
             \<and> count_list es (AddBackLink a pa) = (if lValue = Some a then 1 else 0)
             \<and> count_list es (RemoveBackLink a pa) = count_list (sublist_lValueList q) (Some a)"
      unfolding one .
  qed
  have E: ?E
  proof (intro impI, elim conjE)
    assume own: "container q = Some pa" "pcScope q = sc"
      and run: "PropertyLinkSubList_setValue w lValue SubList q gq = Inr (q4, g4)"
    from sub [OF own sublist_setValue_trace [OF run]]
    have "\<exists>es. trace g4 = trace gq @ es
             \<and> count_list es (AddBackLink a pa) = (if lValue = Some a then 1 else 0)
             \<and> count_list es (RemoveBackLink a pa) = count_list (sublist_lValueList q) (Some a)"
      unfolding one .
    moreover have "SubList \<noteq> [] \<longrightarrow> sublist_lValueList q4 = replicate (length SubList) lValue"
      using sublist_setValue_stored [OF run] by blast
    ultimately show "(\<exists>es. trace g4 = trace gq @ es
             \<and> count_list es (AddBackLink a pa) = (if lValue = Some a then 1 else 0)
             \<and> count_list es (RemoveBackLink a pa) = count_list (sublist_lValueList q) (Some a))
          \<and> (SubList \<noteq> [] \<longrightarrow> sublist_lValueList q4 = replicate (length SubList) lValue)"
      by blast
  qed
  have F: ?F
  proof (intro impI, elim conjE)
    assume own: "container q = Some pa" "pcScope q = sc"
      and run: "PropertyLinkSubList_addValue w lValue SubList reset q gq = Inr (q5, g5)"
    from own assms have sc: "pcScope q \<noteq> Hidden" by simp
    from sublist_addValue_trace [OF run own(1) assms(1) sc]
    obtain ws where ws: "list_all is_warning ws"
      and t: "trace g5 = trace gq
               @ ((if reset
                  then map (\<lambda>a. RemoveBackLink a pa)
                         (List.map_filter (\<lambda>v. v)
                            (filter (\<lambda>v. v = lValue) (sublist_lValueList q)))
                  else [])
               @ (case lValue of None \<Rightarrow> [] | Some b \<Rightarrow> [AddBackLink b pa])
               @ [AboutToSetValue (self q), Assign (self q)] @ ws @ [HasSetValue (self q)])"
      by auto
    let ?es = "(if reset
                  then map (\<lambda>a. RemoveBackLink a pa)
                         (List.map_filter (\<lambda>v. v)
                            (filter (\<lambda>v. v = lValue) (sublist_lValueList q)))
                  else [])
               @ (case lValue of None \<Rightarrow> [] | Some b \<Rightarrow> [AddBackLink b pa])
               @ [AboutToSetValue (self q), Assign (self q)] @ ws @ [HasSetValue (self q)]"
    have add: "count_list ?es (AddBackLink a pa) = (if lValue = Some a then 1 else 0)"
      using count_list_warnings [OF ws, of a pa]
      by (auto simp: count_list_other split: option.splits)
    have rem: "count_list ?es (RemoveBackLink a pa)
               = (if reset \<and> lValue = Some a then count_list (sublist_lValueList q) (Some a)
                  else 0)"
      using count_list_warnings [OF ws, of a pa]
      by (auto simp: count_list_map_filter_remove count_list_filter_eq split: option.splits)
    from t add rem show "\<exists>es. trace g5 = trace gq @ es
             \<and> count_list es (AddBackLink a pa) = (if lValue = Some a then 1 else 0)
             \<and> count_list es (RemoveBackLink a pa)
               = (if reset \<and> lValue = Some a then count_list (sublist_lValueList q) (Some a)
                  else 0)"
      by blast
  qed
  from A B C D E F show ?thesis by (intro conjI)
qed

theorem backlink_calls_per_occurrence_witness:
  "(\<exists>r' g'. PropertyLinkList_setValues face_world [Some 5, Some 5] empty_list no_globals
               = Inr (r', g')
      \<and> (\<exists>es. trace g' = trace no_globals @ es
            \<and> count_list es (AddBackLink 5 6) = 2 \<and> count_list es (RemoveBackLink 5 6) = 0))
   \<and> (\<exists>q' g'. PropertyLinkSubList_setValues_cstr face_world [Some 5, Some 5]
                 [Some ''Face1'', Some ''Edge3''] sublist_of_box no_globals = Inr (q', g')
      \<and> (\<exists>es. trace g' = trace no_globals @ es
            \<and> count_list es (AddBackLink 5 6) = 2 \<and> count_list es (RemoveBackLink 5 6) = 1))
   \<and> (\<exists>q' g'. PropertyLinkSubList_setValues face_world [Some 5, Some 5]
                 [''Face1'', ''Edge3''] [] sublist_of_box no_globals = Inr (q', g')
      \<and> (\<exists>es. trace g' = trace no_globals @ es
            \<and> count_list es (AddBackLink 5 6) = 2 \<and> count_list es (RemoveBackLink 5 6) = 1))
   \<and> (\<exists>q' g'. PropertyLinkSubList_setValue_cstr face_world (Some 5) (Some ''Face1'')
                 sublist_of_box no_globals = Inr (q', g')
      \<and> (\<exists>es. trace g' = trace no_globals @ es
            \<and> count_list es (AddBackLink 5 6) = 1 \<and> count_list es (RemoveBackLink 5 6) = 1))
   \<and> (\<exists>q' g'. PropertyLinkSubList_setValue face_world (Some 5) [''Face1'', ''Edge3'']
                 sublist_of_box no_globals = Inr (q', g')
      \<and> (\<exists>es. trace g' = trace no_globals @ es
            \<and> count_list es (AddBackLink 5 6) = 1 \<and> count_list es (RemoveBackLink 5 6) = 1)
      \<and> sublist_lValueList q' = [Some 5, Some 5])
   \<and> (\<exists>q' g'. PropertyLinkSubList_addValue face_world (Some 5) [''Face1'', ''Edge3''] True
                 sublist_of_box no_globals = Inr (q', g')
      \<and> (\<exists>es. trace g' = trace no_globals @ es
            \<and> count_list es (AddBackLink 5 6) = 1 \<and> count_list es (RemoveBackLink 5 6) = 1))"
proof -
  have live: "\<not> testStatusDestroy face_world 6" "Local \<noteq> Hidden"
    by (simp_all add: face_world_def)
  note t = backlink_calls_per_occurrence [OF live]
  have own: "container sublist_of_box = Some 6" "pcScope sublist_of_box = Local"
    "container empty_list = Some 6" "pcScope empty_list = Local"
    by (simp_all add: sublist_of_box_def empty_list_def)
  obtain r' g0 where a: "PropertyLinkList_setValues face_world [Some 5, Some 5] empty_list
                           no_globals = Inr (r', g0)"
    by (simp add: PropertyLinkList_setValues_def empty_list_def face_world_def Let_def)
  obtain q1 g1 where b: "PropertyLinkSubList_setValues_cstr face_world [Some 5, Some 5]
                 [Some ''Face1'', Some ''Edge3''] sublist_of_box no_globals = Inr (q1, g1)"
    by (simp add: PropertyLinkSubList_setValues_cstr_def
        PropertyLinkSubList_updateElementReference_def sublist_of_box_def scene_simps)
  obtain q2 g2 where c: "PropertyLinkSubList_setValues face_world [Some 5, Some 5]
                 [''Face1'', ''Edge3''] [] sublist_of_box no_globals = Inr (q2, g2)"
    by (simp add: PropertyLinkSubList_setValues_def
        PropertyLinkSubList_updateElementReference_def sublist_of_box_def scene_simps)
  obtain q3 g3 where d: "PropertyLinkSubList_setValue_cstr face_world (Some 5) (Some ''Face1'')
                 sublist_of_box no_globals = Inr (q3, g3)"
    by (simp add: PropertyLinkSubList_setValue_cstr_def sublist_finish_def
        PropertyLinkSubList_updateElementReference_def sublist_of_box_def scene_simps)
  obtain q4 g4 where e: "PropertyLinkSubList_setValue face_world (Some 5) [''Face1'', ''Edge3'']
                 sublist_of_box no_globals = Inr (q4, g4)"
    by (simp add: PropertyLinkSubList_setValue_def sublist_finish_def
        PropertyLinkSubList_updateElementReference_def sublist_of_box_def scene_simps)
  obtain q5 g5 where f: "PropertyLinkSubList_addValue face_world (Some 5) [''Face1'', ''Edge3'']
                 True sublist_of_box no_globals = Inr (q5, g5)"
    by (simp add: PropertyLinkSubList_addValue_def sublist_finish_def
        PropertyLinkSubList_updateElementReference_def sublist_of_box_def scene_simps)
  have r': "list_lValueList r' = [Some 5, Some 5]"
    using a by (auto simp: PropertyLinkList_setValues_def empty_list_def face_world_def Let_def)
  from t [THEN conjunct1, THEN mp, OF conjI [OF own(3) conjI [OF own(4) a]], of 5] r'
  have h1: "\<exists>es. trace g0 = trace no_globals @ es
            \<and> count_list es (AddBackLink 5 6) = 2 \<and> count_list es (RemoveBackLink 5 6) = 0"
    by (simp add: empty_list_def numeral_2_eq_2)
  from t [THEN conjunct2, THEN conjunct1, THEN mp, OF conjI [OF own(1) conjI [OF own(2) b]],
      of 5]
  have h2: "\<exists>es. trace g1 = trace no_globals @ es
            \<and> count_list es (AddBackLink 5 6) = 2 \<and> count_list es (RemoveBackLink 5 6) = 1"
    by (simp add: sublist_of_box_def numeral_2_eq_2)
  from t [THEN conjunct2, THEN conjunct2, THEN conjunct1, THEN mp,
      OF conjI [OF own(1) conjI [OF own(2) c]], of 5]
  have h3: "\<exists>es. trace g2 = trace no_globals @ es
            \<and> count_list es (AddBackLink 5 6) = 2 \<and> count_list es (RemoveBackLink 5 6) = 1"
    by (simp add: sublist_of_box_def numeral_2_eq_2)
  from t [THEN conjunct2, THEN conjunct2, THEN conjunct2, THEN conjunct1, THEN mp,
      OF conjI [OF own(1) conjI [OF own(2) d]], of 5]
  have h4: "\<exists>es. trace g3 = trace no_globals @ es
            \<and> count_list es (AddBackLink 5 6) = 1 \<and> count_list es (RemoveBackLink 5 6) = 1"
    by (simp add: sublist_of_box_def)
  from t [THEN conjunct2, THEN conjunct2, THEN conjunct2, THEN conjunct2, THEN conjunct1,
      THEN mp, OF conjI [OF own(1) conjI [OF own(2) e]], of 5]
  have h5: "(\<exists>es. trace g4 = trace no_globals @ es
            \<and> count_list es (AddBackLink 5 6) = 1 \<and> count_list es (RemoveBackLink 5 6) = 1)
      \<and> sublist_lValueList q4 = [Some 5, Some 5]"
    by (simp add: sublist_of_box_def numeral_2_eq_2)
  from t [THEN conjunct2, THEN conjunct2, THEN conjunct2, THEN conjunct2, THEN conjunct2,
      THEN mp, OF conjI [OF own(1) conjI [OF own(2) f]], of 5]
  have h6: "\<exists>es. trace g5 = trace no_globals @ es
            \<and> count_list es (AddBackLink 5 6) = 1 \<and> count_list es (RemoveBackLink 5 6) = 1"
    by (simp add: sublist_of_box_def)
  from a h1 have c1: "\<exists>r' g'. PropertyLinkList_setValues face_world [Some 5, Some 5] empty_list
      no_globals = Inr (r', g')
      \<and> (\<exists>es. trace g' = trace no_globals @ es
            \<and> count_list es (AddBackLink 5 6) = 2 \<and> count_list es (RemoveBackLink 5 6) = 0)"
    by blast
  from b h2 have c2: "\<exists>q' g'. PropertyLinkSubList_setValues_cstr face_world [Some 5, Some 5]
                 [Some ''Face1'', Some ''Edge3''] sublist_of_box no_globals = Inr (q', g')
      \<and> (\<exists>es. trace g' = trace no_globals @ es
            \<and> count_list es (AddBackLink 5 6) = 2 \<and> count_list es (RemoveBackLink 5 6) = 1)"
    by blast
  from c h3 have c3: "\<exists>q' g'. PropertyLinkSubList_setValues face_world [Some 5, Some 5]
                 [''Face1'', ''Edge3''] [] sublist_of_box no_globals = Inr (q', g')
      \<and> (\<exists>es. trace g' = trace no_globals @ es
            \<and> count_list es (AddBackLink 5 6) = 2 \<and> count_list es (RemoveBackLink 5 6) = 1)"
    by blast
  from d h4 have c4: "\<exists>q' g'. PropertyLinkSubList_setValue_cstr face_world (Some 5)
                 (Some ''Face1'') sublist_of_box no_globals = Inr (q', g')
      \<and> (\<exists>es. trace g' = trace no_globals @ es
            \<and> count_list es (AddBackLink 5 6) = 1 \<and> count_list es (RemoveBackLink 5 6) = 1)"
    by blast
  from e h5 have c5: "\<exists>q' g'. PropertyLinkSubList_setValue face_world (Some 5)
                 [''Face1'', ''Edge3''] sublist_of_box no_globals = Inr (q', g')
      \<and> (\<exists>es. trace g' = trace no_globals @ es
            \<and> count_list es (AddBackLink 5 6) = 1 \<and> count_list es (RemoveBackLink 5 6) = 1)
      \<and> sublist_lValueList q' = [Some 5, Some 5]"
    by blast
  from f h6 have c6: "\<exists>q' g'. PropertyLinkSubList_addValue face_world (Some 5)
                 [''Face1'', ''Edge3''] True sublist_of_box no_globals = Inr (q', g')
      \<and> (\<exists>es. trace g' = trace no_globals @ es
            \<and> count_list es (AddBackLink 5 6) = 1 \<and> count_list es (RemoveBackLink 5 6) = 1)"
    by blast
  from c1 c2 c3 c4 c5 c6 show ?thesis by (intro conjI)
qed

text \<open>
  A list that holds object 5 twice makes two calls of \<open>_addBackLink\<close> for it, in
  \<open>PropertyLinkList::setValues\<close> and in \<open>PropertyLinkSubList::setValues\<close>.
\<close>

theorem duplicate_target_two_calls:
  "(\<exists>r' g'. PropertyLinkList_setValues face_world [Some 5, Some 5] empty_list no_globals
              = Inr (r', g')
      \<and> trace g' = [AddBackLink 5 6, AddBackLink 5 6, InheritedSetValues 10 [Some 5, Some 5]]
      \<and> count_list (trace g') (AddBackLink 5 6) = 2)
   \<and> (\<exists>q' g'. PropertyLinkSubList_setValues_cstr face_world [Some 5, Some 5]
                 [Some ''Face1'', Some ''Edge3''] sublist_of_box no_globals = Inr (q', g')
      \<and> trace g' = [RemoveBackLink 5 6, AddBackLink 5 6, AddBackLink 5 6, AboutToSetValue 9,
                    Assign 9, HasSetValue 9]
      \<and> count_list (trace g') (AddBackLink 5 6) = 2)"
  by (simp add: PropertyLinkList_setValues_def empty_list_def
      PropertyLinkSubList_setValues_cstr_def PropertyLinkSubList_updateElementReference_def
      sublist_of_box_def scene_simps)

subsection \<open>Deleting a document detaches the links into it\<close>




























end
